(* ===== verification/Fs.thy ===== *)
theory Fs
  imports Prelude
begin

text \<open>
  The file system the program works on, and programs over it.

  A file system is a tree: regular files with their bytes and a flag saying whether the bytes
  were synced since they were written, symbolic links, and directories listing their entries in
  the (unspecified) order \<open>read_dir\<close> reports them.

  A program is a function from a world to a result and a world. Every system call spends one
  tick of the world's clock of faults: the schedule decides whether that call works, fails with
  an I/O error, or is the point where the process is killed. So a theorem quantified over all
  worlds covers every I/O failure and every crash point of an operation. \<^term>\<open>Killed\<close> stops
  everything after it, clean-up code included.
\<close>

type_synonym path = "string list"

datatype node =
    Reg string bool
  | Lnk string
  | Sub "(string \<times> node) list"

type_synonym dir = "(string \<times> node) list"

subsection \<open>Trees\<close>

fun lookup :: "node \<Rightarrow> path \<Rightarrow> node option" where
  "lookup n [] = Some n"
| "lookup (Sub es) (k # p) = (case map_of es k of None \<Rightarrow> None | Some c \<Rightarrow> lookup c p)"
| "lookup _ (k # p) = None"

text \<open>\<open>put p v t\<close> makes \<open>v\<close> the node at \<open>p\<close> (\<^const>\<open>None\<close> removes it); nothing happens when the
  parent of \<open>p\<close> is not a directory.\<close>

fun put :: "path \<Rightarrow> node option \<Rightarrow> node \<Rightarrow> node" where
  "put [] v t = (case v of None \<Rightarrow> t | Some n \<Rightarrow> n)"
| "put (k # p) v (Sub es) =
     Sub (if p = [] then (case v of None \<Rightarrow> AList.delete k es | Some n \<Rightarrow> AList.update k n es)
          else (case map_of es k of None \<Rightarrow> es | Some c \<Rightarrow> AList.update k (put p v c) es))"
| "put (k # p) v t = t"

definition is_dir :: "node \<Rightarrow> path \<Rightarrow> bool" where
  "is_dir t p \<longleftrightarrow> (\<exists>es. lookup t p = Some (Sub es))"

definition is_file :: "node \<Rightarrow> path \<Rightarrow> bool" where
  "is_file t p \<longleftrightarrow> (\<exists>c s. lookup t p = Some (Reg c s))"

definition exists_at :: "node \<Rightarrow> path \<Rightarrow> bool" where
  "exists_at t p \<longleftrightarrow> lookup t p \<noteq> None"

lemma is_dir_code [code]:
  "is_dir t p = (case lookup t p of Some (Sub es) \<Rightarrow> True | _ \<Rightarrow> False)"
  by (auto simp: is_dir_def split: option.splits node.splits)

lemma is_file_code [code]:
  "is_file t p = (case lookup t p of Some (Reg c s) \<Rightarrow> True | _ \<Rightarrow> False)"
  by (auto simp: is_file_def split: option.splits node.splits)

lemma exists_at_code [code]:
  "exists_at t p = (case lookup t p of None \<Rightarrow> False | Some _ \<Rightarrow> True)"
  by (auto simp: exists_at_def split: option.splits)

lemma lookup_append: "lookup t (p @ q) = Option.bind (lookup t p) (\<lambda>n. lookup n q)"
  by (induction t p rule: lookup.induct) (auto split: option.splits)

lemma lookup_append_Some: "lookup t p = Some n \<Longrightarrow> lookup t (p @ q) = lookup n q"
  by (simp add: lookup_append)

lemma lookup_append_None: "lookup t p = None \<Longrightarrow> lookup t (p @ q) = None"
  by (simp add: lookup_append)

lemma lookup_put_same:
  assumes "is_dir t p"
  shows "lookup (put (p @ [k]) v t) (p @ [k]) = v"
  using assms
proof (induction p arbitrary: t)
  case Nil
  then show ?case by (auto simp: is_dir_def split: option.splits)
next
  case (Cons a p)
  then obtain es c where t: "t = Sub es" and c: "map_of es a = Some c" and "is_dir c p"
    by (cases t) (auto simp: is_dir_def split: option.splits)
  with Cons.IH show ?case by simp
qed

lemma lookup_put_parallel:
  assumes "\<not> prefix p q" "\<not> prefix q p"
  shows "lookup (put p v t) q = lookup t q"
  using assms
proof (induction p v t arbitrary: q rule: put.induct)
  case (2 k p v es)
  then obtain k' q' where q: "q = k' # q'" by (cases q) auto
  show ?case
  proof (cases "k' = k")
    case True
    with 2 q have "p \<noteq> []" "\<not> prefix p q'" "\<not> prefix q' p" by auto
    with True q "2.IH" show ?thesis by (auto split: option.splits)
  next
    case False
    with q show ?thesis by (auto split: option.splits)
  qed
qed auto

text \<open>Writing below a directory keeps it a directory, and reading above a removed or replaced
  node still sees a directory.\<close>

lemma is_dir_put_above:
  assumes "is_dir t q" "strict_prefix q p"
  shows "is_dir (put p v t) q"
  using assms
proof (induction p v t arbitrary: q rule: put.induct)
  case (2 k p v es)
  show ?case
  proof (cases q)
    case Nil
    then show ?thesis by (simp add: is_dir_def)
  next
    case (Cons k' q')
    with 2 obtain c where "k' = k" "strict_prefix q' p" "map_of es k = Some c" "is_dir c q'"
      by (auto simp: is_dir_def split: option.splits)
    moreover from this have "p \<noteq> []" by auto
    ultimately show ?thesis using Cons "2.IH" by (auto simp: is_dir_def)
  qed
qed (auto simp: is_dir_def)

lemma lookup_put_below:
  assumes "is_dir t p"
  shows "lookup (put (p @ [k]) (Some n) t) (p @ k # r) = lookup n r"
  using lookup_append_Some [OF lookup_put_same [OF assms, of k "Some n"], of r] by simp

lemma lookup_put_None_below:
  assumes "is_dir t p"
  shows "lookup (put (p @ [k]) None t) (p @ k # r) = None"
  using lookup_append_None [OF lookup_put_same [OF assms, of k None], of r] by simp

lemma is_dir_put_parallel:
  "\<not> prefix p q \<Longrightarrow> \<not> prefix q p \<Longrightarrow> is_dir (put p v t) q = is_dir t q"
  by (simp add: is_dir_def lookup_put_parallel)

text \<open>The entries of a directory after one of them is written.\<close>

lemma lookup_put_parent:
  assumes "lookup t p = Some (Sub es)"
  shows "lookup (put (p @ [k]) v t) p =
    Some (Sub (case v of None \<Rightarrow> AList.delete k es | Some n \<Rightarrow> AList.update k n es))"
  using assms
proof (induction p arbitrary: t)
  case (Cons a p)
  then show ?case by (cases t) (auto split: option.splits)
qed (auto split: option.splits)

text \<open>When the parent is no directory nothing is written.\<close>

lemma put_no_parent:
  assumes "\<not> is_dir t p"
  shows "put (p @ [k]) v t = t"
  using assms
proof (induction p arbitrary: t)
  case Nil
  then show ?case by (cases t) (auto simp: is_dir_def)
next
  case (Cons a p)
  show ?case
  proof (cases t)
    case (Sub es)
    show ?thesis
    proof (cases "map_of es a")
      case (Some c)
      with Cons.prems Sub have "\<not> is_dir c p" by (simp add: is_dir_def)
      with Cons.IH have "put (p @ [k]) v c = c" by simp
      with Sub Some show ?thesis by (simp add: map_of_SomeD update_triv)
    qed (simp add: Sub)
  qed auto
qed

end
