(* ===== verification/Types.thy ===== *)
theory Types
  imports Prelude
begin

text \<open>
  The values the program writes to disk as JSON: the instance record \<open>state.json\<close>, generation
  manifests and checkpoint references (\<open>src/src/store.rs\<close>), and the identity of a process
  (\<open>src/src/runner/locks.rs\<close>). The JSON encoding itself is \<open>serde_json\<close>, which is not part of the
  program: it is a parameter, the record \<open>codec\<close>, whose round-trip law is \<open>codec_ok\<close>.
\<close>

type_synonym gen_id = string
type_synonym run_id = string

record ProcessIdentity =
  pid :: int
  started :: nat

datatype Phase =
    Stopped
  | Running run_id ProcessIdentity
  | Dirty run_id ProcessIdentity

fun phase_run :: "Phase \<Rightarrow> run_id option" where
  "phase_run Stopped = None"
| "phase_run (Running r _) = Some r"
| "phase_run (Dirty r _) = Some r"

record Record =
  version :: nat
  latest :: "gen_id option"
  phase :: Phase

datatype Origin =
    Image
  | Snapshot run_id
  | SnapshotExit run_id
  | Checkpoint run_id
  | Salvage run_id
  | DropMemory
  | Edited
  | Migrated
  | Import

record Manifest =
  m_version :: nat
  m_id :: gen_id
  m_parent :: "gen_id option"
  m_origin :: Origin
  m_created_unix_nanos :: nat
  m_files :: "(string \<times> nat) list"

record CheckpointRef =
  ref_id :: string
  ref_name :: "string option"
  ref_generation :: gen_id
  ref_created_unix :: nat

subsection \<open>Ids\<close>

text \<open>Ids name a single path component: letters, digits, dash, underscore and dot, and no leading
  dot, so neither the hidden working directories of the store nor a path outside it can be named.\<close>

definition id_byte :: "char \<Rightarrow> bool" where
  "id_byte c \<longleftrightarrow> is_ascii_alphanumeric c \<or> c \<in> {CHR ''-'', CHR ''_'', CHR ''.''}"

definition valid_component :: "string \<Rightarrow> bool" where
  "valid_component v \<longleftrightarrow> v \<noteq> [] \<and> \<not> starts_with v ''.'' \<and> list_all id_byte v"

definition validate_component :: "string \<Rightarrow> string \<Rightarrow> err + unit" where
  "validate_component kind v =
     (if valid_component v then Inr () else Inl (Bail (''invalid '' @ kind @ '' id'')))"

text \<open>\<open>new_id\<close>: the wall clock in nanoseconds padded to twenty digits, the process id, and a
  sequence number of the process.\<close>

definition new_id :: "string \<Rightarrow> nat \<Rightarrow> nat \<Rightarrow> nat \<Rightarrow> string" where
  "new_id pre nanos proc sequence =
     pre @ pad0 20 (show_nat nanos) @ ''-'' @ show_nat proc @ ''-'' @ show_nat sequence"

subsection \<open>The JSON codec\<close>

record codec =
  enc_record :: "Record \<Rightarrow> string"
  dec_record :: "string \<Rightarrow> Record option"
  enc_manifest :: "Manifest \<Rightarrow> string"
  dec_manifest :: "string \<Rightarrow> Manifest option"
  enc_ref :: "CheckpointRef \<Rightarrow> string"
  dec_ref :: "string \<Rightarrow> CheckpointRef option"

text \<open>What the store relies on: a value read back from its own encoding, with the newline the
  store appends, is the value.\<close>

definition codec_ok :: "codec \<Rightarrow> bool" where
  "codec_ok C \<longleftrightarrow>
     (\<forall>r. dec_record C (enc_record C r @ [CHR 0x0A]) = Some r) \<and>
     (\<forall>m. dec_manifest C (enc_manifest C m @ [CHR 0x0A]) = Some m) \<and>
     (\<forall>c. dec_ref C (enc_ref C c @ [CHR 0x0A]) = Some c)"

text \<open>Reading an id out of a document validates it (\<open>serde(try_from = "String")\<close>), so a document
  with an invalid id does not parse.\<close>

definition phase_ids_ok :: "Phase \<Rightarrow> bool" where
  "phase_ids_ok p = (case phase_run p of None \<Rightarrow> True | Some r \<Rightarrow> valid_component r)"

definition record_ids_ok :: "Record \<Rightarrow> bool" where
  "record_ids_ok r \<longleftrightarrow>
     (case latest r of None \<Rightarrow> True | Some g \<Rightarrow> valid_component g) \<and> phase_ids_ok (phase r)"

fun origin_run :: "Origin \<Rightarrow> run_id option" where
  "origin_run (Snapshot r) = Some r"
| "origin_run (SnapshotExit r) = Some r"
| "origin_run (Checkpoint r) = Some r"
| "origin_run (Salvage r) = Some r"
| "origin_run _ = None"

definition manifest_ids_ok :: "Manifest \<Rightarrow> bool" where
  "manifest_ids_ok m \<longleftrightarrow> valid_component (m_id m) \<and>
     (case m_parent m of None \<Rightarrow> True | Some g \<Rightarrow> valid_component g) \<and>
     (case origin_run (m_origin m) of None \<Rightarrow> True | Some r \<Rightarrow> valid_component r)"

definition ref_ids_ok :: "CheckpointRef \<Rightarrow> bool" where
  "ref_ids_ok c \<longleftrightarrow> valid_component (ref_generation c)"

definition parse_record :: "codec \<Rightarrow> string \<Rightarrow> Record option" where
  "parse_record C s =
     (case dec_record C s of None \<Rightarrow> None | Some r \<Rightarrow> if record_ids_ok r then Some r else None)"

definition parse_manifest :: "codec \<Rightarrow> string \<Rightarrow> Manifest option" where
  "parse_manifest C s =
     (case dec_manifest C s of None \<Rightarrow> None | Some m \<Rightarrow> if manifest_ids_ok m then Some m else None)"

definition parse_ref :: "codec \<Rightarrow> string \<Rightarrow> CheckpointRef option" where
  "parse_ref C s =
     (case dec_ref C s of None \<Rightarrow> None | Some c \<Rightarrow> if ref_ids_ok c then Some c else None)"

subsection \<open>Facts about ids\<close>

lemma is_digit_id_byte: "is_ascii_digit c \<Longrightarrow> id_byte c"
  by (simp add: id_byte_def is_ascii_alphanumeric_def)

lemma digits_id_bytes: "list_all is_ascii_digit s \<Longrightarrow> list_all id_byte s"
  by (simp add: list_all_iff is_digit_id_byte)

lemma dash_id_byte [simp]: "id_byte (CHR ''-'')"
  by (simp add: id_byte_def)

lemma slash_not_id_byte [simp]: "\<not> id_byte (CHR ''/'')"
  by (simp add: id_byte_def is_ascii_alphanumeric_def is_ascii_digit_def is_ascii_upper_def
      is_ascii_lower_def byte_def)

lemma valid_component_no_slash: "valid_component v \<Longrightarrow> CHR ''/'' \<notin> set v"
  by (auto simp: valid_component_def list_all_iff)

lemma valid_component_not_dot: "valid_component v \<Longrightarrow> \<not> starts_with v (CHR ''.'' # x)"
  by (cases v) (auto simp: valid_component_def starts_with_def)

lemma new_id_valid:
  assumes "pre \<in> {''g'', ''r''}"
  shows "valid_component (new_id pre n p q)"
proof -
  have "list_all id_byte pre" "pre \<noteq> []" "\<not> starts_with (pre @ x) ''.''" for x
    using assms by (auto simp: id_byte_def is_ascii_alphanumeric_def is_ascii_lower_def byte_def
        starts_with_def)
  then show ?thesis
    by (simp add: valid_component_def new_id_def digits_id_bytes show_nat_digits pad0_digits)
qed

text \<open>Ids made with the same prefix are equal only if clock, process and sequence number all
  agree.\<close>

lemma new_id_inject:
  assumes "new_id pre n p q = new_id pre n' p' q'"
  shows "n = n' \<and> p = p' \<and> q = q'"
proof -
  note nd = not_digit_notin [OF _ dash_not_digit]
  have 1: "pad0 20 (show_nat n) @ CHR ''-'' # (show_nat p @ CHR ''-'' # show_nat q) =
      pad0 20 (show_nat n') @ CHR ''-'' # (show_nat p' @ CHR ''-'' # show_nat q')"
    using assms by (simp add: new_id_def)
  then have a: "pad0 20 (show_nat n) = pad0 20 (show_nat n')"
    and b: "show_nat p @ CHR ''-'' # show_nat q = show_nat p' @ CHR ''-'' # show_nat q'"
    using sep_inject [OF nd nd 1] by (auto simp: pad0_digits show_nat_digits)
  from b have "show_nat p = show_nat p' \<and> show_nat q = show_nat q'"
    using sep_inject [OF nd nd b] by (auto simp: show_nat_digits)
  moreover from a have "n = n'"
    by (metis digits_val_pad0 digits_val_show)
  ultimately show ?thesis by simp
qed

end
