(* ===== verification/World.thy ===== *)
theory World
  imports Fs Types
begin

text \<open>
  Programs over the file system: results, sequencing, system calls with faults, and the rules by
  which facts about an operation follow from facts about its system calls.

  The environment of an operation is fixed while it runs: the JSON codec, the identity of the
  process, the wall clock and the fault schedule (both indexed by the tick), which generation
  directories some other process holds a shared lock on, how many bytes the file system
  reports as allocated for a file, and which processes run, each with its start time.
\<close>

datatype fault =
    Works
  | Fails string
  | Dies string

record env =
  codec :: codec
  process :: ProcessIdentity
  clock :: "nat \<Rightarrow> nat"
  faults :: "nat \<Rightarrow> fault"
  pinned_at :: "nat \<Rightarrow> path \<Rightarrow> bool"
  allocated_at :: "nat \<Rightarrow> path \<Rightarrow> nat"
  started_at :: "nat \<Rightarrow> int \<Rightarrow> nat option"

record sys =
  fs :: node
  tick :: nat
  seq :: nat

datatype 'a res = Ok 'a | Err err | Killed

type_synonym 'a M = "env \<Rightarrow> sys \<Rightarrow> 'a res \<times> sys"

subsection \<open>Sequencing\<close>

definition ret :: "'a \<Rightarrow> 'a M" where
  "ret x e s = (Ok x, s)"

definition raise :: "err \<Rightarrow> 'a M" where
  "raise x e s = (Err x, s)"

definition bind :: "'a M \<Rightarrow> ('a \<Rightarrow> 'b M) \<Rightarrow> 'b M" where
  "bind m f e s =
     (case m e s of (Ok x, s') \<Rightarrow> f x e s' | (Err x, s') \<Rightarrow> (Err x, s') | (Killed, s') \<Rightarrow> (Killed, s'))"

text \<open>\<open>recover_with m h\<close>: run \<open>h\<close> on an error of \<open>m\<close>; being killed is no error.\<close>

definition recover_with :: "'a M \<Rightarrow> (err \<Rightarrow> 'a M) \<Rightarrow> 'a M" where
  "recover_with m h e s =
     (case m e s of (Ok x, s') \<Rightarrow> (Ok x, s') | (Err x, s') \<Rightarrow> h x e s' | (Killed, s') \<Rightarrow> (Killed, s'))"

definition ignore :: "'a M \<Rightarrow> unit M" where
  "ignore m = recover_with (bind m (\<lambda>_. ret ())) (\<lambda>_. ret ())"

definition lift_res :: "err + 'a \<Rightarrow> 'a M" where
  "lift_res r = (case r of Inl x \<Rightarrow> raise x | Inr x \<Rightarrow> ret x)"

definition ask :: "(env \<Rightarrow> 'a) \<Rightarrow> 'a M" where
  "ask f e s = (Ok (f e), s)"

fun each :: "('a \<Rightarrow> unit M) \<Rightarrow> 'a list \<Rightarrow> unit M" where
  "each f [] = ret ()"
| "each f (x # xs) = bind (f x) (\<lambda>_. each f xs)"

text \<open>\<open>for x in xs { acc = f(acc, x)?; }\<close>\<close>

fun folding :: "('b \<Rightarrow> 'a \<Rightarrow> 'b M) \<Rightarrow> 'b \<Rightarrow> 'a list \<Rightarrow> 'b M" where
  "folding f acc [] = ret acc"
| "folding f acc (x # xs) = bind (f acc x) (\<lambda>acc'. folding f acc' xs)"

definition when_ok :: "bool \<Rightarrow> unit M \<Rightarrow> unit M" where
  "when_ok b m = (if b then m else ret ())"

subsection \<open>System calls\<close>

text \<open>\<open>call torn f\<close>: a system call with effect \<open>f\<close>. A call that fails, or during which the process
  dies, leaves the tree \<open>torn j\<close> makes of it, for some leftover \<open>j\<close> of the schedule.\<close>

definition call :: "(string \<Rightarrow> node \<Rightarrow> node) \<Rightarrow> (node \<Rightarrow> io_kind + 'a \<times> node) \<Rightarrow> 'a M" where
  "call torn f e s =
     (let s' = s\<lparr>tick := Suc (tick s)\<rparr> in
      case faults e (tick s) of
        Works \<Rightarrow>
          (case f (fs s) of
             Inl k \<Rightarrow> (Err (Io k), s')
           | Inr (x, t) \<Rightarrow> (Ok x, s'\<lparr>fs := t\<rparr>))
      | Fails j \<Rightarrow> (Err (Io OtherIo), s'\<lparr>fs := torn j (fs s)\<rparr>)
      | Dies j \<Rightarrow> (Killed, s'\<lparr>fs := torn j (fs s)\<rparr>))"

definition intact :: "string \<Rightarrow> node \<Rightarrow> node" where
  "intact j t = t"

text \<open>Why a path is missing: a component that is no directory is another error than a missing
  entry.\<close>

fun missing_kind :: "node \<Rightarrow> path \<Rightarrow> io_kind" where
  "missing_kind (Sub es) (k # p) =
     (case map_of es k of None \<Rightarrow> NotFound | Some c \<Rightarrow> missing_kind c p)"
| "missing_kind (Reg _ _) (k # p) = OtherIo"
| "missing_kind (Lnk _) (k # p) = OtherIo"
| "missing_kind _ [] = NotFound"

definition observe :: "(node \<Rightarrow> io_kind + 'a) \<Rightarrow> 'a M" where
  "observe f = call intact (\<lambda>t. case f t of Inl k \<Rightarrow> Inl k | Inr x \<Rightarrow> Inr (x, t))"

definition symlink_metadata :: "path \<Rightarrow> node M" where
  "symlink_metadata p =
     observe (\<lambda>t. case lookup t p of None \<Rightarrow> Inl (missing_kind t p) | Some n \<Rightarrow> Inr n)"

definition read_file :: "path \<Rightarrow> string M" where
  "read_file p =
     observe (\<lambda>t. case lookup t p of
        None \<Rightarrow> Inl (missing_kind t p)
      | Some (Reg c _) \<Rightarrow> Inr c
      | Some _ \<Rightarrow> Inl OtherIo)"

text \<open>\<open>File::open\<close> for reading: works on anything that is there.\<close>

definition open_file :: "path \<Rightarrow> unit M" where
  "open_file p =
     observe (\<lambda>t. case lookup t p of None \<Rightarrow> Inl (missing_kind t p) | Some _ \<Rightarrow> Inr ())"

text \<open>\<open>fs::metadata\<close> of a regular file: its length and the bytes allocated for it.\<close>

definition file_len :: "path \<Rightarrow> nat M" where
  "file_len p =
     observe (\<lambda>t. case lookup t p of
        None \<Rightarrow> Inl (missing_kind t p)
      | Some (Reg c _) \<Rightarrow> Inr (length c)
      | Some _ \<Rightarrow> Inl OtherIo)"

definition file_allocated :: "path \<Rightarrow> nat M" where
  "file_allocated p e s =
     bind (file_len p) (\<lambda>_. ret (allocated_at e (tick s) p)) e s"

text \<open>A listing has each name once.\<close>

definition read_dir :: "path \<Rightarrow> dir M" where
  "read_dir p =
     observe (\<lambda>t. case lookup t p of
        None \<Rightarrow> Inl (missing_kind t p)
      | Some (Sub es) \<Rightarrow> Inr (AList.clearjunk es)
      | Some _ \<Rightarrow> Inl OtherIo)"

text \<open>\<open>Path::exists\<close>, \<open>is_dir\<close> and \<open>is_file\<close> answer false when the check itself fails.\<close>

definition test_path :: "(node \<Rightarrow> path \<Rightarrow> bool) \<Rightarrow> path \<Rightarrow> bool M" where
  "test_path f p = recover_with (observe (\<lambda>t. Inr (f t p))) (\<lambda>_. ret False)"

fun make_dirs :: "path \<Rightarrow> node \<Rightarrow> node option" where
  "make_dirs [] (Sub es) = Some (Sub es)"
| "make_dirs [] _ = None"
| "make_dirs (k # p) (Sub es) =
     map_option (\<lambda>c. Sub (AList.update k c es))
       (make_dirs p (case map_of es k of None \<Rightarrow> Sub [] | Some c \<Rightarrow> c))"
| "make_dirs (k # p) _ = None"

definition create_dir_all :: "path \<Rightarrow> unit M" where
  "create_dir_all p =
     call intact (\<lambda>t. case make_dirs p t of None \<Rightarrow> Inl OtherIo | Some t' \<Rightarrow> Inr ((), t'))"

definition parent_of :: "path \<Rightarrow> path" where
  "parent_of p = butlast p"

definition parent_kind :: "node \<Rightarrow> path \<Rightarrow> io_kind" where
  "parent_kind t p = (if exists_at t (parent_of p) then OtherIo else missing_kind t (parent_of p))"

text \<open>\<open>OpenOptions::create_new\<close>.\<close>

definition create_new :: "path \<Rightarrow> unit M" where
  "create_new p =
     call intact (\<lambda>t.
       if exists_at t p then Inl AlreadyExists
       else if \<not> is_dir t (parent_of p) then Inl (parent_kind t p)
       else Inr ((), put p (Some (Reg [] False)) t))"

text \<open>Writing an open file; an interrupted write leaves anything.\<close>

definition overwrite :: "path \<Rightarrow> string \<Rightarrow> node \<Rightarrow> node" where
  "overwrite p c t = (if is_file t p then put p (Some (Reg c False)) t else t)"

definition write_all :: "path \<Rightarrow> string \<Rightarrow> unit M" where
  "write_all p c =
     call (\<lambda>j. overwrite p j)
       (\<lambda>t. if is_file t p then Inr ((), overwrite p c t) else Inl OtherIo)"

text \<open>\<open>fs::write\<close> and \<open>File::create\<close>: create or truncate, then write.\<close>

definition plant :: "path \<Rightarrow> string \<Rightarrow> node \<Rightarrow> node" where
  "plant p c t =
     (if is_dir t (parent_of p) \<and> \<not> is_dir t p then put p (Some (Reg c False)) t else t)"

definition write_file :: "path \<Rightarrow> string \<Rightarrow> unit M" where
  "write_file p c =
     call (\<lambda>j. plant p j)
       (\<lambda>t. if \<not> is_dir t (parent_of p) then Inl (parent_kind t p)
            else if is_dir t p then Inl OtherIo
            else Inr ((), plant p c t))"

definition mark_synced :: "path \<Rightarrow> node \<Rightarrow> node" where
  "mark_synced p t = (case lookup t p of Some (Reg c _) \<Rightarrow> put p (Some (Reg c True)) t | _ \<Rightarrow> t)"

definition sync_file :: "path \<Rightarrow> unit M" where
  "sync_file p =
     call intact (\<lambda>t. if is_file t p then Inr ((), mark_synced p t) else Inl (missing_kind t p))"

text \<open>Syncing a directory orders its entries before later writes; the tree does not change.\<close>

definition sync_dir :: "path \<Rightarrow> unit M" where
  "sync_dir p =
     observe (\<lambda>t. if is_dir t p then Inr () else Inl (if exists_at t p then OtherIo else missing_kind t p))"

text \<open>\<open>rename(2)\<close>: a file may replace a file, a directory an empty directory.\<close>

definition may_replace :: "node \<Rightarrow> node option \<Rightarrow> bool" where
  "may_replace n old =
     (case old of
        None \<Rightarrow> True
      | Some (Sub es) \<Rightarrow> es = [] \<and> (case n of Sub _ \<Rightarrow> True | _ \<Rightarrow> False)
      | Some _ \<Rightarrow> (case n of Sub _ \<Rightarrow> False | _ \<Rightarrow> True))"

definition rename :: "path \<Rightarrow> path \<Rightarrow> unit M" where
  "rename src dst =
     call intact (\<lambda>t. case lookup t src of
        None \<Rightarrow> Inl (missing_kind t src)
      | Some n \<Rightarrow>
          if \<not> is_dir t (parent_of dst) then Inl (parent_kind t dst)
          else if src = dst then Inr ((), t)
          else if prefix src dst \<or> prefix dst src then Inl OtherIo
          else if \<not> may_replace n (lookup t dst) then Inl OtherIo
          else Inr ((), put dst (Some n) (put src None t)))"

definition remove_file :: "path \<Rightarrow> unit M" where
  "remove_file p =
     call intact (\<lambda>t. case lookup t p of
        None \<Rightarrow> Inl (missing_kind t p)
      | Some (Sub _) \<Rightarrow> Inl OtherIo
      | Some _ \<Rightarrow> Inr ((), put p None t))"

text \<open>An interrupted recursive removal has removed some of the entries.\<close>

definition gnaw :: "path \<Rightarrow> string \<Rightarrow> node \<Rightarrow> node" where
  "gnaw p j t =
     (case lookup t p of Some (Sub es) \<Rightarrow> put p (Some (Sub (drop (length j) es))) t | _ \<Rightarrow> t)"

definition remove_dir_all :: "path \<Rightarrow> unit M" where
  "remove_dir_all p =
     call (gnaw p) (\<lambda>t. case lookup t p of
        None \<Rightarrow> Inl (missing_kind t p)
      | Some (Sub _) \<Rightarrow> Inr ((), put p None t)
      | Some _ \<Rightarrow> Inl OtherIo)"

text \<open>\<open>clonefile\<close>, \<open>FICLONE\<close> or a copy: the destination gets the bytes of the source, not yet
  synced; an interrupted or refused copy leaves anything at the destination.\<close>

definition copy_file :: "path \<Rightarrow> path \<Rightarrow> unit M" where
  "copy_file src dst =
     call (\<lambda>j. plant dst j) (\<lambda>t. case lookup t src of
        Some (Reg c _) \<Rightarrow>
          if \<not> is_dir t (parent_of dst) then Inl (parent_kind t dst)
          else if is_dir t dst then Inl OtherIo
          else Inr ((), plant dst c t)
      | Some _ \<Rightarrow> Inl OtherIo
      | None \<Rightarrow> Inl (missing_kind t src))"

definition make_symlink :: "path \<Rightarrow> string \<Rightarrow> unit M" where
  "make_symlink p target =
     call intact (\<lambda>t.
       if exists_at t p then Inl AlreadyExists
       else if \<not> is_dir t (parent_of p) then Inl (parent_kind t p)
       else Inr ((), put p (Some (Lnk target)) t))"

text \<open>\<open>fs::create_dir\<close>, and \<open>fs::remove_dir\<close>, which removes empty directories only.\<close>

definition create_dir :: "path \<Rightarrow> unit M" where
  "create_dir p =
     call intact (\<lambda>t.
       if exists_at t p then Inl AlreadyExists
       else if \<not> is_dir t (parent_of p) then Inl (parent_kind t p)
       else Inr ((), put p (Some (Sub [])) t))"

definition remove_dir :: "path \<Rightarrow> unit M" where
  "remove_dir p =
     call intact (\<lambda>t. case lookup t p of
        None \<Rightarrow> Inl (missing_kind t p)
      | Some (Sub []) \<Rightarrow> Inr ((), put p None t)
      | Some _ \<Rightarrow> Inl OtherIo)"

text \<open>\<open>fs::hard_link\<close> of a regular file: a second name for the same bytes, synced or not. Nothing in
  the program writes through one of two such names.\<close>

definition hard_link :: "path \<Rightarrow> path \<Rightarrow> unit M" where
  "hard_link src dst =
     call intact (\<lambda>t. case lookup t src of
        Some (Reg c b) \<Rightarrow>
          if exists_at t dst then Inl AlreadyExists
          else if \<not> is_dir t (parent_of dst) then Inl (parent_kind t dst)
          else Inr ((), put dst (Some (Reg c b)) t)
      | Some _ \<Rightarrow> Inl OtherIo
      | None \<Rightarrow> Inl (missing_kind t src))"

text \<open>The clock, the process id and the per-process sequence number an id is made of. The
  sequence number is a 64-bit counter that wraps.\<close>

definition fresh_id :: "string \<Rightarrow> string M" where
  "fresh_id pre e s =
     (Ok (new_id pre (clock e (tick s)) (nat (pid (process e))) (seq s)),
      s\<lparr>seq := Suc (seq s) mod 2 ^ 64\<rparr>)"

definition read_clock :: "nat M" where
  "read_clock e s = (Ok (clock e (tick s)), s)"

text \<open>\<open>flock(LOCK_EX | LOCK_NB)\<close> on the pin file of the directory: refused while another process
  holds it shared.\<close>

definition try_lock_pin :: "path \<Rightarrow> bool M" where
  "try_lock_pin d e s =
     (case faults e (tick s) of
        Dies j \<Rightarrow> (Killed, s\<lparr>tick := Suc (tick s)\<rparr>)
      | Fails j \<Rightarrow> (Ok False, s\<lparr>tick := Suc (tick s)\<rparr>)
      | Works \<Rightarrow> (Ok (\<not> pinned_at e (tick s) d), s\<lparr>tick := Suc (tick s)\<rparr>))"

text \<open>\<open>ProcessIdentity::of\<close>: the process running under a process id, if there is one.\<close>

definition process_of :: "int \<Rightarrow> ProcessIdentity option M" where
  "process_of p e s =
     (Ok (if p \<le> 0 then None
          else map_option (\<lambda>t. \<lparr>pid = p, started = t\<rparr>) (started_at e (tick s) p)), s)"

end
