(* ===== verification/Footprint.thy ===== *)
theory Footprint
  imports World
begin

text \<open>
  Reasoning about programs over the file system. \<open>keeps q m\<close> says that \<open>m\<close> leaves whatever is at
  path \<open>q\<close> alone, under every fault; the rules in \<open>keep_rules\<close> derive it for a composed operation
  from the paths its system calls write. \<open>triple\<close> is a Hoare triple with separate
  postconditions for success and for failure or death.
\<close>

subsection \<open>Disjoint paths\<close>

definition apart :: "path \<Rightarrow> path \<Rightarrow> bool" where
  "apart p q \<longleftrightarrow> \<not> prefix p q \<and> \<not> prefix q p"

lemma apart_same_prefix [simp]: "apart (d @ p) (d @ q) = apart p q"
  by (simp add: apart_def)

lemma apart_Cons [simp]: "apart (a # p) (b # q) \<longleftrightarrow> a \<noteq> b \<or> apart p q"
  by (auto simp: apart_def)

lemma apart_Nil [simp]: "\<not> apart [] q" "\<not> apart p []"
  by (auto simp: apart_def)

lemma apart_append1: "apart p q \<Longrightarrow> apart (p @ r) q"
  by (metis apart_def append_prefixD prefix_append prefix_order.trans prefix_same_cases)

lemma apart_append2: "apart p q \<Longrightarrow> apart p (q @ r)"
  by (metis apart_append1 apart_def)

lemma lookup_put_apart: "apart p q \<Longrightarrow> lookup (put p v t) q = lookup t q"
  by (simp add: apart_def lookup_put_parallel)

lemma is_dir_put_apart: "apart p q \<Longrightarrow> is_dir (put p v t) q = is_dir t q"
  by (simp add: is_dir_def lookup_put_apart)

lemma lookup_make_dirs:
  "make_dirs p t = Some t' \<Longrightarrow> \<not> prefix q p \<Longrightarrow> lookup t' q = lookup t q"
proof (induction p t arbitrary: t' q rule: make_dirs.induct)
  case (3 k p es)
  then obtain c where c: "make_dirs p (case map_of es k of None \<Rightarrow> Sub [] | Some c \<Rightarrow> c) = Some c"
    and t': "t' = Sub (AList.update k c es)" by auto
  from "3.prems" obtain k' q' where q: "q = k' # q'" by (cases q) auto
  show ?case
  proof (cases "k' = k")
    case True
    with "3.prems" q have "\<not> prefix q' p" by auto
    with "3.IH" [OF c] have "lookup c q' = lookup (case map_of es k of None \<Rightarrow> Sub [] | Some c \<Rightarrow> c) q'"
      by simp
    with True q t' show ?thesis
      using \<open>\<not> prefix q' p\<close> by (cases q') (auto split: option.splits)
  next
    case False
    with q t' show ?thesis by simp
  qed
qed auto

lemma make_dirs_is_dir: "make_dirs p t = Some t' \<Longrightarrow> is_dir t' p"
  by (induction p t arbitrary: t' rule: make_dirs.induct) (auto simp: is_dir_def)

lemma make_dirs_keeps_dir:
  "make_dirs p t = Some t' \<Longrightarrow> is_dir t q \<Longrightarrow> is_dir t' q"
proof (induction p t arbitrary: t' q rule: make_dirs.induct)
  case (3 k p es)
  then obtain c where c: "make_dirs p (case map_of es k of None \<Rightarrow> Sub [] | Some c \<Rightarrow> c) = Some c"
    and t': "t' = Sub (AList.update k c es)" by auto
  show ?case
  proof (cases q)
    case Nil
    then show ?thesis using t' by (simp add: is_dir_def)
  next
    case (Cons k' q')
    show ?thesis
    proof (cases "k' = k")
      case True
      with Cons "3.prems" obtain c0 where "map_of es k = Some c0" "is_dir c0 q'"
        by (auto simp: is_dir_def split: option.splits)
      with "3.IH" [OF c] have "is_dir c q'" by simp
      with Cons True t' show ?thesis by (simp add: is_dir_def)
    next
      case False
      with Cons "3.prems" t' show ?thesis by (simp add: is_dir_def)
    qed
  qed
qed auto

text \<open>A directory that is there is left as it is.\<close>

lemma make_dirs_existing: "is_dir t p \<Longrightarrow> make_dirs p t = Some t"
proof (induction p t rule: make_dirs.induct)
  case (3 k p es)
  then obtain c where c: "map_of es k = Some c" and d: "is_dir c p"
    by (auto simp: is_dir_def split: option.splits)
  with "3.IH" have "make_dirs p c = Some c" by simp
  with c show ?case by (simp add: update_triv)
qed (auto simp: is_dir_def)

subsection \<open>Operations that leave a path alone\<close>

definition keeps :: "path \<Rightarrow> 'a M \<Rightarrow> bool" where
  "keeps q m \<longleftrightarrow> (\<forall>e s. lookup (fs (snd (m e s))) q = lookup (fs s) q)"

lemma keepsD: "keeps q m \<Longrightarrow> m e s = (r, s') \<Longrightarrow> lookup (fs s') q = lookup (fs s) q"
  by (metis keeps_def snd_conv)

lemma keepsI: "(\<And>e s r s'. m e s = (r, s') \<Longrightarrow> lookup (fs s') q = lookup (fs s) q) \<Longrightarrow> keeps q m"
  unfolding keeps_def by (metis prod.collapse)

lemma keeps_ret [keep_rules]: "keeps q (ret x)"
  by (simp add: keeps_def ret_def)

lemma keeps_raise [keep_rules]: "keeps q (raise x)"
  by (simp add: keeps_def raise_def)

lemma keeps_ask [keep_rules]: "keeps q (ask f)"
  by (simp add: keeps_def ask_def)

lemma keeps_bind [keep_rules]:
  assumes "keeps q m" "\<And>x. keeps q (f x)"
  shows "keeps q (bind m f)"
  using assms by (auto simp: keeps_def bind_def split: prod.splits res.splits) (metis snd_conv)+

lemma keeps_recover_with [keep_rules]:
  assumes "keeps q m" "\<And>x. keeps q (h x)"
  shows "keeps q (recover_with m h)"
  using assms by (auto simp: keeps_def recover_with_def split: prod.splits res.splits) (metis snd_conv)+

lemma keeps_ignore [keep_rules]: "keeps q m \<Longrightarrow> keeps q (ignore m)"
  by (simp add: ignore_def keep_rules)

lemma keeps_lift_res [keep_rules]: "keeps q (lift_res r)"
  by (simp add: lift_res_def keep_rules split: sum.splits)

lemma keeps_when_ok [keep_rules]: "keeps q m \<Longrightarrow> keeps q (when_ok b m)"
  by (simp add: when_ok_def keep_rules)

lemma keeps_if [keep_rules]: "(b \<Longrightarrow> keeps q m) \<Longrightarrow> (\<not> b \<Longrightarrow> keeps q n) \<Longrightarrow> keeps q (if b then m else n)"
  by simp

lemma keeps_case_option [keep_rules]:
  "(x = None \<Longrightarrow> keeps q m) \<Longrightarrow> (\<And>y. x = Some y \<Longrightarrow> keeps q (f y)) \<Longrightarrow>
   keeps q (case x of None \<Rightarrow> m | Some y \<Rightarrow> f y)"
  by (cases x) auto

lemma keeps_each [keep_rules]: "(\<And>x. x \<in> set xs \<Longrightarrow> keeps q (f x)) \<Longrightarrow> keeps q (each f xs)"
  by (induction xs) (auto intro!: keep_rules)

lemma keeps_folding [keep_rules]:
  "(\<And>x acc. x \<in> set xs \<Longrightarrow> keeps q (f acc x)) \<Longrightarrow> keeps q (folding f acc xs)"
  by (induction xs arbitrary: acc) (auto intro!: keep_rules)

lemma keeps_call:
  assumes "\<And>t x t'. f t = Inr (x, t') \<Longrightarrow> lookup t' q = lookup t q"
    and "\<And>j t. lookup (torn j t) q = lookup t q"
  shows "keeps q (call torn f)"
  using assms by (auto simp: keeps_def call_def Let_def split: fault.splits sum.splits)

lemma keeps_observe [keep_rules]: "keeps q (observe f)"
  unfolding observe_def
  by (rule keeps_call) (auto simp: intact_def split: sum.splits)

lemmas observe_defs =
  symlink_metadata_def read_file_def open_file_def file_len_def read_dir_def sync_dir_def

lemma keeps_observers [keep_rules]:
  "keeps q (symlink_metadata p)" "keeps q (read_file p)" "keeps q (read_dir p)" "keeps q (sync_dir p)"
  "keeps q (open_file p)" "keeps q (file_len p)"
  by (simp_all add: observe_defs keeps_observe)

lemma keeps_file_allocated [keep_rules]: "keeps q (file_allocated p)"
proof (rule keepsI)
  fix e s r s'
  assume "file_allocated p e s = (r, s')"
  then have "bind (file_len p) (\<lambda>_. ret (allocated_at e (tick s) p)) e s = (r, s')"
    by (simp add: file_allocated_def)
  moreover have "keeps q (bind (file_len p) (\<lambda>_. ret (allocated_at e (tick s) p)))"
    by (intro keep_rules)
  ultimately show "lookup (fs s') q = lookup (fs s) q"
    by (rule keepsD [rotated])
qed

lemma keeps_test_path [keep_rules]: "keeps q (test_path f p)"
  by (simp add: test_path_def keep_rules)

lemma keeps_fresh_id [keep_rules]: "keeps q (fresh_id pre)"
  by (simp add: keeps_def fresh_id_def)

lemma keeps_read_clock [keep_rules]: "keeps q read_clock"
  by (simp add: keeps_def read_clock_def)

lemma keeps_try_lock_pin [keep_rules]: "keeps q (try_lock_pin d)"
  by (simp add: keeps_def try_lock_pin_def split: fault.splits)

lemma keeps_create_dir_all [keep_rules]: "\<not> prefix q p \<Longrightarrow> keeps q (create_dir_all p)"
  unfolding create_dir_all_def
  by (rule keeps_call) (auto simp: intact_def lookup_make_dirs split: option.splits)

lemma keeps_create_new [keep_rules]: "apart p q \<Longrightarrow> keeps q (create_new p)"
  unfolding create_new_def
  by (rule keeps_call) (auto simp: intact_def lookup_put_apart split: if_splits)

lemma lookup_overwrite: "apart p q \<Longrightarrow> lookup (overwrite p c t) q = lookup t q"
  by (simp add: overwrite_def lookup_put_apart)

lemma lookup_plant: "apart p q \<Longrightarrow> lookup (plant p c t) q = lookup t q"
  by (simp add: plant_def lookup_put_apart)

lemma keeps_write_all [keep_rules]: "apart p q \<Longrightarrow> keeps q (write_all p c)"
  unfolding write_all_def
  by (rule keeps_call) (auto simp: lookup_overwrite split: if_splits)

lemma keeps_write_file [keep_rules]: "apart p q \<Longrightarrow> keeps q (write_file p c)"
  unfolding write_file_def
  by (rule keeps_call) (auto simp: lookup_plant split: if_splits)

lemma keeps_sync_file [keep_rules]: "apart p q \<Longrightarrow> keeps q (sync_file p)"
  unfolding sync_file_def
  by (rule keeps_call)
    (auto simp: intact_def mark_synced_def lookup_put_apart split: if_splits option.splits node.splits)

lemma keeps_rename [keep_rules]: "apart src q \<Longrightarrow> apart dst q \<Longrightarrow> keeps q (rename src dst)"
  unfolding rename_def
  by (rule keeps_call) (auto simp: intact_def lookup_put_apart split: if_splits option.splits)

lemma keeps_remove_file [keep_rules]: "apart p q \<Longrightarrow> keeps q (remove_file p)"
  unfolding remove_file_def
  by (rule keeps_call) (auto simp: intact_def lookup_put_apart split: option.splits node.splits)

lemma keeps_remove_dir_all [keep_rules]: "apart p q \<Longrightarrow> keeps q (remove_dir_all p)"
  unfolding remove_dir_all_def
  by (rule keeps_call) (auto simp: gnaw_def lookup_put_apart split: option.splits node.splits)

lemma keeps_copy_file [keep_rules]: "apart dst q \<Longrightarrow> keeps q (copy_file src dst)"
  unfolding copy_file_def
  by (rule keeps_call) (auto simp: lookup_plant split: option.splits node.splits if_splits)

lemma keeps_make_symlink [keep_rules]: "apart p q \<Longrightarrow> keeps q (make_symlink p l)"
  unfolding make_symlink_def
  by (rule keeps_call) (auto simp: intact_def lookup_put_apart split: if_splits)

lemma keeps_create_dir [keep_rules]: "apart p q \<Longrightarrow> keeps q (create_dir p)"
  unfolding create_dir_def
  by (rule keeps_call) (auto simp: intact_def lookup_put_apart split: if_splits)

lemma keeps_remove_dir [keep_rules]: "apart p q \<Longrightarrow> keeps q (remove_dir p)"
  unfolding remove_dir_def
  by (rule keeps_call) (auto simp: intact_def lookup_put_apart split: option.splits node.splits list.splits)

lemma keeps_hard_link [keep_rules]: "apart dst q \<Longrightarrow> keeps q (hard_link src dst)"
  unfolding hard_link_def
  by (rule keeps_call) (auto simp: intact_def lookup_put_apart split: option.splits node.splits if_splits)

lemma keeps_process_of [keep_rules]: "keeps q (process_of p)"
  by (simp add: keeps_def process_of_def)

subsection \<open>Taking a composed operation apart\<close>

text \<open>Taking a composed operation apart.\<close>

lemma bind_OkE:
  assumes "bind m f e s = (Ok y, s'')"
  obtains x s' where "m e s = (Ok x, s')" "f x e s' = (Ok y, s'')"
  using assms by (auto simp: bind_def split: prod.splits res.splits)

lemma bind_cases:
  assumes "bind m f e s = (r, s'')"
  obtains (step) x s' where "m e s = (Ok x, s')" "f x e s' = (r, s'')"
    | (err) x where "m e s = (Err x, s'')" "r = Err x"
    | (kill) "m e s = (Killed, s'')" "r = Killed"
  using assms by (auto simp: bind_def split: prod.splits res.splits)

lemma call_OkE:
  assumes "call torn f e s = (Ok x, s')"
  obtains t where "f (fs s) = Inr (x, t)" "s' = s\<lparr>tick := Suc (tick s), fs := t\<rparr>"
  using assms by (auto simp: call_def Let_def split: fault.splits sum.splits prod.splits)

lemma observe_OkE:
  assumes "observe f e s = (Ok x, s')"
  obtains "f (fs s) = Inr x" "fs s' = fs s"
  using assms unfolding observe_def by (auto elim!: call_OkE split: sum.splits)

lemma observe_fs: "observe f e s = (r, s') \<Longrightarrow> fs s' = fs s"
  by (auto simp: observe_def call_def Let_def intact_def split: fault.splits sum.splits prod.splits)

subsection \<open>Operations that only read\<close>

lemma keeps_case_node [keep_rules]:
  "(\<And>c b. n = Reg c b \<Longrightarrow> keeps q (f c b)) \<Longrightarrow> (\<And>l. n = Lnk l \<Longrightarrow> keeps q (g l)) \<Longrightarrow>
   (\<And>es. n = Sub es \<Longrightarrow> keeps q (h es)) \<Longrightarrow>
   keeps q (case n of Reg c b \<Rightarrow> f c b | Lnk l \<Rightarrow> g l | Sub es \<Rightarrow> h es)"
  by (cases n) auto

definition readonly :: "'a M \<Rightarrow> bool" where
  "readonly m \<longleftrightarrow> (\<forall>e s. fs (snd (m e s)) = fs s)"

lemma readonlyD: "readonly m \<Longrightarrow> m e s = (r, s') \<Longrightarrow> fs s' = fs s"
  by (metis readonly_def snd_conv)

lemma readonly_keeps: "readonly m \<Longrightarrow> keeps q m"
  by (simp add: readonly_def keeps_def)

lemma readonly_basic [read_rules]:
  "readonly (ret x)" "readonly (raise y)" "readonly (ask f)" "readonly (fresh_id pre)" "readonly read_clock"
  "readonly (try_lock_pin p)" "readonly (process_of i)"
  by (simp_all add: readonly_def ret_def raise_def ask_def fresh_id_def read_clock_def
      try_lock_pin_def process_of_def split: fault.splits)

lemma readonly_bind [read_rules]:
  assumes "readonly m" "\<And>x. readonly (f x)"
  shows "readonly (bind m f)"
  using assms by (auto simp: readonly_def bind_def split: prod.splits res.splits) (metis snd_conv)+

lemma readonly_recover_with [read_rules]:
  assumes "readonly m" "\<And>x. readonly (h x)"
  shows "readonly (recover_with m h)"
  using assms by (auto simp: readonly_def recover_with_def split: prod.splits res.splits) (metis snd_conv)+

lemma readonly_observe [read_rules]: "readonly (observe f)"
  by (auto simp: readonly_def observe_fs [OF prod.collapse [symmetric]])

lemma readonly_observers [read_rules]:
  "readonly (symlink_metadata p)" "readonly (read_file p)" "readonly (read_dir p)" "readonly (sync_dir p)"
  "readonly (open_file p)" "readonly (file_len p)" "readonly (test_path f p)"
  by (simp_all add: observe_defs test_path_def read_rules)

lemma readonly_if [read_rules]:
  "(b \<Longrightarrow> readonly m) \<Longrightarrow> (\<not> b \<Longrightarrow> readonly n) \<Longrightarrow> readonly (if b then m else n)"
  by simp

lemma readonly_case_option [read_rules]:
  "(x = None \<Longrightarrow> readonly m) \<Longrightarrow> (\<And>y. x = Some y \<Longrightarrow> readonly (f y)) \<Longrightarrow>
   readonly (case x of None \<Rightarrow> m | Some y \<Rightarrow> f y)"
  by (cases x) auto

lemma readonly_case_node [read_rules]:
  "(\<And>c b. n = Reg c b \<Longrightarrow> readonly (f c b)) \<Longrightarrow> (\<And>l. n = Lnk l \<Longrightarrow> readonly (g l)) \<Longrightarrow>
   (\<And>es. n = Sub es \<Longrightarrow> readonly (h es)) \<Longrightarrow>
   readonly (case n of Reg c b \<Rightarrow> f c b | Lnk l \<Rightarrow> g l | Sub es \<Rightarrow> h es)"
  by (cases n) auto

lemma readonly_each [read_rules]: "(\<And>x. readonly (f x)) \<Longrightarrow> readonly (each f xs)"
  by (induction xs) (auto intro!: read_rules)

lemma readonly_folding [read_rules]: "(\<And>x acc. readonly (f acc x)) \<Longrightarrow> readonly (folding f acc xs)"
  by (induction xs arbitrary: acc) (auto intro!: read_rules)

lemma readonly_lift_res [read_rules]: "readonly (lift_res r)"
  by (simp add: lift_res_def read_rules split: sum.splits)

subsection \<open>Results\<close>

lemma parent_of_snoc [simp]: "parent_of (p @ [k]) = p"
  by (simp add: parent_of_def)

lemma ret_Ok [simp]: "ret x e s = (Ok y, s') \<longleftrightarrow> x = y \<and> s' = s"
  by (auto simp: ret_def)

lemma raise_Ok [simp]: "raise x e s \<noteq> (Ok y, s')"
  by (simp add: raise_def)

lemma ask_Ok [simp]: "ask f e s = (Ok y, s') \<longleftrightarrow> f e = y \<and> s' = s"
  by (auto simp: ask_def)

lemma recover_with_OkE:
  assumes "recover_with m h e s = (Ok y, s'')"
  obtains "m e s = (Ok y, s'')" | x s' where "m e s = (Err x, s')" "h x e s' = (Ok y, s'')"
  using assms by (auto simp: recover_with_def split: prod.splits res.splits)

lemma read_file_Ok: "read_file p e s = (Ok c, s') \<Longrightarrow> \<exists>b. lookup (fs s) p = Some (Reg c b)"
  unfolding read_file_def by (erule observe_OkE) (auto split: option.splits node.splits)

lemma read_file_Err:
  "read_file p e s = (Err (Io NotFound), s') \<Longrightarrow> lookup (fs s) p = None"
  by (auto simp: read_file_def observe_def call_def Let_def split: fault.splits sum.splits option.splits node.splits)

lemma read_dir_Ok:
  "read_dir p e s = (Ok es, s') \<Longrightarrow>
   \<exists>es'. lookup (fs s) p = Some (Sub es') \<and> map_of es' = map_of es \<and> distinct (map fst es)"
  unfolding read_dir_def
  by (erule observe_OkE) (auto simp: map_of_clearjunk distinct_clearjunk split: option.splits node.splits)

lemma read_dir_Err:
  "read_dir p e s = (Err (Io NotFound), s') \<Longrightarrow> lookup (fs s) p = None"
  by (auto simp: read_dir_def observe_def call_def Let_def split: fault.splits sum.splits option.splits node.splits)

lemma symlink_metadata_Ok: "symlink_metadata p e s = (Ok n, s') \<Longrightarrow> lookup (fs s) p = Some n"
  unfolding symlink_metadata_def by (erule observe_OkE) (auto split: option.splits)

lemma each_OkD:
  assumes "each f xs e s = (Ok u, s')" "\<And>x. readonly (f x)" "x \<in> set xs"
  shows "\<exists>s1 s2. fs s1 = fs s \<and> f x e s1 = (Ok (), s2)"
  using assms(1,3)
proof (induction xs arbitrary: s)
  case (Cons a xs)
  from Cons.prems(1) obtain u' s1 where a: "f a e s = (Ok u', s1)" and r: "each f xs e s1 = (Ok u, s')"
    by (auto elim: bind_OkE)
  have "fs s1 = fs s" using a by (rule readonlyD [OF assms(2)])
  with Cons.IH [OF r] Cons.prems(2) a show ?case by (metis set_ConsD unit.exhaust)
qed simp

lemma lookup_under: "lookup t (p @ q) = Some x \<Longrightarrow> \<exists>n. lookup t p = Some n \<and> lookup n q = Some x"
  by (auto simp: lookup_append bind_eq_Some_conv)

lemma is_dir_put_child: "is_dir t p \<Longrightarrow> is_dir (put (p @ [k]) v t) p"
  by (rule is_dir_put_above) (auto simp: strict_prefix_def)

lemma create_new_Ok:
  assumes "create_new (p @ [k]) e s = (Ok u, s')"
  shows "lookup (fs s') (p @ [k]) = Some (Reg [] False)" "is_dir (fs s') p"
  using assms unfolding create_new_def
  by (auto elim!: call_OkE simp: lookup_put_same is_dir_put_child split: if_splits)

lemma lookup_parent_dir:
  assumes "lookup t (p @ [k]) = Some x"
  shows "is_dir t p"
proof -
  from assms obtain n where "lookup t p = Some n" "lookup n [k] \<noteq> None"
    by (auto dest!: lookup_under)
  then show ?thesis by (cases n) (auto simp: is_dir_def)
qed

lemma is_file_parent: "is_file t (p @ [k]) \<Longrightarrow> is_dir t p"
  by (auto simp: is_file_def intro: lookup_parent_dir)

lemma write_all_Ok:
  assumes "write_all (p @ [k]) c e s = (Ok u, s')"
  shows "lookup (fs s') (p @ [k]) = Some (Reg c False)"
  using assms unfolding write_all_def
  by (auto elim!: call_OkE simp: overwrite_def lookup_put_same is_file_parent split: if_splits)

lemma sync_file_Ok:
  assumes "sync_file (p @ [k]) e s = (Ok u, s')" "lookup (fs s) (p @ [k]) = Some (Reg c b)"
  shows "lookup (fs s') (p @ [k]) = Some (Reg c True)"
  using assms unfolding sync_file_def
  by (auto elim!: call_OkE simp: mark_synced_def lookup_put_same is_file_parent split: if_splits)

lemma call_fail: "call intact f e s = (r, s') \<Longrightarrow> (\<And>x. r \<noteq> Ok x) \<Longrightarrow> fs s' = fs s"
  by (auto simp: call_def Let_def intact_def split: fault.splits sum.splits prod.splits)

lemma rename_fail: "rename p q e s = (r, s') \<Longrightarrow> (\<And>x. r \<noteq> Ok x) \<Longrightarrow> fs s' = fs s"
  unfolding rename_def by (rule call_fail)

lemma rename_Ok:
  assumes "rename src (p @ [k]) e s = (Ok u, s')" "lookup (fs s) src = Some n" "src \<noteq> p @ [k]"
  shows "lookup (fs s') (p @ [k]) = Some n"
    and "fs s' = put (p @ [k]) (Some n) (put src None (fs s))"
proof -
  from assms have *: "fs s' = put (p @ [k]) (Some n) (put src None (fs s))" "is_dir (fs s) p"
    "\<not> prefix src (p @ [k])" "\<not> prefix (p @ [k]) src"
    unfolding rename_def by (auto elim!: call_OkE split: if_splits)
  show "fs s' = put (p @ [k]) (Some n) (put src None (fs s))" by (rule *)
  have "is_dir (put src None (fs s)) p"
  proof (cases "prefix p src")
    case True
    then show ?thesis using * by (intro is_dir_put_above) (auto simp: strict_prefix_def)
  next
    case False
    moreover have "\<not> prefix src p" using *(3) by (auto simp: prefix_prefix)
    ultimately show ?thesis using * by (simp add: is_dir_put_parallel)
  qed
  then show "lookup (fs s') (p @ [k]) = Some n" by (simp add: * lookup_put_same)
qed

subsection \<open>Properties of the tree an operation keeps\<close>

definition stable :: "(node \<Rightarrow> bool) \<Rightarrow> 'a M \<Rightarrow> bool" where
  "stable P m \<longleftrightarrow> (\<forall>e s. P (fs s) \<longrightarrow> P (fs (snd (m e s))))"

lemma stableD: "stable P m \<Longrightarrow> m e s = (r, s') \<Longrightarrow> P (fs s) \<Longrightarrow> P (fs s')"
  by (metis stable_def snd_conv)

lemma stable_readonly: "readonly m \<Longrightarrow> stable P m"
  by (simp add: stable_def readonly_def)

lemma stable_keeps: "keeps q m \<Longrightarrow> stable (\<lambda>t. Q (lookup t q)) m"
  by (simp add: stable_def keeps_def)

lemma stable_bind [stable_rules]:
  "stable P m \<Longrightarrow> (\<And>x. stable P (f x)) \<Longrightarrow> stable P (bind m f)"
  by (auto simp: stable_def bind_def split: prod.splits res.splits) (metis snd_conv)+

lemma stable_recover_with [stable_rules]:
  "stable P m \<Longrightarrow> (\<And>x. stable P (h x)) \<Longrightarrow> stable P (recover_with m h)"
  by (auto simp: stable_def recover_with_def split: prod.splits res.splits) (metis snd_conv)+

lemmas stable_reads [stable_rules] =
  readonly_basic [THEN stable_readonly] readonly_observers [THEN stable_readonly]

lemma stable_folding [stable_rules]:
  "(\<And>acc x. x \<in> set xs \<Longrightarrow> stable P (f acc x)) \<Longrightarrow> stable P (folding f acc xs)"
  by (induction xs arbitrary: acc) (auto intro!: stable_rules)

lemma stable_if [stable_rules]:
  "(b \<Longrightarrow> stable P m) \<Longrightarrow> (\<not> b \<Longrightarrow> stable P n) \<Longrightarrow> stable P (if b then m else n)"
  by simp

lemma stable_rename_away:
  "stable (\<lambda>t. lookup t (p @ [k]) \<in> {v, None}) (rename (p @ [k]) (p @ [l]))"
proof (unfold stable_def, intro allI impI)
  fix e :: env and s :: sys
  assume P: "lookup (fs s) (p @ [k]) \<in> {v, None}"
  obtain r s' where m: "rename (p @ [k]) (p @ [l]) e s = (r, s')" by fastforce
  show "lookup (fs (snd (rename (p @ [k]) (p @ [l]) e s))) (p @ [k]) \<in> {v, None}"
  proof (cases "\<exists>u. r = Ok u")
    case True
    then obtain u where u: "rename (p @ [k]) (p @ [l]) e s = (Ok u, s')" using m by auto
    then obtain n where n: "lookup (fs s) (p @ [k]) = Some n"
      unfolding rename_def by (auto elim!: call_OkE split: option.splits)
    show ?thesis
    proof (cases "k = l")
      case True
      then have "fs s' = fs s" using u unfolding rename_def
        by (auto elim!: call_OkE split: option.splits if_splits)
      with P m show ?thesis by simp
    next
      case False
      then have "fs s' = put (p @ [l]) (Some n) (put (p @ [k]) None (fs s))"
        using rename_Ok(2) [OF u n] by simp
      moreover have "is_dir (fs s) p" using n by (rule lookup_parent_dir)
      ultimately show ?thesis using m False
        by (simp add: lookup_put_apart lookup_put_same)
    qed
  next
    case False
    then have "fs s' = fs s" using m by (auto dest: rename_fail)
    with P m show ?thesis by simp
  qed
qed

subsection \<open>Hoare triples\<close>

definition triple ::
    "(env \<Rightarrow> node \<Rightarrow> bool) \<Rightarrow> 'a M \<Rightarrow> ('a \<Rightarrow> env \<Rightarrow> node \<Rightarrow> bool) \<Rightarrow> (env \<Rightarrow> node \<Rightarrow> bool) \<Rightarrow> bool" where
  "triple P m Q E \<longleftrightarrow>
     (\<forall>e s. P e (fs s) \<longrightarrow>
        (case m e s of
           (Ok x, s') \<Rightarrow> Q x e (fs s')
         | (Err _, s') \<Rightarrow> E e (fs s')
         | (Killed, s') \<Rightarrow> E e (fs s')))"

lemma tripleI:
  assumes "\<And>e s x s'. m e s = (Ok x, s') \<Longrightarrow> P e (fs s) \<Longrightarrow> Q x e (fs s')"
    and "\<And>e s r s'. m e s = (r, s') \<Longrightarrow> P e (fs s) \<Longrightarrow> (\<And>x. r \<noteq> Ok x) \<Longrightarrow> E e (fs s')"
  shows "triple P m Q E"
  using assms unfolding triple_def by (fastforce split: prod.splits res.splits)

lemma triple_okD: "triple P m Q E \<Longrightarrow> P e (fs s) \<Longrightarrow> m e s = (Ok x, s') \<Longrightarrow> Q x e (fs s')"
  by (fastforce simp: triple_def)

lemma triple_failD:
  "triple P m Q E \<Longrightarrow> P e (fs s) \<Longrightarrow> m e s = (r, s') \<Longrightarrow> (\<And>x. r \<noteq> Ok x) \<Longrightarrow> E e (fs s')"
  by (cases r) (fastforce simp: triple_def)+

lemma triple_anyD:
  "triple P m (\<lambda>_. Q) Q \<Longrightarrow> P e (fs s) \<Longrightarrow> m e s = (r, s') \<Longrightarrow> Q e (fs s')"
  by (cases r) (fastforce simp: triple_def)+

lemma triple_weaken:
  assumes "triple P m Q E" "\<And>e t. P' e t \<Longrightarrow> P e t" "\<And>x e t. Q x e t \<Longrightarrow> Q' x e t"
    "\<And>e t. E e t \<Longrightarrow> E' e t"
  shows "triple P' m Q' E'"
  using assms unfolding triple_def by (fastforce split: prod.splits res.splits)

lemma triple_bind [hoare_rules]:
  assumes "triple P m R E" "\<And>x. triple (R x) (f x) Q E"
  shows "triple P (bind m f) Q E"
  using assms unfolding triple_def bind_def
  by (fastforce split: prod.splits res.splits)

lemma triple_ret [hoare_rules]: "(\<And>e t. P e t \<Longrightarrow> Q x e t) \<Longrightarrow> triple P (ret x) Q E"
  by (simp add: triple_def ret_def)

lemma triple_raise [hoare_rules]: "(\<And>e t. P e t \<Longrightarrow> E e t) \<Longrightarrow> triple P (raise x) Q E"
  by (simp add: triple_def raise_def)

lemma triple_if [hoare_rules]:
  "(b \<Longrightarrow> triple P m Q E) \<Longrightarrow> (\<not> b \<Longrightarrow> triple P n Q E) \<Longrightarrow> triple P (if b then m else n) Q E"
  by simp

lemma triple_case_option [hoare_rules]:
  "(x = None \<Longrightarrow> triple P m Q E) \<Longrightarrow> (\<And>y. x = Some y \<Longrightarrow> triple P (f y) Q E) \<Longrightarrow>
   triple P (case x of None \<Rightarrow> m | Some y \<Rightarrow> f y) Q E"
  by (cases x) auto

lemma triple_readonly:
  assumes "readonly m" "\<And>e s x s'. m e s = (Ok x, s') \<Longrightarrow> P e (fs s) \<Longrightarrow> Q x e (fs s)"
    "\<And>e t. P e t \<Longrightarrow> E e t"
  shows "triple P m Q E"
  using assms readonlyD [OF assms(1)] by (intro tripleI) metis+

end
