(* ===== verification/Copy.thy ===== *)
theory Copy
  imports Footprint
begin

text \<open>
  File copies and removals: \<open>src/src/fsutil.rs\<close> and \<open>src/src/sparse_copy.rs\<close> (the macOS clone
  path), and syncing a tree (\<open>sync_tree\<close> of \<open>src/src/store.rs\<close>).
\<close>

subsection \<open>Removing\<close>

definition remove_path_if_exists :: "path \<Rightarrow> unit M" where
  "remove_path_if_exists p =
     bind (recover_with (bind (symlink_metadata p) (\<lambda>n. ret (Some n)))
            (\<lambda>x. if x = Io NotFound then ret None else raise x))
       (\<lambda>n. case n of
          None \<Rightarrow> ret ()
        | Some n \<Rightarrow> (case n of Sub _ \<Rightarrow> remove_dir_all p | _ \<Rightarrow> remove_file p))"

subsection \<open>Sparseness\<close>

definition LARGE_SPARSE_IMAGE_BYTES :: nat where
  "LARGE_SPARSE_IMAGE_BYTES = 8 * 1024 * 1024 * 1024"

definition SPARSENESS_SLACK_BYTES :: nat where
  "SPARSENESS_SLACK_BYTES = 64 * 1024 * 1024"

definition u64_max :: nat where
  "u64_max = 2 ^ 64 - 1"

definition saturating_add :: "nat \<Rightarrow> nat \<Rightarrow> nat" where
  "saturating_add a b = min (a + b) u64_max"

definition kept_sparseness :: "nat \<Rightarrow> nat \<Rightarrow> nat \<Rightarrow> bool" where
  "kept_sparseness len source_allocated copy_allocated \<longleftrightarrow>
     len < LARGE_SPARSE_IMAGE_BYTES \<or>
     copy_allocated \<le> saturating_add source_allocated SPARSENESS_SLACK_BYTES"

subsection \<open>Cloning\<close>

text \<open>Restoring times and permissions touches attributes the tree does not have.\<close>

definition preserve_file_metadata :: "path \<Rightarrow> unit M" where
  "preserve_file_metadata p = open_file p"

definition clone_or_copy_file :: "path \<Rightarrow> path \<Rightarrow> unit M" where
  "clone_or_copy_file src dst =
     bind (create_dir_all (parent_of dst)) (\<lambda>_.
     bind (file_len src) (\<lambda>len.
     bind (file_allocated src) (\<lambda>allocated.
     bind (ignore (remove_file dst)) (\<lambda>_.
     bind (copy_file src dst) (\<lambda>_.
     bind (file_allocated dst) (\<lambda>copied.
     if kept_sparseness len allocated copied then preserve_file_metadata dst
     else bind (remove_file dst) (\<lambda>_. raise (Bail ''clonefile produced dense clone''))))))))"

text \<open>The tree at the source does not change while it is copied, so the recursion follows the
  node read at its root.\<close>

fun clone_node :: "node \<Rightarrow> path \<Rightarrow> path \<Rightarrow> unit M"
and clone_entries :: "(string \<times> node) list \<Rightarrow> path \<Rightarrow> path \<Rightarrow> unit M" where
  "clone_node (Sub es) src dst =
     bind (create_dir_all dst) (\<lambda>_.
     bind (read_dir src) (\<lambda>_. clone_entries es src dst))"
| "clone_node (Lnk l) src dst =
     bind (create_dir_all (parent_of dst)) (\<lambda>_. make_symlink dst l)"
| "clone_node (Reg c b) src dst = clone_or_copy_file src dst"
| "clone_entries [] src dst = ret ()"
| "clone_entries ((k, n) # es) src dst =
     bind (symlink_metadata (src @ [k])) (\<lambda>_.
     bind (clone_node n (src @ [k]) (dst @ [k])) (\<lambda>_. clone_entries es src dst))"

definition clone_or_copy_tree :: "path \<Rightarrow> path \<Rightarrow> unit M" where
  "clone_or_copy_tree src dst =
     bind (symlink_metadata src) (\<lambda>n. clone_node n src dst)"

subsection \<open>Syncing\<close>

fun sync_node :: "node \<Rightarrow> path \<Rightarrow> unit M"
and sync_entries :: "(string \<times> node) list \<Rightarrow> path \<Rightarrow> unit M" where
  "sync_node (Sub es) p =
     bind (read_dir p) (\<lambda>_. bind (sync_entries es p) (\<lambda>_. sync_dir p))"
| "sync_node (Lnk l) p = ret ()"
| "sync_node (Reg c b) p = sync_file p"
| "sync_entries [] p = ret ()"
| "sync_entries ((k, n) # es) p = bind (sync_node n (p @ [k])) (\<lambda>_. sync_entries es p)"

definition sync_tree :: "path \<Rightarrow> unit M" where
  "sync_tree p e s =
     (case lookup (fs s) p of
        Some (Sub es) \<Rightarrow> sync_node (Sub es) p e s
      | _ \<Rightarrow> bind (read_dir p) (\<lambda>_. ret ()) e s)"

subsection \<open>What they leave alone\<close>

lemma keeps_remove_path_if_exists [keep_rules]: "apart p q \<Longrightarrow> keeps q (remove_path_if_exists p)"
  unfolding remove_path_if_exists_def by (intro keep_rules)

lemma not_prefix_parent: "apart p q \<Longrightarrow> \<not> prefix q (parent_of p)"
  by (metis apart_def parent_of_def prefix_order.order_trans prefixeq_butlast)

lemma keeps_clone_or_copy_file [keep_rules]: "apart dst q \<Longrightarrow> keeps q (clone_or_copy_file src dst)"
  unfolding clone_or_copy_file_def preserve_file_metadata_def
  by (intro keep_rules not_prefix_parent)

lemma keeps_clone_node:
  "apart dst q \<Longrightarrow> keeps q (clone_node n src dst)"
  "apart dst q \<Longrightarrow> keeps q (clone_entries es src dst)"
proof (induction n src dst and es src dst rule: clone_node_clone_entries.induct)
  case (1 es src dst)
  then show ?case by (auto intro!: keep_rules simp: apart_def)
next
  case (2 l src dst)
  then show ?case by (auto intro!: keep_rules not_prefix_parent)
next
  case (5 k n es src dst)
  then show ?case by (auto intro!: keep_rules simp: apart_append1)
qed (auto intro!: keep_rules)

lemma keeps_clone_or_copy_tree [keep_rules]: "apart dst q \<Longrightarrow> keeps q (clone_or_copy_tree src dst)"
  unfolding clone_or_copy_tree_def by (intro keep_rules keeps_clone_node)

lemma keeps_sync_node:
  "apart p q \<Longrightarrow> keeps q (sync_node n p)"
  "apart p q \<Longrightarrow> keeps q (sync_entries es p)"
  by (induction n p and es p rule: sync_node_sync_entries.induct)
    (auto intro!: keep_rules simp: apart_append1)

lemma keeps_sync_tree [keep_rules]:
  assumes "apart p q"
  shows "keeps q (sync_tree p)"
proof (rule keepsI)
  fix e s r s'
  assume m: "sync_tree p e s = (r, s')"
  have r: "keeps q (bind (read_dir p) (\<lambda>_. ret ()))" by (intro keep_rules)
  show "lookup (fs s') q = lookup (fs s) q"
  proof (cases "\<exists>es. lookup (fs s) p = Some (Sub es)")
    case True
    then obtain es where "sync_node (Sub es) p e s = (r, s')"
      using m by (auto simp: sync_tree_def)
    then show ?thesis by (rule keepsD [OF keeps_sync_node(1) [OF assms]])
  next
    case False
    then have "bind (read_dir p) (\<lambda>_. ret ()) e s = (r, s')"
      using m by (auto simp: sync_tree_def split: option.splits node.splits)
    then show ?thesis by (rule keepsD [OF r])
  qed
qed

end
