(* ===== verification/Store.thy ===== *)
theory Store
  imports Copy "HOL-Library.Product_Lexorder"
begin

text \<open>
  The instance store, \<open>src/src/store.rs\<close>: immutable generations, run directories, checkpoint
  references and one record \<open>state.json\<close>. Every operation takes the instance directory \<open>d\<close> and is
  a program over the file system with the system calls of the source, in its order. The
  \<open>&InstanceLock\<close> argument that the operations of the source demand is modelled with the locks.
\<close>

abbreviation STATE_FILE :: string where "STATE_FILE \<equiv> ''state.json''"
abbreviation GENERATIONS_DIR :: string where "GENERATIONS_DIR \<equiv> ''generations''"
abbreviation RUNS_DIR :: string where "RUNS_DIR \<equiv> ''runs''"
abbreviation CHECKPOINTS_DIR :: string where "CHECKPOINTS_DIR \<equiv> ''checkpoints''"
abbreviation MANIFEST :: string where "MANIFEST \<equiv> ''manifest.json''"
abbreviation PIN :: string where "PIN \<equiv> ''.pin''"
abbreviation ROOTFS :: string where "ROOTFS \<equiv> ''rootfs.ext4''"
abbreviation VMSTATE :: string where "VMSTATE \<equiv> ''vmstate.bin''"
abbreviation PAGES :: string where "PAGES \<equiv> ''pages.img''"
abbreviation HOST_SHARE_STATE :: string where "HOST_SHARE_STATE \<equiv> ''host-share-state''"
abbreviation (input) RECORD_VERSION :: nat where "RECORD_VERSION \<equiv> 1"
abbreviation (input) MANIFEST_VERSION :: nat where "MANIFEST_VERSION \<equiv> 1"

definition STAGING_PREFIX :: string where "STAGING_PREFIX = ''.staging-''"
definition TRASH_PREFIX :: string where "TRASH_PREFIX = ''.trash-''"

subsection \<open>Files\<close>

definition unique_temp_sibling :: "path \<Rightarrow> string \<Rightarrow> path" where
  "unique_temp_sibling p i = butlast p @ [last p @ ''.tmp-'' @ i]"

definition commit_file :: "path \<Rightarrow> string \<Rightarrow> unit M" where
  "commit_file p contents =
     bind (fresh_id []) (\<lambda>i.
     let temp = unique_temp_sibling p i in
     recover_with
       (bind (create_new temp) (\<lambda>_.
        bind (write_all temp contents) (\<lambda>_.
        bind (sync_file temp) (\<lambda>_.
        bind (rename temp p) (\<lambda>_.
        sync_dir (parent_of p))))))
       (\<lambda>x. bind (ignore (remove_file temp)) (\<lambda>_. raise x)))"

definition commit_json :: "(codec \<Rightarrow> 'a \<Rightarrow> string) \<Rightarrow> path \<Rightarrow> 'a \<Rightarrow> unit M" where
  "commit_json enc p v = bind (ask codec) (\<lambda>C. commit_file p (enc C v @ [CHR 0x0A]))"

definition read_json :: "(codec \<Rightarrow> string \<Rightarrow> 'a option) \<Rightarrow> path \<Rightarrow> 'a option M" where
  "read_json parse p =
     bind (recover_with (bind (read_file p) (\<lambda>c. ret (Some c)))
            (\<lambda>x. if x = Io NotFound then ret None else raise x))
       (\<lambda>c. case c of
          None \<Rightarrow> ret None
        | Some c \<Rightarrow> bind (ask codec) (\<lambda>C.
            case parse C c of None \<Rightarrow> raise Parse | Some v \<Rightarrow> ret (Some v)))"

subsection \<open>Values\<close>

record Generation =
  g_dir :: path
  g_manifest :: Manifest

record Staging =
  st_id :: gen_id
  st_dir :: path

record Run =
  r_id :: run_id
  r_dir :: path
  r_base :: "Generation option"

datatype Recovery =
    Clean
  | RolledForward gen_id
  | DiscardedIdleRun run_id

record Collected =
  c_generations :: "gen_id list"
  c_runs :: "string list"
  c_staging :: "string list"

definition has_memory :: "Manifest \<Rightarrow> bool" where
  "has_memory m \<longleftrightarrow> bt_contains_key (m_files m) VMSTATE \<and> bt_contains_key (m_files m) PAGES"

abbreviation rootfs :: "Generation \<Rightarrow> path" where
  "rootfs g \<equiv> g_dir g @ [ROOTFS]"

definition restores_memory :: "Run \<Rightarrow> bool" where
  "restores_memory r = (case r_base r of None \<Rightarrow> False | Some g \<Rightarrow> has_memory (g_manifest g))"

subsection \<open>Paths\<close>

abbreviation state_path :: "path \<Rightarrow> path" where "state_path d \<equiv> d @ [STATE_FILE]"
abbreviation generations_dir :: "path \<Rightarrow> path" where "generations_dir d \<equiv> d @ [GENERATIONS_DIR]"
abbreviation runs_dir :: "path \<Rightarrow> path" where "runs_dir d \<equiv> d @ [RUNS_DIR]"
abbreviation checkpoints_dir :: "path \<Rightarrow> path" where "checkpoints_dir d \<equiv> d @ [CHECKPOINTS_DIR]"

abbreviation generation_dir :: "path \<Rightarrow> gen_id \<Rightarrow> path" where
  "generation_dir d g \<equiv> d @ [GENERATIONS_DIR, g]"

abbreviation run_dir :: "path \<Rightarrow> run_id \<Rightarrow> path" where
  "run_dir d r \<equiv> d @ [RUNS_DIR, r]"

definition instance_name :: "path \<Rightarrow> string" where
  "instance_name d = (if d = [] then [] else last d)"

subsection \<open>The record\<close>

definition store_exists :: "path \<Rightarrow> bool M" where
  "store_exists d = test_path exists_at (state_path d)"

definition store_record :: "path \<Rightarrow> Record option M" where
  "store_record d =
     bind (read_json parse_record (state_path d)) (\<lambda>r.
     case r of
       None \<Rightarrow> ret None
     | Some r \<Rightarrow>
         if version r \<noteq> RECORD_VERSION then raise (Bail ''unsupported instance state version'')
         else ret (Some r))"

definition require_record :: "path \<Rightarrow> Record M" where
  "require_record d =
     bind (store_record d) (\<lambda>r.
     case r of None \<Rightarrow> raise (Bail ''instance has no committed state'') | Some r \<Rightarrow> ret r)"

definition commit_record :: "path \<Rightarrow> gen_id option \<Rightarrow> Phase \<Rightarrow> unit M" where
  "commit_record d l ph =
     commit_json enc_record (state_path d) \<lparr>version = RECORD_VERSION, latest = l, phase = ph\<rparr>"

definition crashed_run :: "path \<Rightarrow> run_id option M" where
  "crashed_run d =
     bind (store_record d) (\<lambda>r.
     ret (case r of
            Some r \<Rightarrow> (case phase r of Dirty run _ \<Rightarrow> Some run | _ \<Rightarrow> None)
          | None \<Rightarrow> None))"

definition crashed :: "path \<Rightarrow> err option M" where
  "crashed d =
     bind (crashed_run d) (\<lambda>r. ret (map_option (CrashedWithUnsavedState (instance_name d)) r))"

subsection \<open>Generations\<close>

definition check_file :: "path \<Rightarrow> string \<times> nat \<Rightarrow> unit M" where
  "check_file dir ns =
     bind (symlink_metadata (dir @ [fst ns])) (\<lambda>n.
     case n of
       Reg c _ \<Rightarrow> if length c \<noteq> snd ns then raise (Bail ''wrong size'') else ret ()
     | _ \<Rightarrow> raise (Bail ''wrong size''))"

definition generation :: "path \<Rightarrow> gen_id \<Rightarrow> Generation M" where
  "generation d g =
     (let dir = generation_dir d g in
      bind (read_json parse_manifest (dir @ [MANIFEST])) (\<lambda>m.
      case m of
        None \<Rightarrow> raise (Bail ''generation has no manifest'')
      | Some m \<Rightarrow>
          if m_id m \<noteq> g then raise (Bail ''generation has the manifest of another generation'')
          else
            bind (each (check_file dir) (m_files m)) (\<lambda>_.
            if \<not> bt_contains_key (m_files m) ROOTFS then raise (Bail ''generation has no rootfs'')
            else ret \<lparr>g_dir = dir, g_manifest = m\<rparr>)))"

definition store_latest :: "path \<Rightarrow> Generation option M" where
  "store_latest d =
     bind (store_record d) (\<lambda>r.
     case Option.bind r latest of
       Some g \<Rightarrow> bind (generation d g) (\<lambda>x. ret (Some x))
     | None \<Rightarrow> ret None)"

definition read_dir_or_empty :: "path \<Rightarrow> dir M" where
  "read_dir_or_empty p =
     recover_with (read_dir p) (\<lambda>x. if x = Io NotFound then ret [] else raise x)"

definition generation_ids :: "path \<Rightarrow> gen_id list M" where
  "generation_ids d =
     bind (read_dir_or_empty (generations_dir d)) (\<lambda>es.
     ret (sort (filter valid_component (map fst es))))"

definition is_final_of :: "run_id \<Rightarrow> Generation \<Rightarrow> bool" where
  "is_final_of r g \<longleftrightarrow> m_origin (g_manifest g) = Snapshot r"

definition attempt :: "'a M \<Rightarrow> 'a option M" where
  "attempt m = recover_with (bind m (\<lambda>x. ret (Some x))) (\<lambda>_. ret None)"

definition final_generation_of :: "path \<Rightarrow> run_id \<Rightarrow> gen_id option M" where
  "final_generation_of d r =
     bind (generation_ids d) (\<lambda>ids.
     folding (\<lambda>found g.
       bind (attempt (generation d g)) (\<lambda>x.
       ret (case x of
              None \<Rightarrow> found
            | Some x \<Rightarrow> if is_final_of r x then Some g else found)))
       None ids)"

definition stage :: "path \<Rightarrow> Staging M" where
  "stage d =
     bind (fresh_id ''g'') (\<lambda>i.
     let dir = d @ [GENERATIONS_DIR, STAGING_PREFIX @ i] in
     bind (create_dir_all dir) (\<lambda>_. ret \<lparr>st_id = i, st_dir = dir\<rparr>))"

fun staged_files :: "(string \<times> nat) list \<Rightarrow> dir \<Rightarrow> (string \<times> nat) list" where
  "staged_files files [] = files"
| "staged_files files ((k, n) # es) =
     staged_files
       (case n of
          Reg c _ \<Rightarrow> if k \<noteq> MANIFEST \<and> k \<noteq> PIN then bt_insert k (length c) files else files
        | _ \<Rightarrow> files) es"

definition publish :: "path \<Rightarrow> Staging \<Rightarrow> gen_id option \<Rightarrow> Origin \<Rightarrow> gen_id M" where
  "publish d st par orig =
     bind (read_dir (st_dir st)) (\<lambda>es.
     let files = staged_files [] es in
     if \<not> bt_contains_key files ROOTFS then raise (Bail ''staged generation has no rootfs'')
     else
       bind read_clock (\<lambda>now.
       bind (ask codec) (\<lambda>C.
       bind (write_file (st_dir st @ [MANIFEST])
              (enc_manifest C \<lparr>m_version = MANIFEST_VERSION, m_id = st_id st, m_parent = par,
                 m_origin = orig, m_created_unix_nanos = now mod 2 ^ 64, m_files = files\<rparr>
               @ [CHR 0x0A])) (\<lambda>_.
       bind (write_file (st_dir st @ [PIN]) []) (\<lambda>_.
       bind (sync_tree (st_dir st)) (\<lambda>_.
       bind (rename (st_dir st) (generation_dir d (st_id st))) (\<lambda>_.
       bind (sync_dir (generations_dir d)) (\<lambda>_.
       ret (st_id st)))))))))"

subsection \<open>Checkpoint references\<close>

definition checkpoint_ref_path :: "path \<Rightarrow> string \<Rightarrow> path M" where
  "checkpoint_ref_path d i =
     bind (lift_res (validate_component ''checkpoint'' i)) (\<lambda>_.
     ret (d @ [CHECKPOINTS_DIR, i @ ''.ref'']))"

text \<open>\<open>Path::extension\<close> is \<open>ref\<close>: the name ends in \<open>.ref\<close> and is more than that.\<close>

definition is_ref_name :: "string \<Rightarrow> bool" where
  "is_ref_name k \<longleftrightarrow> 4 < length k \<and> drop (length k - 4) k = ''.ref''"

definition add_checkpoint :: "path \<Rightarrow> CheckpointRef \<Rightarrow> unit M" where
  "add_checkpoint d c =
     bind (generation d (ref_generation c)) (\<lambda>_.
     bind (create_dir_all (checkpoints_dir d)) (\<lambda>_.
     bind (checkpoint_ref_path d (ref_id c)) (\<lambda>p.
     commit_json enc_ref p c)))"

definition checkpoints :: "path \<Rightarrow> CheckpointRef list M" where
  "checkpoints d =
     bind (read_dir_or_empty (checkpoints_dir d)) (\<lambda>es.
     bind (folding (\<lambda>found k.
         if \<not> is_ref_name k then ret found
         else
           bind (read_json parse_ref (d @ [CHECKPOINTS_DIR, k])) (\<lambda>c.
           case c of
             None \<Rightarrow> ret found
           | Some c \<Rightarrow>
               bind (test_path is_dir (generation_dir d (ref_generation c))) (\<lambda>there.
               ret (if there then found @ [c] else found))))
       [] (map fst es)) (\<lambda>cs.
     ret (sort_key (\<lambda>c. (ref_created_unix c, ref_id c)) cs)))"

subsection \<open>Garbage collection\<close>

text \<open>\<open>if let Ok(entries) = fs::read_dir(..)\<close>: a directory that cannot be read is skipped.\<close>

definition names_or_none :: "path \<Rightarrow> string list M" where
  "names_or_none p =
     recover_with (bind (read_dir p) (\<lambda>es. ret (map fst es))) (\<lambda>_. ret [])"

definition collect_run :: "path \<Rightarrow> run_id option \<Rightarrow> Collected \<Rightarrow> string \<Rightarrow> Collected M" where
  "collect_run d live acc k =
     (if live = Some k then ret acc
      else
        bind (remove_path_if_exists (run_dir d k)) (\<lambda>_.
        ret (acc\<lparr>c_runs := c_runs acc @ [k]\<rparr>)))"

definition collect_generation :: "path \<Rightarrow> gen_id list \<Rightarrow> Collected \<Rightarrow> string \<Rightarrow> Collected M" where
  "collect_generation d referenced acc k =
     (if starts_with k STAGING_PREFIX \<or> starts_with k TRASH_PREFIX then
        bind (remove_path_if_exists (generation_dir d k)) (\<lambda>_.
        ret (acc\<lparr>c_staging := c_staging acc @ [k]\<rparr>))
      else if \<not> valid_component k then ret acc
      else if k \<in> set referenced then ret acc
      else
        bind (recover_with (bind (open_file (generation_dir d k @ [PIN])) (\<lambda>_. ret True))
               (\<lambda>x. if x = Io NotFound then ret False else raise x)) (\<lambda>pin.
        bind (if pin then try_lock_pin (generation_dir d k) else ret True) (\<lambda>locked.
        if \<not> locked then ret acc
        else
          bind (rename (generation_dir d k) (generation_dir d (TRASH_PREFIX @ k))) (\<lambda>_.
          bind (remove_path_if_exists (generation_dir d (TRASH_PREFIX @ k))) (\<lambda>_.
          ret (acc\<lparr>c_generations := c_generations acc @ [k]\<rparr>))))))"

definition referenced_generations :: "Record \<Rightarrow> CheckpointRef list \<Rightarrow> gen_id list" where
  "referenced_generations r cs =
     (case latest r of None \<Rightarrow> [] | Some g \<Rightarrow> [g]) @ map ref_generation cs"

definition collect_garbage :: "path \<Rightarrow> Collected M" where
  "collect_garbage d =
     bind (require_record d) (\<lambda>r.
     bind (checkpoints d) (\<lambda>cs.
     bind (names_or_none (runs_dir d)) (\<lambda>rs.
     bind (folding (collect_run d (phase_run (phase r)))
            \<lparr>c_generations = [], c_runs = [], c_staging = []\<rparr> rs) (\<lambda>acc.
     bind (names_or_none (generations_dir d)) (\<lambda>gs.
     folding (collect_generation d (referenced_generations r cs)) acc gs)))))"

definition remove_checkpoint :: "path \<Rightarrow> string \<Rightarrow> unit M" where
  "remove_checkpoint d i =
     bind (checkpoint_ref_path d i) (\<lambda>p.
     bind (remove_file p) (\<lambda>_.
     bind (sync_dir (checkpoints_dir d)) (\<lambda>_.
     bind (collect_garbage d) (\<lambda>_. ret ()))))"

text \<open>Taking the shared lock blocks until it is granted; which directories are pinned by others is
  part of the environment.\<close>

definition pin :: "path \<Rightarrow> gen_id \<Rightarrow> Generation M" where
  "pin d g =
     bind (open_file (generation_dir d g @ [PIN])) (\<lambda>_.
     bind (observe (\<lambda>_. Inr ())) (\<lambda>_.
     generation d g))"

subsection \<open>Committing and recovering\<close>

definition initialize :: "path \<Rightarrow> Staging \<Rightarrow> gen_id M" where
  "initialize d st =
     bind (store_exists d) (\<lambda>x.
     if x then raise (Bail ''instance state already exists'')
     else
       bind (publish d st None Image) (\<lambda>g.
       bind (commit_record d (Some g) Stopped) (\<lambda>_. ret g)))"

definition commit_latest :: "path \<Rightarrow> gen_id \<Rightarrow> unit M" where
  "commit_latest d g =
     bind (generation d g) (\<lambda>_.
     bind (commit_record d (Some g) Stopped) (\<lambda>_.
     bind (collect_garbage d) (\<lambda>_. ret ())))"

definition recover_run :: "path \<Rightarrow> Record \<Rightarrow> run_id \<Rightarrow> Recovery M" where
  "recover_run d r run =
     bind (final_generation_of d run) (\<lambda>found.
     case found of
       Some g \<Rightarrow> bind (commit_record d (Some g) Stopped) (\<lambda>_. ret (RolledForward g))
     | None \<Rightarrow>
         (case phase r of
            Running _ _ \<Rightarrow>
              bind (commit_record d (latest r) Stopped) (\<lambda>_. ret (DiscardedIdleRun run))
          | _ \<Rightarrow> raise (CrashedWithUnsavedState (instance_name d) run)))"

definition recover :: "path \<Rightarrow> Recovery M" where
  "recover d =
     bind (require_record d) (\<lambda>r.
     bind (case phase_run (phase r) of None \<Rightarrow> ret Clean | Some run \<Rightarrow> recover_run d r run) (\<lambda>x.
     bind (collect_garbage d) (\<lambda>_. ret x)))"

subsection \<open>Runs\<close>

definition clone_shares :: "path \<Rightarrow> path \<Rightarrow> unit M" where
  "clone_shares src dst =
     bind (test_path exists_at (src @ [HOST_SHARE_STATE])) (\<lambda>there.
     when_ok there (clone_or_copy_tree (src @ [HOST_SHARE_STATE]) (dst @ [HOST_SHARE_STATE])))"

definition clone_files :: "path \<Rightarrow> path \<Rightarrow> string list \<Rightarrow> unit M" where
  "clone_files src dst = each (\<lambda>k. clone_or_copy_file (src @ [k]) (dst @ [k]))"

definition clone_base :: "Generation \<Rightarrow> path \<Rightarrow> unit M" where
  "clone_base g dst =
     bind (clone_files (g_dir g) dst (map fst (m_files (g_manifest g)))) (\<lambda>_.
     clone_shares (g_dir g) dst)"

definition begin_run :: "path \<Rightarrow> gen_id option \<Rightarrow> Run M" where
  "begin_run d from_gen =
     bind (require_record d) (\<lambda>r.
     if phase r \<noteq> Stopped then raise (Bail ''instance is not stopped'')
     else
       bind (case (case from_gen of Some g \<Rightarrow> Some g | None \<Rightarrow> latest r) of
               Some g \<Rightarrow> bind (generation d g) (\<lambda>x. ret (Some x))
             | None \<Rightarrow> ret None) (\<lambda>base.
       bind (fresh_id ''r'') (\<lambda>i.
       bind (create_dir_all (run_dir d i)) (\<lambda>_.
       bind (case base of None \<Rightarrow> ret () | Some g \<Rightarrow> clone_base g (run_dir d i)) (\<lambda>_.
       bind (sync_tree (run_dir d i)) (\<lambda>_.
       bind (sync_dir (runs_dir d)) (\<lambda>_.
       bind (ask process) (\<lambda>me.
       bind (commit_record d (latest r) (Running i me)) (\<lambda>_.
       ret \<lparr>r_id = i, r_dir = run_dir d i, r_base = base\<rparr>)))))))))"

definition advance_latest :: "path \<Rightarrow> run_id \<Rightarrow> gen_id \<Rightarrow> unit M" where
  "advance_latest d run g =
     bind (generation d g) (\<lambda>_.
     bind (require_record d) (\<lambda>r.
     if phase_run (phase r) = Some run then commit_record d (Some g) (phase r)
     else raise (Bail ''cannot advance run'')))"

definition mark_dirty :: "path \<Rightarrow> run_id \<Rightarrow> unit M" where
  "mark_dirty d run =
     bind (require_record d) (\<lambda>r.
     case phase r of
       Running current owner \<Rightarrow>
         if current = run then commit_record d (latest r) (Dirty run owner)
         else raise (Bail ''cannot mark run dirty'')
     | Dirty current _ \<Rightarrow> if current = run then ret () else raise (Bail ''cannot mark run dirty'')
     | Stopped \<Rightarrow> raise (Bail ''cannot mark run dirty''))"

definition abandon_run :: "path \<Rightarrow> run_id \<Rightarrow> unit M" where
  "abandon_run d run =
     bind (require_record d) (\<lambda>r.
     bind (case phase r of
             Running current _ \<Rightarrow>
               if current = run then ret () else raise (Bail ''cannot abandon run'')
           | _ \<Rightarrow> raise (Bail ''cannot abandon run'')) (\<lambda>_.
     bind (commit_record d (latest r) Stopped) (\<lambda>_.
     bind (collect_garbage d) (\<lambda>_. ret ()))))"

subsection \<open>Copies of generations\<close>

definition import_entry :: "path \<Rightarrow> path \<Rightarrow> string \<times> node \<Rightarrow> unit M" where
  "import_entry src dst kn =
     (let k = fst kn in
      case snd kn of
        Reg _ _ \<Rightarrow>
          when_ok (k \<noteq> MANIFEST \<and> k \<noteq> PIN) (clone_or_copy_file (src @ [k]) (dst @ [k]))
      | Sub _ \<Rightarrow> when_ok (k = HOST_SHARE_STATE) (clone_or_copy_tree (src @ [k]) (dst @ [k]))
      | Lnk _ \<Rightarrow> ret ())"

definition import_dir :: "path \<Rightarrow> path \<Rightarrow> gen_id option \<Rightarrow> Origin \<Rightarrow> gen_id M" where
  "import_dir d src par orig =
     bind (stage d) (\<lambda>st.
     bind (read_dir src) (\<lambda>es.
     bind (each (import_entry src (st_dir st)) es) (\<lambda>_.
     publish d st par orig)))"

definition export_store :: "Generation \<Rightarrow> path \<Rightarrow> unit M" where
  "export_store g dest =
     (let dst = generation_dir dest (m_id (g_manifest g)) in
      bind (create_dir_all dst) (\<lambda>_.
      bind (clone_files (g_dir g) dst (map fst (m_files (g_manifest g)) @ [MANIFEST, PIN])) (\<lambda>_.
      bind (clone_shares (g_dir g) dst) (\<lambda>_.
      bind (sync_tree dst) (\<lambda>_.
      bind (sync_dir (generations_dir dest)) (\<lambda>_.
      commit_record dest (Some (m_id (g_manifest g))) Stopped))))))"

definition salvage :: "path \<Rightarrow> gen_id M" where
  "salvage d =
     bind (require_record d) (\<lambda>r.
     case phase r of
       Dirty run _ \<Rightarrow>
         bind (stage d) (\<lambda>st.
         bind (clone_or_copy_file (run_dir d run @ [ROOTFS]) (st_dir st @ [ROOTFS])) (\<lambda>_.
         bind (clone_shares (run_dir d run) (st_dir st)) (\<lambda>_.
         bind (publish d st (latest r) (Salvage run)) (\<lambda>g.
         bind (commit_latest d g) (\<lambda>_. ret g)))))
     | _ \<Rightarrow> raise (Bail ''there is no crashed run to salvage''))"

definition discard_run :: "path \<Rightarrow> run_id M" where
  "discard_run d =
     bind (require_record d) (\<lambda>r.
     case phase r of
       Dirty run _ \<Rightarrow>
         bind (commit_record d (latest r) Stopped) (\<lambda>_.
         bind (collect_garbage d) (\<lambda>_. ret run))
     | _ \<Rightarrow> raise (Bail ''there is no crashed run to discard''))"

definition derive :: "path \<Rightarrow> (path \<Rightarrow> unit M) \<Rightarrow> gen_id M" where
  "derive d edit =
     bind (require_record d) (\<lambda>r.
     if phase r \<noteq> Stopped then raise (Bail ''the instance must be stopped to edit its saved state'')
     else (case latest r of
       None \<Rightarrow> raise (Bail ''instance has no saved state to edit'')
     | Some l \<Rightarrow>
         bind (generation d l) (\<lambda>base.
         bind (stage d) (\<lambda>st.
         bind (clone_base base (st_dir st)) (\<lambda>_.
         bind (edit (st_dir st)) (\<lambda>_.
         bind (publish d st (Some l) Edited) (\<lambda>g.
         bind (commit_latest d g) (\<lambda>_. ret g))))))))"

definition current_host_share_state :: "path \<Rightarrow> path option M" where
  "current_host_share_state d =
     bind (store_record d) (\<lambda>r.
     ret (case r of
            None \<Rightarrow> None
          | Some r \<Rightarrow>
              (case (phase_run (phase r), latest r) of
                 (Some run, _) \<Rightarrow> Some (run_dir d run @ [HOST_SHARE_STATE])
               | (None, Some l) \<Rightarrow> Some (generation_dir d l @ [HOST_SHARE_STATE])
               | (None, None) \<Rightarrow> None)))"

definition drop_memory :: "path \<Rightarrow> gen_id option M" where
  "drop_memory d =
     bind (require_record d) (\<lambda>r.
     if phase r \<noteq> Stopped
     then raise (Bail ''the instance must be stopped to drop its memory snapshot'')
     else (case latest r of
       None \<Rightarrow> ret None
     | Some l \<Rightarrow>
         bind (generation d l) (\<lambda>base.
         if \<not> has_memory (g_manifest base) then ret None
         else
           bind (stage d) (\<lambda>st.
           bind (clone_or_copy_file (rootfs base) (st_dir st @ [ROOTFS])) (\<lambda>_.
           bind (clone_shares (g_dir base) (st_dir st)) (\<lambda>_.
           bind (publish d st (Some l) DropMemory) (\<lambda>g.
           bind (commit_latest d g) (\<lambda>_. ret (Some g)))))))))"

end
