(* ===== verification/StoreView.thy ===== *)
theory StoreView
  imports StoreFacts
begin

text \<open>
  The store as a function of the tree: the record on disk, which generations are complete, and
  what the reading operations return in terms of it; and the atomic commit of a file.
\<close>

subsection \<open>What is on disk\<close>

definition disk_record :: "codec \<Rightarrow> path \<Rightarrow> node \<Rightarrow> Record option" where
  "disk_record C d t =
     (case lookup t (state_path d) of
        Some (Reg c _) \<Rightarrow>
          (case parse_record C c of
             Some r \<Rightarrow> if version r = RECORD_VERSION then Some r else None
           | None \<Rightarrow> None)
      | _ \<Rightarrow> None)"

definition file_ok :: "node \<Rightarrow> string \<times> nat \<Rightarrow> bool" where
  "file_ok n ks = (case lookup n [fst ks] of Some (Reg c _) \<Rightarrow> length c = snd ks | _ \<Rightarrow> False)"

definition manifest_ok :: "gen_id \<Rightarrow> node \<Rightarrow> Manifest \<Rightarrow> bool" where
  "manifest_ok g n m \<longleftrightarrow>
     m_id m = g \<and> list_all (file_ok n) (m_files m) \<and> bt_contains_key (m_files m) ROOTFS"

definition gen_manifest :: "codec \<Rightarrow> gen_id \<Rightarrow> node \<Rightarrow> Manifest option" where
  "gen_manifest C g n =
     (case lookup n [MANIFEST] of
        Some (Reg c _) \<Rightarrow>
          (case parse_manifest C c of
             Some m \<Rightarrow> if manifest_ok g n m then Some m else None
           | None \<Rightarrow> None)
      | _ \<Rightarrow> None)"

definition complete_gen :: "codec \<Rightarrow> path \<Rightarrow> node \<Rightarrow> gen_id \<Rightarrow> Manifest option" where
  "complete_gen C d t g = Option.bind (lookup t (generation_dir d g)) (gen_manifest C g)"

lemma disk_record_cong:
  "lookup t' (state_path d) = lookup t (state_path d) \<Longrightarrow> disk_record C d t' = disk_record C d t"
  by (simp add: disk_record_def)

lemma complete_gen_cong:
  "lookup t' (generation_dir d g) = lookup t (generation_dir d g) \<Longrightarrow>
   complete_gen C d t' g = complete_gen C d t g"
  by (simp add: complete_gen_def)

lemma disk_record_ids: "disk_record C d t = Some r \<Longrightarrow> record_ids_ok r"
  by (auto simp: disk_record_def parse_record_def split: option.splits node.splits if_splits)

lemma disk_record_version: "disk_record C d t = Some r \<Longrightarrow> version r = RECORD_VERSION"
  by (auto simp: disk_record_def split: option.splits node.splits if_splits)

lemma disk_latest_valid: "disk_record C d t = Some r \<Longrightarrow> latest r = Some g \<Longrightarrow> valid_component g"
  by (auto dest!: disk_record_ids simp: record_ids_ok_def)

lemma disk_run_valid: "disk_record C d t = Some r \<Longrightarrow> phase_run (phase r) = Some x \<Longrightarrow> valid_component x"
  by (auto dest!: disk_record_ids simp: record_ids_ok_def phase_ids_ok_def)

lemma gen_manifest_iff:
  "gen_manifest C g n = Some m \<longleftrightarrow>
     (\<exists>c b. lookup n [MANIFEST] = Some (Reg c b) \<and> parse_manifest C c = Some m) \<and> manifest_ok g n m"
  by (auto simp: gen_manifest_def split: option.splits node.splits if_splits)

lemma complete_genE:
  assumes "complete_gen C d t g = Some m"
  obtains n where "lookup t (generation_dir d g) = Some n" "gen_manifest C g n = Some m"
  using assms by (auto simp: complete_gen_def bind_eq_Some_conv)

lemma complete_gen_is_dir:
  assumes "complete_gen C d t g = Some m"
  shows "is_dir t (generation_dir d g)"
  using assms
proof (rule complete_genE)
  fix n
  assume "lookup t (generation_dir d g) = Some n" "gen_manifest C g n = Some m"
  then show ?thesis by (cases n) (auto simp: gen_manifest_iff is_dir_def)
qed

lemma parse_manifest_ids: "parse_manifest C c = Some m \<Longrightarrow> manifest_ids_ok m"
  by (auto simp: parse_manifest_def split: option.splits if_splits)

lemma complete_gen_valid: "complete_gen C d t g = Some m \<Longrightarrow> valid_component g"
  by (erule complete_genE) (auto simp: gen_manifest_iff manifest_ok_def manifest_ids_ok_def dest!: parse_manifest_ids)

subsection \<open>What reading returns\<close>

lemma read_json_Ok:
  assumes "read_json parse p e s = (Ok v, s')"
  shows "case v of
      None \<Rightarrow> lookup (fs s) p = None
    | Some x \<Rightarrow> \<exists>c b. lookup (fs s) p = Some (Reg c b) \<and> parse (codec e) c = Some x"
  using assms unfolding read_json_def
  by (auto elim!: bind_OkE recover_with_OkE dest!: read_file_Ok read_file_Err
      simp: bind_def ret_def split: option.splits if_splits prod.splits res.splits)

lemma store_record_Ok:
  assumes "store_record d e s = (Ok v, s')"
  shows "v = disk_record (codec e) d (fs s)"
proof -
  from assms obtain w s1 where w: "read_json parse_record (state_path d) e s = (Ok w, s1)"
    and v: "(case w of None \<Rightarrow> ret None | Some r \<Rightarrow>
        if version r \<noteq> RECORD_VERSION then raise (Bail ''unsupported instance state version'')
         else ret (Some r)) e s1 = (Ok v, s')"
    unfolding store_record_def by (rule bind_OkE)
  from read_json_Ok [OF w] v show ?thesis
    by (auto simp: disk_record_def split: option.splits if_splits)
qed

lemma require_record_Ok:
  assumes "require_record d e s = (Ok r, s')"
  shows "disk_record (codec e) d (fs s) = Some r" and "fs s' = fs s"
proof -
  show "disk_record (codec e) d (fs s) = Some r"
    using assms unfolding require_record_def
    by (auto elim!: bind_OkE dest!: store_record_Ok split: option.splits)
  show "fs s' = fs s" using assms by (rule readonlyD [rotated]) (rule read_rules)
qed

lemma check_file_Ok:
  "check_file dir ks e s = (Ok u, s') \<Longrightarrow> \<exists>c b. lookup (fs s) (dir @ [fst ks]) = Some (Reg c b) \<and> length c = snd ks"
  unfolding check_file_def
  by (auto elim!: bind_OkE dest!: symlink_metadata_Ok split: node.splits if_splits)

lemma generation_Ok:
  assumes "generation d g e s = (Ok x, s')"
  shows "complete_gen (codec e) d (fs s) g = Some (g_manifest x)" "g_dir x = generation_dir d g" "fs s' = fs s"
proof -
  show fs: "fs s' = fs s" using assms by (rule readonlyD [rotated]) (rule read_rules)
  from assms obtain m s1 where m: "read_json parse_manifest (generation_dir d g @ [MANIFEST]) e s = (Ok (Some m), s1)"
    and id: "m_id m = g"
    and r: "bind (each (check_file (generation_dir d g)) (m_files m)) (\<lambda>_.
            if \<not> bt_contains_key (m_files m) ROOTFS then raise (Bail ''generation has no rootfs'')
            else ret \<lparr>g_dir = generation_dir d g, g_manifest = m\<rparr>) e s1 = (Ok x, s')"
    unfolding generation_def Let_def by (auto elim!: bind_OkE split: option.splits if_splits)
  have fs1: "fs s1 = fs s" using m by (rule readonlyD [rotated]) (rule read_rules)
  from r obtain s2 where ea: "each (check_file (generation_dir d g)) (m_files m) e s1 = (Ok (), s2)"
    and x: "x = \<lparr>g_dir = generation_dir d g, g_manifest = m\<rparr>" and root: "bt_contains_key (m_files m) ROOTFS"
    by (auto elim!: bind_OkE split: if_splits)
  from read_json_Ok [OF m] obtain c b where c: "lookup (fs s) (generation_dir d g @ [MANIFEST]) = Some (Reg c b)"
    and pm: "parse_manifest (codec e) c = Some m" by auto
  from lookup_under [OF c] obtain n where n: "lookup (fs s) (generation_dir d g) = Some n"
    and nm: "lookup n [MANIFEST] = Some (Reg c b)" by auto
  have "file_ok n ks" if ks: "ks \<in> set (m_files m)" for ks
  proof -
    have ro: "readonly (check_file (generation_dir d g) x)" for x by (rule read_rules)
    from each_OkD [OF ea ro ks] fs1 obtain s3 s4 where
      "fs s3 = fs s" "check_file (generation_dir d g) ks e s3 = (Ok (), s4)" by auto
    with check_file_Ok obtain c b where "lookup (fs s) (generation_dir d g @ [fst ks]) = Some (Reg c b)" "length c = snd ks"
      by metis
    with n show ?thesis by (auto simp: file_ok_def lookup_append_Some simp del: append_assoc)
  qed
  with n nm pm id root show "complete_gen (codec e) d (fs s) g = Some (g_manifest x)"
    by (simp add: complete_gen_def gen_manifest_def manifest_ok_def x list_all_iff)
  show "g_dir x = generation_dir d g" by (simp add: x)
qed

subsection \<open>Committing a file\<close>

lemma apart_temp [simp]: "apart (p @ [k @ ''.tmp-'' @ i]) (p @ [k])" "apart (p @ [k]) (p @ [k @ ''.tmp-'' @ i])"
  by auto

lemma keeps_commit_file [keep_rules]:
  assumes "apart (p @ [k]) q" "\<And>i. apart (p @ [k @ ''.tmp-'' @ i]) q"
  shows "keeps q (commit_file (p @ [k]) c)"
  unfolding commit_file_def unique_temp_sibling_def Let_def
  using assms by (intro keep_rules) auto

lemma commit_file_atomic:
  assumes "commit_file (p @ [k]) c e s = (r, s')"
  shows "lookup (fs s') (p @ [k]) \<in> {lookup (fs s) (p @ [k]), Some (Reg c True)}"
    and "r = Ok u \<Longrightarrow> lookup (fs s') (p @ [k]) = Some (Reg c True)"
proof -
  define q where "q = p @ [k]"
  obtain i s0 where i: "fresh_id [] e s = (Ok i, s0)" "fs s0 = fs s"
    by (simp add: fresh_id_def)
  define temp where "temp = p @ [k @ ''.tmp-'' @ i]"
  have ap: "apart temp q" "temp \<noteq> q" by (auto simp: temp_def q_def)
  define pre where "pre = bind (create_new temp) (\<lambda>_. bind (write_all temp c) (\<lambda>_. sync_file temp))"
  define body where "body = bind pre (\<lambda>_. bind (rename temp q) (\<lambda>_. sync_dir p))"
  have bind_assoc: "bind (bind a f) g = bind a (\<lambda>x. bind (f x) g)" for a :: "unit M" and f g
    by (rule ext)+ (auto simp: bind_def split: prod.splits res.splits)
  have run: "recover_with body (\<lambda>x. bind (ignore (remove_file temp)) (\<lambda>_. raise x)) e s0 = (r, s')"
    using assms i
    by (simp add: commit_file_def bind_def [of "fresh_id []"] Let_def unique_temp_sibling_def
        body_def pre_def bind_assoc q_def temp_def)
  have kp: "keeps q pre" unfolding pre_def using ap by (intro keep_rules)
  have kh: "keeps q (bind (ignore (remove_file temp)) (\<lambda>_. raise x :: unit M))" for x
    using ap by (intro keep_rules)
  have body: "(lookup (fs s2) q = lookup (fs s) q \<or> lookup (fs s2) q = Some (Reg c True)) \<and>
     (\<forall>u. r2 = Ok u \<longrightarrow> lookup (fs s2) q = Some (Reg c True))"
    if b: "body e s0 = (r2, s2)" for r2 s2
    using b unfolding body_def
  proof (cases rule: bind_cases)
    case (step u s1)
    have t1: "lookup (fs s1) temp = Some (Reg c True)"
      using step(1) unfolding pre_def temp_def
      by (auto elim!: bind_OkE dest!: write_all_Ok intro: sync_file_Ok)
    have q1: "lookup (fs s1) q = lookup (fs s) q" using keepsD [OF kp step(1)] i by simp
    from step(2) show ?thesis
    proof (cases rule: bind_cases)
      case step': (step u' s3)
      have "lookup (fs s3) q = Some (Reg c True)"
        using rename_Ok(1) [OF step'(1) [unfolded q_def] t1] ap by (simp add: q_def)
      moreover have "fs s2 = fs s3" using step'(2) by (rule readonlyD [rotated]) (rule read_rules)
      ultimately show ?thesis by simp
    qed (use q1 rename_fail in \<open>force+\<close>)
  qed (use keepsD [OF kp] i in \<open>auto\<close>)
  have "(lookup (fs s') q = lookup (fs s) q \<or> lookup (fs s') q = Some (Reg c True)) \<and>
     (\<forall>u. r = Ok u \<longrightarrow> lookup (fs s') q = Some (Reg c True))"
  proof (cases "body e s0")
    case (Pair r2 s2)
    show ?thesis
    proof (cases r2)
      case (Err x)
      with run Pair have h: "bind (ignore (remove_file temp)) (\<lambda>_. raise x :: unit M) e s2 = (r, s')"
        by (simp add: recover_with_def)
      then have "lookup (fs s') q = lookup (fs s2) q" by (rule keepsD [OF kh])
      moreover have "r \<noteq> Ok u" for u using h by (auto elim!: bind_OkE)
      ultimately show ?thesis using body [OF Pair] by auto
    qed (use run Pair body [OF Pair] in \<open>auto simp: recover_with_def\<close>)
  qed
  then show "lookup (fs s') (p @ [k]) \<in> {lookup (fs s) (p @ [k]), Some (Reg c True)}"
    and "r = Ok u \<Longrightarrow> lookup (fs s') (p @ [k]) = Some (Reg c True)"
    by (auto simp: q_def)
qed

end
