(* ===== verification/StoreGc.thy ===== *)
theory StoreGc
  imports StoreView
begin

text \<open>
  Garbage collection (\<open>collect_garbage\<close> of \<open>src/src/store.rs\<close>): what it never touches, under any
  fault, and what it removes when nothing fails.
\<close>

lemmas stable_store_reads [stable_rules] = readonly_store [THEN stable_readonly]

subsection \<open>One entry\<close>

lemma prefixes_nonempty [simp]: "STAGING_PREFIX \<noteq> []" "TRASH_PREFIX \<noteq> []"
  by (simp_all add: STAGING_PREFIX_def TRASH_PREFIX_def)

lemma valid_not_hidden [simp]:
  assumes "valid_component g"
  shows "\<not> starts_with g STAGING_PREFIX" "\<not> starts_with g TRASH_PREFIX"
    "TRASH_PREFIX @ x \<noteq> g" "STAGING_PREFIX @ x \<noteq> g" "g \<noteq> TRASH_PREFIX @ x" "g \<noteq> STAGING_PREFIX @ x"
  using assms valid_component_not_dot [OF assms]
  by (auto simp: STAGING_PREFIX_def TRASH_PREFIX_def starts_with_iff)

lemma keeps_collect_run [keep_rules]:
  "(live \<noteq> Some k \<Longrightarrow> apart (run_dir d k) q) \<Longrightarrow> keeps q (collect_run d live acc k)"
  unfolding collect_run_def by (intro keep_rules)

definition removable :: "gen_id list \<Rightarrow> string \<Rightarrow> bool" where
  "removable refs k \<longleftrightarrow>
     starts_with k STAGING_PREFIX \<or> starts_with k TRASH_PREFIX \<or> valid_component k \<and> k \<notin> set refs"

lemma removable_trash [simp]: "removable refs (TRASH_PREFIX @ k)"
  by (simp add: removable_def)

lemma referenced_not_removable: "valid_component g \<Longrightarrow> g \<in> set refs \<Longrightarrow> \<not> removable refs g"
  by (simp add: removable_def)

lemma keeps_collect_generation [keep_rules]:
  assumes "\<And>k. removable refs k \<Longrightarrow> apart (generation_dir d k) q"
  shows "keeps q (collect_generation d refs acc k)"
proof -
  have "apart (generation_dir d (TRASH_PREFIX @ k)) q" by (rule assms removable_trash)+
  moreover have "apart (generation_dir d k) q"
    if "starts_with k STAGING_PREFIX \<or> starts_with k TRASH_PREFIX \<or> valid_component k \<and> k \<notin> set refs"
    using that assms [of k] by (auto simp: removable_def)
  ultimately show ?thesis unfolding collect_generation_def
    by (intro keep_rules) blast+
qed

lemma stable_collect_generation [stable_rules]:
  assumes "valid_component g"
  shows "stable (\<lambda>t. lookup t (generation_dir d g) \<in> {v, None}) (collect_generation d refs acc k)"
proof (cases "removable refs k \<and> k = g")
  case False
  then have "keeps (generation_dir d g) (collect_generation d refs acc k)"
    using assms unfolding collect_generation_def
    by (intro keep_rules) (auto simp: removable_def)
  then show ?thesis by (rule stable_keeps)
next
  case True
  have ns: "\<not> (starts_with g STAGING_PREFIX \<or> starts_with g TRASH_PREFIX)"
    using assms by simp
  have ren: "stable (\<lambda>t. lookup t (generation_dir d g) \<in> {v, None})
      (rename (generation_dir d g) (generation_dir d (TRASH_PREFIX @ g)))"
    using stable_rename_away [of "d @ [GENERATIONS_DIR]" g v "TRASH_PREFIX @ g"] by simp
  have rem: "stable (\<lambda>t. lookup t (generation_dir d g) \<in> {v, None})
      (remove_path_if_exists (generation_dir d (TRASH_PREFIX @ g)))"
    by (rule stable_keeps) (use assms in \<open>auto intro!: keep_rules\<close>)
  show ?thesis unfolding collect_generation_def
    by (intro stable_rules) (use ns True ren rem in \<open>simp_all\<close>)
qed

subsection \<open>The whole collection\<close>

definition sweep :: "path \<Rightarrow> Record \<Rightarrow> CheckpointRef list \<Rightarrow> Collected M" where
  "sweep d r cs =
     bind (names_or_none (runs_dir d)) (\<lambda>rs.
     bind (folding (collect_run d (phase_run (phase r)))
            \<lparr>c_generations = [], c_runs = [], c_staging = []\<rparr> rs) (\<lambda>acc.
     bind (names_or_none (generations_dir d)) (\<lambda>gs.
     folding (collect_generation d (referenced_generations r cs)) acc gs)))"

lemma collect_garbage_sweep:
  "collect_garbage d = bind (require_record d) (\<lambda>r. bind (checkpoints d) (sweep d r))"
  by (rule ext)+ (simp add: collect_garbage_def sweep_def [abs_def])

lemma keeps_sweep [keep_rules]:
  assumes "\<And>k. phase_run (phase r) \<noteq> Some k \<Longrightarrow> apart (run_dir d k) q"
    and "\<And>k. removable (referenced_generations r cs) k \<Longrightarrow> apart (generation_dir d k) q"
  shows "keeps q (sweep d r cs)"
  unfolding sweep_def using assms by (intro keep_rules) auto

lemma gc_cases:
  assumes "collect_garbage d e s = (res, s')"
  obtains "fs s' = fs s" "\<And>x. res \<noteq> Ok x"
    | r cs s1 s2 where "disk_record (codec e) d (fs s) = Some r" "require_record d e s = (Ok r, s1)"
      "checkpoints d e s1 = (Ok cs, s2)" "fs s1 = fs s" "fs s2 = fs s" "sweep d r cs e s2 = (res, s')"
  using assms unfolding collect_garbage_sweep
proof (cases rule: bind_cases)
  case (step r s1)
  note r = require_record_Ok [OF step(1)]
  from step(2) show ?thesis
  proof (cases rule: bind_cases)
    case step': (step cs s2)
    have "fs s2 = fs s1" using step'(1) by (rule readonlyD [rotated]) (rule read_rules)
    with step step' r that(2) show ?thesis by metis
  next
    case (err x)
    then have "fs s' = fs s1" by (auto intro: readonlyD [rotated] read_rules)
    with err r that(1) show ?thesis by simp
  next
    case kill
    then have "fs s' = fs s1" by (auto intro: readonlyD [rotated] read_rules)
    with kill r that(1) show ?thesis by simp
  qed
qed (auto intro: that(1) readonlyD [rotated] read_rules)

lemma keeps_collect_garbage [keep_rules]:
  assumes "\<And>k. apart (run_dir d k) q" "\<And>k. apart (generation_dir d k) q"
  shows "keeps q (collect_garbage d)"
  unfolding collect_garbage_sweep using assms by (intro keep_rules) auto

text \<open>What the record names, and the run it names, are untouched whatever happens.\<close>

lemma gc_keeps_latest:
  assumes "collect_garbage d e s = (res, s')" "disk_record (codec e) d (fs s) = Some r" "latest r = Some g"
  shows "lookup (fs s') (generation_dir d g) = lookup (fs s) (generation_dir d g)"
  using assms(1)
proof (cases rule: gc_cases)
  case (2 r' cs s1 s2)
  have v: "valid_component g" using assms by (blast intro: disk_latest_valid)
  have "g \<in> set (referenced_generations r cs)" using assms by (simp add: referenced_generations_def)
  then have "\<not> removable (referenced_generations r cs) g" by (rule referenced_not_removable [OF v])
  then have "keeps (generation_dir d g) (sweep d r cs)" by (intro keep_rules) auto
  with 2 assms show ?thesis by (auto dest: keepsD)
qed simp

lemma gc_keeps_live_run:
  assumes "collect_garbage d e s = (res, s')" "disk_record (codec e) d (fs s) = Some r"
    "phase_run (phase r) = Some x"
  shows "lookup (fs s') (run_dir d x) = lookup (fs s) (run_dir d x)"
  using assms(1)
proof (cases rule: gc_cases)
  case (2 r' cs s1 s2)
  have "keeps (run_dir d x) (sweep d r cs)" using assms(3) by (intro keep_rules) auto
  with 2 assms show ?thesis by (auto dest: keepsD)
qed simp

lemma gc_never_alters:
  assumes "collect_garbage d e s = (res, s')" "valid_component g"
  shows "lookup (fs s') (generation_dir d g) \<in> {lookup (fs s) (generation_dir d g), None}"
  using assms(1)
proof (cases rule: gc_cases)
  case (2 r cs s1 s2)
  let ?P = "\<lambda>t. lookup t (generation_dir d g) \<in> {lookup (fs s) (generation_dir d g), None}"
  have runs: "stable ?P (collect_run d live acc k)" for live acc k
    by (rule stable_keeps) (auto intro!: keep_rules)
  have "stable ?P (sweep d r cs)" unfolding sweep_def
    using assms(2) by (intro stable_rules runs)
  from stableD [OF this 2(6)] 2(5) show ?thesis by simp
qed simp

lemma gc_record [simp]:
  assumes "collect_garbage d e s = (res, s')"
  shows "disk_record C d (fs s') = disk_record C d (fs s)"
proof (rule disk_record_cong)
  have "keeps (state_path d) (collect_garbage d)" by (intro keep_rules) auto
  then show "lookup (fs s') (state_path d) = lookup (fs s) (state_path d)"
    using assms by (rule keepsD)
qed

end
