(* ===== verification/Views.thy ===== *)
theory Views
  imports Copy
begin

text \<open>
  Trees seen without the sync flag, and what syncing and cloning do to them: syncing changes no
  bytes and makes every file below the directory durable; a successful clone is byte-identical to
  its source.
\<close>

datatype datum = Absent | File string | Link string | Folder

fun datum_of :: "node option \<Rightarrow> datum" where
  "datum_of None = Absent"
| "datum_of (Some (Reg c _)) = File c"
| "datum_of (Some (Lnk l)) = Link l"
| "datum_of (Some (Sub _)) = Folder"

definition view :: "node \<Rightarrow> path \<Rightarrow> datum" where
  "view t p = datum_of (lookup t p)"

definition all_synced :: "node \<Rightarrow> bool" where
  "all_synced t \<longleftrightarrow> (\<forall>q c b. lookup t q = Some (Reg c b) \<longrightarrow> b)"

text \<open>A directory lists each name once.\<close>

fun tidy :: "node \<Rightarrow> bool"
and tidy_entries :: "(string \<times> node) list \<Rightarrow> bool" where
  "tidy (Reg c b) = True"
| "tidy (Lnk l) = True"
| "tidy (Sub es) = tidy_entries es"
| "tidy_entries [] = True"
| "tidy_entries ((k, n) # es) \<longleftrightarrow> k \<notin> fst ` set es \<and> tidy n \<and> tidy_entries es"

fun synced_node :: "node \<Rightarrow> bool"
and synced_entries :: "(string \<times> node) list \<Rightarrow> bool" where
  "synced_node (Reg c b) = b"
| "synced_node (Lnk l) = True"
| "synced_node (Sub es) = synced_entries es"
| "synced_entries [] = True"
| "synced_entries ((k, n) # es) \<longleftrightarrow> synced_node n \<and> synced_entries es"

lemma all_synced_simps [simp]: "all_synced (Reg c b) = b" "all_synced (Lnk l)"
  by (auto simp: all_synced_def elim: lookup.elims dest: spec [where x = "[]"])

lemma all_synced_lookup: "all_synced t \<Longrightarrow> lookup t p = Some n \<Longrightarrow> all_synced n"
  unfolding all_synced_def by (metis lookup_append_Some)

lemma synced_node_sound:
  "synced_node n \<Longrightarrow> all_synced n"
  "synced_entries es \<Longrightarrow> all_synced (Sub es)"
proof (induction n and es rule: synced_node_synced_entries.induct)
  case (5 k n es)
  show ?case unfolding all_synced_def
  proof (intro allI impI)
    fix q c b
    assume q: "lookup (Sub ((k, n) # es)) q = Some (Reg c b)"
    then obtain k' q' where "q = k' # q'" by (cases q) auto
    with q 5 show b
      unfolding all_synced_def by (cases "k' = k") (auto dest: spec [where x = "k' # q'"])
  qed
qed (auto simp: all_synced_def elim: lookup.elims)

subsection \<open>Replacing a file by a file\<close>

lemma lookup_above_file:
  assumes "lookup t (q @ k # r) = Some n"
  shows "\<exists>es. lookup t q = Some (Sub es)"
proof -
  from assms obtain m where "lookup t q = Some m" "lookup m (k # r) = Some n"
    by (auto dest: lookup_under)
  then show ?thesis by (cases m) auto
qed

lemma lookup_below_reg: "lookup t p = Some (Reg c b) \<Longrightarrow> lookup t (p @ k # r) = None"
  by (simp add: lookup_append)

lemma path_cases:
  obtains "apart p q" | "p = q" | k r where "q = p @ k # r" | k r where "p = q @ k # r"
proof -
  consider "apart p q" | "prefix p q" | "prefix q p" by (auto simp: apart_def)
  then show ?thesis
  proof cases
    case 2
    then obtain x where "q = p @ x" by (auto elim: prefixE)
    with that show ?thesis by (cases x) auto
  next
    case 3
    then obtain x where "p = q @ x" by (auto elim: prefixE)
    with that show ?thesis by (cases x) auto
  qed (use that in auto)
qed

lemma put_same_file:
  assumes "lookup t p = Some (Reg c b)"
  shows "lookup (put p (Some (Reg c' b')) t) p = Some (Reg c' b')"
    and "q \<noteq> p \<Longrightarrow> datum_of (lookup (put p (Some (Reg c' b')) t) q) = datum_of (lookup t q)"
    and "q \<noteq> p \<Longrightarrow> lookup t q = Some (Reg x y) \<Longrightarrow> lookup (put p (Some (Reg c' b')) t) q = Some (Reg x y)"
proof -
  show same: "lookup (put p (Some (Reg c' b')) t) p = Some (Reg c' b')"
  proof (cases p rule: rev_cases)
    case (snoc p' k)
    with assms show ?thesis by (simp add: lookup_put_same lookup_parent_dir)
  qed simp
  show "datum_of (lookup (put p (Some (Reg c' b')) t) q) = datum_of (lookup t q)" if "q \<noteq> p"
  proof (cases rule: path_cases [of p q])
    case (3 k r)
    with same assms show ?thesis by (simp add: lookup_below_reg)
  next
    case (4 k r)
    then have "is_dir t q" using assms by (auto simp: is_dir_def dest: lookup_above_file)
    moreover from this have "is_dir (put p (Some (Reg c' b')) t) q"
      by (rule is_dir_put_above) (auto simp: 4 strict_prefix_def)
    ultimately show ?thesis by (auto simp: is_dir_def)
  qed (use that in \<open>auto simp: lookup_put_apart\<close>)
  show "lookup (put p (Some (Reg c' b')) t) q = Some (Reg x y)"
    if "q \<noteq> p" "lookup t q = Some (Reg x y)"
  proof (cases rule: path_cases [of p q])
    case (3 k r)
    with assms that show ?thesis by (simp add: lookup_below_reg)
  next
    case (4 k r)
    with assms that show ?thesis by (simp add: lookup_below_reg)
  qed (use that in \<open>auto simp: lookup_put_apart\<close>)
qed

subsection \<open>Syncing\<close>

text \<open>\<open>dry m\<close>: no byte changes, and what is synced stays synced.\<close>

definition dried :: "node \<Rightarrow> node \<Rightarrow> bool" where
  "dried t t' \<longleftrightarrow> (\<forall>q. view t' q = view t q \<and>
     (\<forall>c. lookup t q = Some (Reg c True) \<longrightarrow> lookup t' q = Some (Reg c True)))"

definition dry :: "'a M \<Rightarrow> bool" where
  "dry m \<longleftrightarrow> (\<forall>e s. dried (fs s) (fs (snd (m e s))))"

lemma dried_refl [simp]: "dried t t"
  by (simp add: dried_def)

lemma dried_trans: "dried t t' \<Longrightarrow> dried t' t'' \<Longrightarrow> dried t t''"
  by (simp add: dried_def)

lemma dryD: "dry m \<Longrightarrow> m e s = (r, s') \<Longrightarrow> dried (fs s) (fs s')"
  by (metis dry_def snd_conv)

lemma dry_readonly: "readonly m \<Longrightarrow> dry m"
  by (simp add: readonly_def dry_def)

lemma dry_bind: "dry m \<Longrightarrow> (\<And>x. dry (f x)) \<Longrightarrow> dry (bind m f)"
  unfolding dry_def bind_def
  by (auto split: prod.splits res.splits) (metis dried_trans snd_conv)+

lemmas dry_reads = readonly_basic [THEN dry_readonly] readonly_observers [THEN dry_readonly]

lemma dry_sync_file: "dry (sync_file p)"
proof -
  have "view (mark_synced p t) q = view t q \<and>
     (\<forall>c. lookup t q = Some (Reg c True) \<longrightarrow> lookup (mark_synced p t) q = Some (Reg c True))" for t q
    by (cases "q = p")
      (auto simp: mark_synced_def view_def put_same_file split: option.splits node.splits)
  then have "dried t (mark_synced p t)" for t
    by (simp add: dried_def)
  then show ?thesis
    by (auto simp: dry_def sync_file_def call_def Let_def intact_def split: fault.splits)
qed

lemma dry_sync_node:
  "dry (sync_node n p)"
  "dry (sync_entries es p)"
  by (induction n p and es p rule: sync_node_sync_entries.induct)
    (auto intro!: dry_bind dry_sync_file dry_reads)

lemma dry_view: "dry m \<Longrightarrow> m e s = (r, s') \<Longrightarrow> view (fs s') q = view (fs s) q"
  by (drule (1) dryD) (simp add: dried_def)

lemma dry_synced:
  "dry m \<Longrightarrow> m e s = (r, s') \<Longrightarrow> lookup (fs s) q = Some (Reg c True) \<Longrightarrow> lookup (fs s') q = Some (Reg c True)"
  by (drule (1) dryD) (simp add: dried_def)

lemma dry_sync_tree: "dry (sync_tree p)"
proof -
  have r: "dry (bind (read_dir p) (\<lambda>_. ret ()))" by (intro dry_readonly read_rules)
  have "\<exists>m. sync_tree p e s = m e s \<and> dry m" for e s
  proof (cases "\<exists>es. lookup (fs s) p = Some (Sub es)")
    case True
    then show ?thesis using dry_sync_node(1) [of _ p] by (auto simp: sync_tree_def simp del: sync_node.simps)
  next
    case False
    then show ?thesis using r by (auto simp: sync_tree_def split: option.splits node.splits)
  qed
  then show ?thesis unfolding dry_def by metis
qed

lemma sync_file_synced:
  "sync_file p e s = (Ok u, s') \<Longrightarrow> \<exists>c. lookup (fs s') p = Some (Reg c True)"
  unfolding sync_file_def
  by (erule call_OkE) (auto simp: is_file_def mark_synced_def put_same_file split: if_splits)

lemma sync_node_synced:
  "sync_node n p e s = (Ok u, s') \<Longrightarrow> lookup n q = Some (Reg c b) \<Longrightarrow>
     \<exists>c. lookup (fs s') (p @ q) = Some (Reg c True)"
  "sync_entries es p e s = (Ok u, s') \<Longrightarrow> lookup (Sub es) q = Some (Reg c b) \<Longrightarrow>
     \<exists>c. lookup (fs s') (p @ q) = Some (Reg c True)"
proof (induction n p and es p arbitrary: s u s' q c b and s u s' q c b
    rule: sync_node_sync_entries.induct)
  case (1 es p)
  from "1.prems"(1) obtain x1 s1 x2 s2 where "sync_entries es p e s1 = (Ok x1, s2)"
    and "sync_dir p e s2 = (Ok x2, s')"
    by (auto elim!: bind_OkE)
  moreover from this(2) have "fs s' = fs s2" by (rule readonlyD [rotated]) (rule read_rules)
  ultimately show ?case using "1.IH" "1.prems"(2) by metis
next
  case (2 l p)
  then show ?case by (cases q) auto
next
  case (3 c b p)
  then show ?case using sync_file_synced by (cases q) auto
next
  case (4 p)
  then show ?case by (cases q) auto
next
  case (5 k n es p)
  from "5.prems"(1) obtain x1 s1 where a: "sync_node n (p @ [k]) e s = (Ok x1, s1)"
    and r: "sync_entries es p e s1 = (Ok u, s')"
    by (auto elim!: bind_OkE)
  from "5.prems"(2) obtain k' q' where q: "q = k' # q'" by (cases q) auto
  show ?case
  proof (cases "k' = k")
    case True
    with "5.IH"(1) [OF a, of q'] "5.prems"(2) q obtain c where
      "lookup (fs s1) (p @ q) = Some (Reg c True)" by auto
    then show ?thesis using dry_synced [OF dry_sync_node(2) r] by blast
  next
    case False
    with "5.IH"(2) [OF r, of q] "5.prems"(2) q show ?thesis by auto
  qed
qed

lemma sync_tree_synced:
  assumes "sync_tree p e s = (Ok u, s')"
  obtains es n where "lookup (fs s) p = Some (Sub es)" "lookup (fs s') p = Some n" "all_synced n"
    "\<And>q. view (fs s') q = view (fs s) q"
proof -
  note v = dry_view [OF dry_sync_tree assms]
  have "\<exists>es. lookup (fs s) p = Some (Sub es)"
  proof (rule ccontr)
    assume n: "\<not> ?thesis"
    then have "bind (read_dir p) (\<lambda>_. ret ()) e s = (Ok u, s')"
      using assms by (auto simp: sync_tree_def split: option.splits node.splits)
    then show False using n by (auto elim!: bind_OkE dest: read_dir_Ok)
  qed
  then obtain es where es: "lookup (fs s) p = Some (Sub es)" ..
  with assms have m: "sync_node (Sub es) p e s = (Ok u, s')" by (simp add: sync_tree_def)
  from v [of p] es obtain es' where es': "lookup (fs s') p = Some (Sub es')"
    by (cases "lookup (fs s') p" rule: datum_of.cases) (auto simp: view_def)
  have "all_synced (Sub es')" unfolding all_synced_def
  proof (intro allI impI)
    fix q c b
    assume "lookup (Sub es') q = Some (Reg c b)"
    then have q: "lookup (fs s') (p @ q) = Some (Reg c b)" by (simp add: lookup_append_Some [OF es'])
    with v [of "p @ q"] have "\<exists>b'. lookup (fs s) (p @ q) = Some (Reg c b')"
      by (cases "lookup (fs s) (p @ q)" rule: datum_of.cases) (auto simp: view_def)
    then obtain b' where "lookup (Sub es) q = Some (Reg c b')" by (auto simp: lookup_append_Some [OF es])
    from sync_node_synced(1) [OF m this] q show b by auto
  qed
  with es es' v that show ?thesis by blast
qed

subsection \<open>Cloning\<close>

lemma make_dirs_new: "make_dirs p t = Some t' \<Longrightarrow> lookup t p = None \<Longrightarrow> lookup t' p = Some (Sub [])"
proof (induction p t arbitrary: t' rule: make_dirs.induct)
  case (3 k p es)
  then obtain c where c: "make_dirs p (case map_of es k of None \<Rightarrow> Sub [] | Some c \<Rightarrow> c) = Some c"
    and t': "t' = Sub (AList.update k c es)" by auto
  show ?case
  proof (cases "map_of es k")
    case None
    show ?thesis
    proof (cases p)
      case Nil
      then show ?thesis using c t' None by simp
    next
      case (Cons a q)
      then show ?thesis using "3.IH" [OF c] t' None by simp
    qed
  next
    case (Some x)
    then show ?thesis using "3.IH" [OF c] "3.prems" t' by simp
  qed
qed auto

lemma create_dir_all_Ok:
  assumes "create_dir_all p e s = (Ok u, s')"
  shows "is_dir (fs s') p" "lookup (fs s) p = None \<Longrightarrow> lookup (fs s') p = Some (Sub [])"
    "is_dir (fs s) p \<Longrightarrow> fs s' = fs s"
  using assms unfolding create_dir_all_def
  by (auto elim!: call_OkE split: option.splits dest: make_dirs_is_dir make_dirs_new simp: make_dirs_existing)

lemma readonly_file_allocated [read_rules]: "readonly (file_allocated p)"
proof -
  have "readonly (bind (file_len p) (\<lambda>_. ret x))" for x :: nat by (intro read_rules)
  then show ?thesis unfolding readonly_def file_allocated_def by blast
qed

lemma copy_file_Ok:
  assumes "copy_file src (p @ [k]) e s = (Ok u, s')"
  obtains c b where "lookup (fs s) src = Some (Reg c b)" "lookup (fs s') (p @ [k]) = Some (Reg c False)"
    "is_dir (fs s) p"
  using assms unfolding copy_file_def
  by (elim call_OkE) (auto simp: plant_def lookup_put_same split: option.splits node.splits if_splits)

lemma clone_or_copy_file_Ok:
  assumes "clone_or_copy_file src (p @ [k]) e s = (Ok u, s')" "apart (p @ [k]) src"
  obtains c b where "lookup (fs s) src = Some (Reg c b)" "lookup (fs s') (p @ [k]) = Some (Reg c False)"
proof -
  define fin where "fin len allocated copied =
     (if kept_sparseness len allocated copied then preserve_file_metadata (p @ [k])
      else bind (remove_file (p @ [k])) (\<lambda>_. raise (Bail ''clonefile produced dense clone'')))"
    for len allocated copied
  from assms(1) obtain x1 s1 x2 s2 x3 s3 x4 s4 x5 s5 x6 s6 where
    1: "create_dir_all p e s = (Ok x1, s1)" and 2: "file_len src e s1 = (Ok x2, s2)" and
    3: "file_allocated src e s2 = (Ok x3, s3)" and 4: "ignore (remove_file (p @ [k])) e s3 = (Ok x4, s4)" and
    5: "copy_file src (p @ [k]) e s4 = (Ok x5, s5)" and 6: "file_allocated (p @ [k]) e s5 = (Ok x6, s6)" and
    7: "fin x2 x3 x6 e s6 = (Ok u, s')"
    unfolding clone_or_copy_file_def fin_def parent_of_snoc by (elim bind_OkE)
  have np: "\<not> prefix src p" using assms(2) by (auto simp: apart_def prefix_prefix)
  have k1: "lookup (fs s1) src = lookup (fs s) src" by (rule keepsD [OF keeps_create_dir_all [OF np] 1])
  have k2: "fs s2 = fs s1" using 2 by (rule readonlyD [rotated]) (rule read_rules)
  have k3: "fs s3 = fs s2" using 3 by (rule readonlyD [rotated]) (rule read_rules)
  have k4: "lookup (fs s4) src = lookup (fs s3) src"
    by (rule keepsD [OF keeps_ignore [OF keeps_remove_file [OF assms(2)]] 4])
  have k6: "fs s6 = fs s5" using 6 by (rule readonlyD [rotated]) (rule read_rules)
  have k7: "fs s' = fs s6"
  proof (cases "kept_sparseness x2 x3 x6")
    case True
    have ro: "readonly (preserve_file_metadata (p @ [k]))"
      unfolding preserve_file_metadata_def by (rule read_rules)
    show ?thesis using 7 True by (simp add: fin_def readonlyD [OF ro])
  next
    case False
    then show ?thesis using 7 by (auto simp: fin_def elim!: bind_OkE)
  qed
  from copy_file_Ok [OF 5] show ?thesis
    using that k1 k2 k3 k4 k6 k7 by metis
qed

text \<open>A clone of a tree into a place where nothing is has the bytes of the source everywhere.\<close>

lemma tidy_entries_lookup:
  "tidy_entries es \<Longrightarrow> (k, n) \<in> set es \<Longrightarrow> map_of es k = Some n \<and> tidy n"
  by (induction es) (auto simp: rev_image_eqI)

lemma make_symlink_Ok: "make_symlink (p @ [k]) l e s = (Ok u, s') \<Longrightarrow> lookup (fs s') (p @ [k]) = Some (Lnk l)"
  unfolding make_symlink_def by (elim call_OkE) (auto simp: lookup_put_same split: if_splits)

lemma datum_of_below: "lookup t p = Some n \<Longrightarrow> view t (p @ q) = view n q"
  by (simp add: view_def lookup_append_Some)

lemma view_reg: "view (Reg c b) q = (if q = [] then File c else Absent)"
  by (cases q) (simp_all add: view_def)

lemma clone_node_view:
  "clone_node n src dst e s = (Ok u, s') \<Longrightarrow> lookup (fs s) src = Some n \<Longrightarrow> tidy n \<Longrightarrow>
     apart dst src \<Longrightarrow> lookup (fs s) dst = None \<Longrightarrow> dst \<noteq> [] \<Longrightarrow>
     \<forall>q. view (fs s') (dst @ q) = view n q"
  "clone_entries es src dst e s = (Ok u, s') \<Longrightarrow> \<forall>(k, n) \<in> set es. lookup (fs s) (src @ [k]) = Some n \<Longrightarrow>
     tidy_entries es \<Longrightarrow> apart dst src \<Longrightarrow> \<forall>k \<in> fst ` set es. lookup (fs s) (dst @ [k]) = None \<Longrightarrow>
     is_dir (fs s) dst \<Longrightarrow>
     is_dir (fs s') dst \<and>
     (\<forall>k. k \<notin> fst ` set es \<longrightarrow> lookup (fs s') (dst @ [k]) = lookup (fs s) (dst @ [k])) \<and>
     (\<forall>(k, n) \<in> set es. \<forall>q. view (fs s') (dst @ k # q) = view n q)"
proof (induction n src dst and es src dst arbitrary: s u s' and s u s'
    rule: clone_node_clone_entries.induct)
  case (1 es src dst)
  from "1.prems"(1) obtain x1 s1 x2 s2 where a: "create_dir_all dst e s = (Ok x1, s1)"
    and b: "read_dir src e s1 = (Ok x2, s2)" and c: "clone_entries es src dst e s2 = (Ok u, s')"
    by (auto elim!: bind_OkE)
  have fs2: "fs s2 = fs s1" using b by (rule readonlyD [rotated]) (rule read_rules)
  have d1: "lookup (fs s1) dst = Some (Sub [])" using create_dir_all_Ok(2) [OF a] 1 by simp
  have "\<not> prefix src dst" using "1.prems"(4) by (simp add: apart_def)
  then have s1: "lookup (fs s1) src = Some (Sub es)"
    using keepsD [OF keeps_create_dir_all a] "1.prems"(2) by simp
  have src: "\<forall>(k, n) \<in> set es. lookup (fs s2) (src @ [k]) = Some n"
    using "1.prems"(3) s1 fs2 by (auto simp: lookup_append_Some dest: tidy_entries_lookup split: option.splits)
  have res: "is_dir (fs s') dst"
    "\<forall>k. k \<notin> fst ` set es \<longrightarrow> lookup (fs s') (dst @ [k]) = lookup (fs s2) (dst @ [k])"
    "\<forall>(k, n) \<in> set es. \<forall>q. view (fs s') (dst @ k # q) = view n q"
    using "1.IH" [OF c src] "1.prems"(3,4) d1 fs2 by (auto simp: lookup_append_Some is_dir_def)
  show ?case
  proof
    fix q
    show "view (fs s') (dst @ q) = view (Sub es) q"
    proof (cases q)
      case Nil
      then show ?thesis using res(1) by (auto simp: view_def is_dir_def)
    next
      case (Cons k q')
      show ?thesis
      proof (cases "map_of es k")
        case None
        then have "lookup (fs s') (dst @ [k]) = None"
          using res(2) d1 fs2 by (simp add: lookup_append_Some map_of_eq_None_iff)
        then have "lookup (fs s') ((dst @ [k]) @ q') = None" by (rule lookup_append_None)
        with None Cons show ?thesis by (simp add: view_def)
      next
        case (Some n)
        then have "view (fs s') (dst @ k # q') = view n q'" using bspec [OF res(3) map_of_SomeD [OF Some]] by simp
        with Some Cons show ?thesis by (simp add: view_def)
      qed
    qed
  qed
next
  case (2 l src dst)
  then obtain p k where dst: "dst = p @ [k]" by (cases dst rule: rev_cases) auto
  with "2.prems"(1) have "lookup (fs s') dst = Some (Lnk l)"
    by (auto elim!: bind_OkE intro: make_symlink_Ok)
  then show ?case by (simp add: datum_of_below)
next
  case (3 c b src dst)
  then obtain p k where dst: "dst = p @ [k]" by (cases dst rule: rev_cases) auto
  have m: "clone_or_copy_file src (p @ [k]) e s = (Ok u, s')" using "3.prems"(1) dst by simp
  from clone_or_copy_file_Ok [OF m] "3.prems"(2,4) dst have "lookup (fs s') dst = Some (Reg c False)"
    by (metis node.inject(1) option.inject)
  then have "view (fs s') (dst @ q) = view (Reg c False) q" for q by (rule datum_of_below)
  then show ?case by (simp add: view_reg)
next
  case (4 src dst)
  then show ?case by auto
next
  case (5 k n es src dst)
  from "5.prems"(1) obtain x1 s1 x2 s2 where a: "symlink_metadata (src @ [k]) e s = (Ok x1, s1)"
    and b: "clone_node n (src @ [k]) (dst @ [k]) e s1 = (Ok x2, s2)" and c: "clone_entries es src dst e s2 = (Ok u, s')"
    by (auto elim!: bind_OkE)
  have fs1: "fs s1 = fs s" using a by (rule readonlyD [rotated]) (rule read_rules)
  have ap: "apart (dst @ [k]) (src @ [j])" for j
    using "5.prems"(4) by (meson apart_append1 apart_append2)
  have first: "\<forall>q. view (fs s2) ((dst @ [k]) @ q) = view n q"
    using "5.IH"(1) [OF b] "5.prems" fs1 ap by auto
  have kn: "k \<notin> fst ` set es" using "5.prems"(3) by simp
  have keep: "lookup (fs s2) x = lookup (fs s) x" if "apart (dst @ [k]) x" for x
    using keepsD [OF keeps_clone_node(1) [OF that] b] fs1 by simp
  have dirs: "is_dir (fs s2) dst"
  proof -
    have "view (fs s2) (dst @ [k]) \<noteq> Absent"
      using first [THEN spec, of "[]"] by (cases n) (auto simp: view_def)
    then obtain x where "lookup (fs s2) (dst @ [k]) = Some x"
      by (cases "lookup (fs s2) (dst @ [k])") (auto simp: view_def)
    then show ?thesis by (rule lookup_parent_dir)
  qed
  have here1: "\<forall>(k, n) \<in> set es. lookup (fs s2) (src @ [k]) = Some n"
    using "5.prems"(2) keep [OF ap] by auto
  have here2: "\<forall>k \<in> fst ` set es. lookup (fs s2) (dst @ [k]) = None"
  proof
    fix j
    assume j: "j \<in> fst ` set es"
    with kn have "apart (dst @ [k]) (dst @ [j])" by auto
    with keep [of "dst @ [j]"] "5.prems"(5) j show "lookup (fs s2) (dst @ [j]) = None" by auto
  qed
  have rest: "is_dir (fs s') dst"
     "\<forall>k. k \<notin> fst ` set es \<longrightarrow> lookup (fs s') (dst @ [k]) = lookup (fs s2) (dst @ [k])"
     "\<forall>(k, n) \<in> set es. \<forall>q. view (fs s') (dst @ k # q) = view n q"
    using "5.IH"(2) [OF c here1 _ "5.prems"(4) here2 dirs] "5.prems"(3) by simp_all
  have "lookup (fs s') (dst @ [k]) = lookup (fs s2) (dst @ [k])" using rest(2) kn by blast
  then have "view (fs s') ((dst @ [k]) @ q) = view (fs s2) ((dst @ [k]) @ q)" for q
    by (simp only: view_def lookup_append)
  with first have here: "view (fs s') (dst @ k # q) = view n q" for q by simp
  have other: "lookup (fs s') (dst @ [j]) = lookup (fs s) (dst @ [j])" if "j \<notin> fst ` set ((k, n) # es)" for j
    using that rest(2) keep [of "dst @ [j]"] by auto
  show ?case using rest(1,3) here other by auto
qed

end
