(* ===== verification/StoreSafe.thy ===== *)
theory StoreSafe
  imports StoreGc Views
begin

text \<open>
  The safety invariant of the store: every published generation is durable, and the record, if
  there is one, is durable, readable and names a complete generation. Every operation keeps it
  at every point where it can fail or be killed.
\<close>

subsection \<open>The invariant\<close>

definition sealed :: "path \<Rightarrow> node \<Rightarrow> bool" where
  "sealed d t \<longleftrightarrow>
     (\<forall>g n. valid_component g \<longrightarrow> lookup t (generation_dir d g) = Some n \<longrightarrow> all_synced n)"

definition record_sound :: "codec \<Rightarrow> path \<Rightarrow> node \<Rightarrow> bool" where
  "record_sound C d t =
     (case lookup t (state_path d) of
        None \<Rightarrow> True
      | Some n \<Rightarrow> all_synced n \<and>
          (case disk_record C d t of
             None \<Rightarrow> False
           | Some r \<Rightarrow>
               (case latest r of None \<Rightarrow> True | Some g \<Rightarrow> complete_gen C d t g \<noteq> None)))"

definition store_inv :: "codec \<Rightarrow> path \<Rightarrow> node \<Rightarrow> bool" where
  "store_inv C d t \<longleftrightarrow> sealed d t \<and> record_sound C d t"

lemma record_sound_iff:
  "record_sound C d t \<longleftrightarrow>
     (\<forall>n. lookup t (state_path d) = Some n \<longrightarrow> all_synced n \<and>
        (\<exists>r. disk_record C d t = Some r \<and>
           (\<forall>g. latest r = Some g \<longrightarrow> complete_gen C d t g \<noteq> None)))"
  unfolding record_sound_def by (simp split: option.splits)

abbreviation sound :: "path \<Rightarrow> env \<Rightarrow> node \<Rightarrow> bool" where
  "sound d e t \<equiv> codec_ok (codec e) \<and> store_inv (codec e) d t"

text \<open>The paths the invariant looks at.\<close>

definition protected :: "path \<Rightarrow> path set" where
  "protected d = insert (state_path d) {generation_dir d g | g. valid_component g}"

definition quiet :: "path \<Rightarrow> 'a M \<Rightarrow> bool" where
  "quiet d m \<longleftrightarrow> (\<forall>q \<in> protected d. keeps q m)"

definition same_store :: "path \<Rightarrow> node \<Rightarrow> node \<Rightarrow> bool" where
  "same_store d t t' \<longleftrightarrow> (\<forall>q \<in> protected d. lookup t' q = lookup t q)"

lemma quietI:
  "keeps (state_path d) m \<Longrightarrow> (\<And>g. valid_component g \<Longrightarrow> keeps (generation_dir d g) m) \<Longrightarrow> quiet d m"
  by (auto simp: quiet_def protected_def)

lemma quietD: "quiet d m \<Longrightarrow> m e s = (r, s') \<Longrightarrow> same_store d (fs s) (fs s')"
  by (auto simp: quiet_def same_store_def dest: keepsD)

lemma quiet_readonly: "readonly m \<Longrightarrow> quiet d m"
  by (simp add: quiet_def readonly_keeps)

lemma same_store_gen:
  "same_store d t t' \<Longrightarrow> valid_component g \<Longrightarrow> lookup t' (generation_dir d g) = lookup t (generation_dir d g)"
  by (auto simp: same_store_def protected_def)

lemma same_store_record: "same_store d t t' \<Longrightarrow> disk_record C d t' = disk_record C d t"
  by (intro disk_record_cong) (auto simp: same_store_def protected_def)

lemma same_store_complete:
  "same_store d t t' \<Longrightarrow> complete_gen C d t g = Some m \<Longrightarrow> complete_gen C d t' g = Some m"
  using complete_gen_cong [OF same_store_gen [OF _ complete_gen_valid]] by simp

lemma same_store_inv:
  assumes s: "same_store d t t'" and i: "store_inv C d t"
  shows "store_inv C d t'"
proof -
  have "sealed d t'" using i same_store_gen [OF s] by (simp add: store_inv_def sealed_def)
  have "lookup t' (state_path d) = lookup t (state_path d)"
    using s by (simp add: same_store_def protected_def)
  moreover have "complete_gen C d t' g \<noteq> None" if "complete_gen C d t g \<noteq> None" for g
    using that same_store_complete [OF s] by blast
  ultimately have "record_sound C d t'"
    using i unfolding store_inv_def record_sound_iff same_store_record [OF s] by auto
  with \<open>sealed d t'\<close> show ?thesis by (simp add: store_inv_def)
qed

lemma triple_quiet:
  assumes "quiet d m" "\<And>e t t'. same_store d t t' \<Longrightarrow> P e t \<Longrightarrow> P e t'" "\<And>e t. P e t \<Longrightarrow> E e t"
  shows "triple P m (\<lambda>_. P) E"
  by (rule tripleI) (blast dest: quietD [OF assms(1)] intro: assms(2,3))+

lemma triple_quiet_inv [hoare_rules]:
  "quiet d m \<Longrightarrow> triple (sound d) m (\<lambda>_. sound d) (sound d)"
  by (rule triple_quiet) (auto intro: same_store_inv)

subsection \<open>Committing the record\<close>

lemma codec_record: "codec_ok C \<Longrightarrow> record_ids_ok r \<Longrightarrow> parse_record C (enc_record C r @ [CHR 0x0A]) = Some r"
  by (simp add: codec_ok_def parse_record_def)

lemma codec_manifest:
  "codec_ok C \<Longrightarrow> manifest_ids_ok m \<Longrightarrow> parse_manifest C (enc_manifest C m @ [CHR 0x0A]) = Some m"
  by (simp add: codec_ok_def parse_manifest_def)

definition new_record :: "gen_id option \<Rightarrow> Phase \<Rightarrow> Record" where
  "new_record l ph = \<lparr>version = RECORD_VERSION, latest = l, phase = ph\<rparr>"

lemma new_record_simps [simp]:
  "version (new_record l ph) = RECORD_VERSION" "latest (new_record l ph) = l" "phase (new_record l ph) = ph"
  by (simp_all add: new_record_def)

lemma commit_record_file:
  "commit_record d l ph e = commit_file (state_path d) (enc_record (codec e) (new_record l ph) @ [CHR 0x0A]) e"
  by (rule ext) (simp add: commit_record_def commit_json_def bind_def ask_def new_record_def)

lemma keeps_commit_record [keep_rules]:
  assumes "apart (state_path d) q" "\<And>i. apart (d @ [STATE_FILE @ ''.tmp-'' @ i]) q"
  shows "keeps q (commit_record d l ph)"
  using keeps_commit_file [OF assms] unfolding keeps_def commit_record_file by blast

lemma commit_record_gens: "keeps (generation_dir d g @ x) (commit_record d l ph)"
  by (rule keep_rules) auto

lemma commit_record_gen: "keeps (generation_dir d g) (commit_record d l ph)"
  using commit_record_gens [of d g "[]"] by simp

lemma commit_record_atomic:
  assumes "commit_record d l ph e s = (r, s')"
  shows "lookup (fs s') (state_path d) \<in>
      {lookup (fs s) (state_path d), Some (Reg (enc_record (codec e) (new_record l ph) @ [CHR 0x0A]) True)}"
    and "r = Ok u \<Longrightarrow>
      lookup (fs s') (state_path d) = Some (Reg (enc_record (codec e) (new_record l ph) @ [CHR 0x0A]) True)"
  using commit_file_atomic [of d STATE_FILE] assms unfolding commit_record_file by blast+

lemma disk_record_committed:
  assumes "lookup t (state_path d) = Some (Reg (enc_record C (new_record l ph) @ [CHR 0x0A]) b)"
    "codec_ok C" "record_ids_ok (new_record l ph)"
  shows "disk_record C d t = Some (new_record l ph)"
  using assms codec_record [OF assms(2,3)] by (simp add: disk_record_def)

lemma commit_record_disk:
  assumes "commit_record d l ph e s = (r, s')" "codec_ok (codec e)" "record_ids_ok (new_record l ph)"
  shows "disk_record (codec e) d (fs s') \<in> {disk_record (codec e) d (fs s), Some (new_record l ph)}"
    and "r = Ok u \<Longrightarrow> disk_record (codec e) d (fs s') = Some (new_record l ph)"
  using commit_record_atomic [OF assms(1)] disk_record_committed [OF _ assms(2,3)]
    disk_record_cong [of "fs s'" d "fs s" "codec e"]
  by auto

definition names_ok :: "codec \<Rightarrow> path \<Rightarrow> gen_id option \<Rightarrow> Phase \<Rightarrow> node \<Rightarrow> bool" where
  "names_ok C d l ph t \<longleftrightarrow>
     phase_ids_ok ph \<and> (case l of None \<Rightarrow> True | Some g \<Rightarrow> complete_gen C d t g \<noteq> None)"

lemma names_ok_ids: "names_ok C d l ph t \<Longrightarrow> record_ids_ok (new_record l ph)"
  by (auto simp: names_ok_def record_ids_ok_def split: option.splits dest: complete_gen_valid)

lemma commit_record_inv:
  assumes m: "commit_record d l ph e s = (r, s')" and i: "sound d e (fs s)"
    and n: "names_ok (codec e) d l ph (fs s)"
  shows "sound d e (fs s')"
proof -
  have gens: "lookup (fs s') (generation_dir d g) = lookup (fs s) (generation_dir d g)" for g
    by (rule keepsD [OF commit_record_gen m])
  then have cg: "complete_gen (codec e) d (fs s') g = complete_gen (codec e) d (fs s) g" for g
    by (rule complete_gen_cong)
  have "sealed d (fs s')" using i gens by (simp add: store_inv_def sealed_def)
  moreover have "record_sound (codec e) d (fs s')"
  proof (cases "lookup (fs s') (state_path d) = lookup (fs s) (state_path d)")
    case True
    then show ?thesis using i unfolding store_inv_def record_sound_iff
      by (simp add: cg disk_record_cong [OF True])
  next
    case False
    with commit_record_atomic(1) [OF m] have f: "lookup (fs s') (state_path d) =
        Some (Reg (enc_record (codec e) (new_record l ph) @ [CHR 0x0A]) True)" by auto
    with i have "disk_record (codec e) d (fs s') = Some (new_record l ph)"
      by (intro disk_record_committed [OF f]) (auto intro: names_ok_ids [OF n])
    with f n show ?thesis
      unfolding record_sound_iff names_ok_def by (auto simp: cg)
  qed
  ultimately show ?thesis using i by (simp add: store_inv_def)
qed

lemma triple_commit_record:
  "triple (\<lambda>e t. sound d e t \<and> names_ok (codec e) d l ph t) (commit_record d l ph)
     (\<lambda>_ e t. sound d e t \<and> disk_record (codec e) d t = Some (new_record l ph)) (sound d)"
proof (rule tripleI, goal_cases)
  case (1 e s x s')
  then have "record_ids_ok (new_record l ph)" by (blast intro: names_ok_ids)
  with 1 commit_record_inv [OF 1(1)] commit_record_disk(2) [OF 1(1)] show ?case by blast
next
  case (2 e s r s')
  with commit_record_inv [OF 2(1)] show ?case by blast
qed

subsection \<open>Collecting garbage\<close>

lemma gc_inv:
  assumes m: "collect_garbage d e s = (r, s')" and i: "sound d e (fs s)"
  shows "sound d e (fs s')"
proof -
  have "sealed d (fs s')" unfolding sealed_def
  proof (intro allI impI)
    fix g n
    assume g: "valid_component g" "lookup (fs s') (generation_dir d g) = Some n"
    with gc_never_alters [OF m g(1)] have "lookup (fs s) (generation_dir d g) = Some n" by auto
    with i g(1) show "all_synced n" by (auto simp: store_inv_def sealed_def)
  qed
  moreover have "keeps (state_path d) (collect_garbage d)" by (intro keep_rules) auto
  then have f: "lookup (fs s') (state_path d) = lookup (fs s) (state_path d)" using m by (rule keepsD)
  have "record_sound (codec e) d (fs s')"
  proof (cases "lookup (fs s) (state_path d)")
    case None
    then show ?thesis using f by (simp add: record_sound_iff)
  next
    case (Some n)
    with i obtain rec where rec: "disk_record (codec e) d (fs s) = Some rec" and n: "all_synced n"
      and l: "\<And>g. latest rec = Some g \<Longrightarrow> complete_gen (codec e) d (fs s) g \<noteq> None"
      unfolding store_inv_def record_sound_iff by auto
    have "complete_gen (codec e) d (fs s') g \<noteq> None" if "latest rec = Some g" for g
      using l [OF that] gc_keeps_latest [OF m rec that] complete_gen_cong by metis
    with rec f Some n gc_record [OF m] show ?thesis unfolding record_sound_iff by simp
  qed
  ultimately show ?thesis using i by (simp add: store_inv_def)
qed

lemma triple_gc [hoare_rules]: "triple (sound d) (collect_garbage d) (\<lambda>_. sound d) (sound d)"
  using gc_inv by (intro tripleI) blast+

end
