(* ===== verification/StorePublish.thy ===== *)
theory StorePublish
  imports StoreSafe
begin

text \<open>
  Publishing a generation: a staging directory becomes a complete, durable generation in one
  rename, with the bytes that were staged.
\<close>

definition staging_ok :: "path \<Rightarrow> Staging \<Rightarrow> bool" where
  "staging_ok d st \<longleftrightarrow>
     valid_component (st_id st) \<and> st_dir st = generation_dir d (STAGING_PREFIX @ st_id st)"

definition link_ids_ok :: "gen_id option \<Rightarrow> Origin \<Rightarrow> bool" where
  "link_ids_ok par orig \<longleftrightarrow>
     (case par of None \<Rightarrow> True | Some g \<Rightarrow> valid_component g) \<and>
     (case origin_run orig of None \<Rightarrow> True | Some r \<Rightarrow> valid_component r)"

subsection \<open>The file list\<close>

lemma staged_files_sorted:
  "sorted (map fst acc) \<and> distinct (map fst acc) \<Longrightarrow>
   sorted (map fst (staged_files acc es)) \<and> distinct (map fst (staged_files acc es))"
  by (induction acc es rule: staged_files.induct) (auto simp: bt_insert_sorted split: node.splits)

lemma staged_files_map:
  "distinct (map fst es) \<Longrightarrow>
   map_of (staged_files acc es) k =
     (case map_of es k of
        Some (Reg c b) \<Rightarrow> if k \<noteq> MANIFEST \<and> k \<noteq> PIN then Some (length c) else map_of acc k
      | _ \<Rightarrow> map_of acc k)"
proof (induction acc es rule: staged_files.induct)
  case (2 files j n es)
  then have "map_of es j = None" by (simp add: map_of_eq_None_iff)
  with 2 show ?case by (cases "k = j"; cases n) (simp_all split: option.split node.split)
qed simp

lemma staged_files_iff:
  assumes "distinct (map fst es)"
  shows "(k, len) \<in> set (staged_files [] es) \<longleftrightarrow>
     k \<noteq> MANIFEST \<and> k \<noteq> PIN \<and> (\<exists>c b. map_of es k = Some (Reg c b) \<and> len = length c)"
proof -
  have "distinct (map fst (staged_files [] es))" using staged_files_sorted [of "[]" es] by simp
  then have "(k, len) \<in> set (staged_files [] es) \<longleftrightarrow> map_of (staged_files [] es) k = Some len"
    by simp
  then show ?thesis using staged_files_map [OF assms, of "[]" k]
    by (auto split: option.splits node.splits if_splits)
qed

subsection \<open>The steps of publishing\<close>

lemma write_file_Ok:
  assumes "write_file (p @ [k]) c e s = (Ok u, s')"
  shows "lookup (fs s') (p @ [k]) = Some (Reg c False)"
  using assms unfolding write_file_def
  by (elim call_OkE) (auto simp: plant_def lookup_put_same split: if_splits)

definition published_manifest ::
    "Staging \<Rightarrow> gen_id option \<Rightarrow> Origin \<Rightarrow> nat \<Rightarrow> dir \<Rightarrow> Manifest" where
  "published_manifest st par orig now es =
     \<lparr>m_version = MANIFEST_VERSION, m_id = st_id st, m_parent = par, m_origin = orig,
      m_created_unix_nanos = now mod 2 ^ 64, m_files = staged_files [] es\<rparr>"

text \<open>What the staging directory holds once the manifest is written.\<close>

definition staged :: "codec \<Rightarrow> Staging \<Rightarrow> Manifest \<Rightarrow> node \<Rightarrow> bool" where
  "staged C st m t \<longleftrightarrow>
     (\<exists>c b. lookup t (st_dir st @ [MANIFEST]) = Some (Reg c b) \<and> parse_manifest C c = Some m) \<and>
     m_id m = st_id st \<and> bt_contains_key (m_files m) ROOTFS \<and>
     (\<forall>k len. (k, len) \<in> set (m_files m) \<longrightarrow>
        (\<exists>c b. lookup t (st_dir st @ [k]) = Some (Reg c b) \<and> length c = len))"

lemma staged_gen_manifest:
  assumes "staged C st m t" "lookup t (st_dir st) = Some n"
  shows "gen_manifest C (st_id st) n = Some m"
  using assms
  by (fastforce simp: staged_def gen_manifest_iff manifest_ok_def list_all_iff file_ok_def lookup_append_Some)

lemma staged_view:
  assumes "staged C st m t" "\<And>k. k = MANIFEST \<or> k \<in> fst ` set (m_files m) \<Longrightarrow>
     view t' (st_dir st @ [k]) = view t (st_dir st @ [k])"
  shows "staged C st m t'"
proof -
  have fl: "\<exists>b. lookup t' (st_dir st @ [k]) = Some (Reg c b)"
    if "lookup t (st_dir st @ [k]) = Some (Reg c b)" "k = MANIFEST \<or> k \<in> fst ` set (m_files m)" for k c b
    using assms(2) [OF that(2)] that(1)
    by (cases "lookup t' (st_dir st @ [k])" rule: datum_of.cases) (auto simp: view_def)
  from assms(1) obtain c b where "lookup t (st_dir st @ [MANIFEST]) = Some (Reg c b)"
    "parse_manifest C c = Some m" by (auto simp: staged_def)
  with fl [of MANIFEST] have 1: "\<exists>c b. lookup t' (st_dir st @ [MANIFEST]) = Some (Reg c b) \<and>
      parse_manifest C c = Some m" by blast
  have 2: "\<exists>c b. lookup t' (st_dir st @ [k]) = Some (Reg c b) \<and> length c = len"
    if k: "(k, len) \<in> set (m_files m)" for k len
  proof -
    from assms(1) k obtain c b where "lookup t (st_dir st @ [k]) = Some (Reg c b)" "length c = len"
      unfolding staged_def by blast
    moreover have "k \<in> fst ` set (m_files m)" using k by force
    ultimately show ?thesis using fl by blast
  qed
  from assms(1) 1 2 show ?thesis unfolding staged_def by blast
qed

lemma quiet_staging:
  assumes "staging_ok d st" "\<And>q. apart (st_dir st) q \<Longrightarrow> keeps q m"
  shows "quiet d m"
  by (rule quietI) (use assms in \<open>auto simp: staging_ok_def\<close>)

lemma publish_manifest_step:
  assumes "write_file (st_dir st @ [MANIFEST]) (enc_manifest C m @ [CHR 0x0A]) e s = (Ok u, s')"
    "codec_ok C" "manifest_ids_ok m" "m = published_manifest st par orig now es"
    "lookup (fs s) (st_dir st) = Some (Sub es')" "map_of es' = map_of es" "distinct (map fst es)"
    "bt_contains_key (staged_files [] es) ROOTFS"
  shows "staged C st m (fs s')"
proof -
  have w: "lookup (fs s') (st_dir st @ [MANIFEST]) = Some (Reg (enc_manifest C m @ [CHR 0x0A]) False)"
    using assms(1) by (rule write_file_Ok)
  have "\<exists>c b. lookup (fs s') (st_dir st @ [k]) = Some (Reg c b) \<and> length c = len"
    if "(k, len) \<in> set (m_files m)" for k len
  proof -
    from that have k: "k \<noteq> MANIFEST" "\<exists>c b. map_of es k = Some (Reg c b) \<and> len = length c"
      using staged_files_iff [OF assms(7)] by (auto simp: assms(4) published_manifest_def)
    then have "apart (st_dir st @ [MANIFEST]) (st_dir st @ [k])" by simp
    then have "lookup (fs s') (st_dir st @ [k]) = lookup (fs s) (st_dir st @ [k])"
      by (rule keepsD [OF keeps_write_file assms(1)])
    with k(2) assms(5,6) show ?thesis by (auto simp: lookup_append_Some)
  qed
  then show ?thesis using w codec_manifest [OF assms(2,3)] assms(4,8)
    unfolding staged_def by (auto simp: published_manifest_def)
qed

lemma publish_pin_step:
  assumes "write_file (st_dir st @ [PIN]) [] e s = (Ok u, s')" "staged C st m (fs s)"
    "m = published_manifest st par orig now es" "distinct (map fst es)"
  shows "staged C st m (fs s')"
  using assms(2)
proof (rule staged_view)
  fix k
  assume "k = MANIFEST \<or> k \<in> fst ` set (m_files m)"
  then have "k \<noteq> PIN" using staged_files_iff [OF assms(4)] by (auto simp: assms(3) published_manifest_def)
  then have "apart (st_dir st @ [PIN]) (st_dir st @ [k])" by simp
  then show "view (fs s') (st_dir st @ [k]) = view (fs s) (st_dir st @ [k])"
    using keepsD [OF keeps_write_file assms(1)] by (simp add: view_def)
qed

lemma publish_rename_step:
  assumes "rename (st_dir st) (generation_dir d (st_id st)) e s = (Ok u, s')" "sound d e (fs s)"
    "staging_ok d st" "staged (codec e) st m (fs s)" "lookup (fs s) (st_dir st) = Some n" "all_synced n"
  shows "sound d e (fs s')" "complete_gen (codec e) d (fs s') (st_id st) = Some m"
    "lookup (fs s') (generation_dir d (st_id st)) = Some n"
proof -
  have ne: "st_dir st \<noteq> (d @ [GENERATIONS_DIR]) @ [st_id st]" using assms(3) by (auto simp: staging_ok_def)
  show here: "lookup (fs s') (generation_dir d (st_id st)) = Some n"
    using rename_Ok(1) [of _ "d @ [GENERATIONS_DIR]" "st_id st", OF _ assms(5) ne] assms(1) by simp
  show cg: "complete_gen (codec e) d (fs s') (st_id st) = Some m"
    using here staged_gen_manifest [OF assms(4,5)] by (simp add: complete_gen_def)
  have other: "lookup (fs s') q = lookup (fs s) q"
    if "apart (st_dir st) q" "apart (generation_dir d (st_id st)) q" for q
    using that by (rule keepsD [OF keeps_rename assms(1)])
  have gens: "lookup (fs s') (generation_dir d g) = lookup (fs s) (generation_dir d g)"
    if "valid_component g" "g \<noteq> st_id st" for g
    using that assms(3) by (intro other) (auto simp: staging_ok_def)
  have state: "lookup (fs s') (state_path d) = lookup (fs s) (state_path d)"
    using assms(3) by (intro other) (auto simp: staging_ok_def)
  have "sealed d (fs s')" unfolding sealed_def
  proof (intro allI impI)
    fix g n'
    assume "valid_component g" "lookup (fs s') (generation_dir d g) = Some n'"
    then show "all_synced n'" using assms(2,6) here gens [of g]
      by (cases "g = st_id st") (auto simp: store_inv_def sealed_def)
  qed
  moreover have "complete_gen (codec e) d (fs s') g \<noteq> None"
    if "complete_gen (codec e) d (fs s) g \<noteq> None" for g
  proof (cases "g = st_id st")
    case False
    from that have "valid_component g" by (auto dest: complete_gen_valid)
    with False gens that complete_gen_cong show ?thesis by metis
  qed (simp add: cg)
  then have "record_sound (codec e) d (fs s')"
    using assms(2) unfolding store_inv_def record_sound_iff
    by (auto simp: state disk_record_cong [OF state])
  ultimately show "sound d e (fs s')" using assms(2) by (simp add: store_inv_def)
qed

subsection \<open>The whole operation\<close>

definition prepare :: "Staging \<Rightarrow> gen_id option \<Rightarrow> Origin \<Rightarrow> unit M" where
  "prepare st par orig =
     bind (read_dir (st_dir st)) (\<lambda>es.
     if \<not> bt_contains_key (staged_files [] es) ROOTFS then raise (Bail ''staged generation has no rootfs'')
     else
       bind read_clock (\<lambda>now.
       bind (ask codec) (\<lambda>C.
       bind (write_file (st_dir st @ [MANIFEST])
              (enc_manifest C (published_manifest st par orig now es) @ [CHR 0x0A])) (\<lambda>_.
       bind (write_file (st_dir st @ [PIN]) []) (\<lambda>_.
       sync_tree (st_dir st))))))"

lemma bind_assoc: "bind (bind a f) g = bind a (\<lambda>x. bind (f x) g)"
  by (rule ext)+ (auto simp: bind_def split: prod.splits res.splits)

lemma bind_if: "bind (if b then m else n) f = (if b then bind m f else bind n f)"
  by simp

lemma bind_raise: "bind (raise x) f = raise x"
  by (rule ext)+ (simp add: bind_def raise_def)

lemma publish_prepare:
  "publish d st par orig =
     bind (prepare st par orig) (\<lambda>_.
     bind (rename (st_dir st) (generation_dir d (st_id st))) (\<lambda>_.
     bind (sync_dir (generations_dir d)) (\<lambda>_. ret (st_id st))))"
  by (simp only: publish_def prepare_def published_manifest_def Let_def bind_assoc bind_if bind_raise)

lemma keeps_prepare: "apart (st_dir st) q \<Longrightarrow> keeps q (prepare st par orig)"
  unfolding prepare_def by (intro keep_rules) (auto intro: apart_append1)

definition carried :: "path \<Rightarrow> bool" where
  "carried q \<longleftrightarrow> (case q of [] \<Rightarrow> False | k # _ \<Rightarrow> k \<noteq> MANIFEST \<and> k \<noteq> PIN)"

lemma prepare_Ok:
  assumes "prepare st par orig e s = (Ok u, s')" "codec_ok (codec e)" "link_ids_ok par orig"
    "valid_component (st_id st)"
  obtains m n es where "staged (codec e) st m (fs s')" "lookup (fs s') (st_dir st) = Some n" "all_synced n"
    "m_parent m = par" "m_origin m = orig" "m_files m = staged_files [] es" "distinct (map fst es)"
    "\<And>k. map_of es k = lookup (fs s) (st_dir st @ [k])"
    "\<And>q. carried q \<Longrightarrow> view (fs s') (st_dir st @ q) = view (fs s) (st_dir st @ q)"
proof -
  from assms(1) obtain es s1 now u4 s4 u5 s5 where
    1: "read_dir (st_dir st) e s = (Ok es, s1)" and
    root: "bt_contains_key (staged_files [] es) ROOTFS" and
    4: "write_file (st_dir st @ [MANIFEST])
       (enc_manifest (codec e) (published_manifest st par orig now es) @ [CHR 0x0A]) e s1 = (Ok u4, s4)" and
    5: "write_file (st_dir st @ [PIN]) [] e s4 = (Ok u5, s5)" and
    6: "sync_tree (st_dir st) e s5 = (Ok u, s')"
    unfolding prepare_def by (auto elim!: bind_OkE simp: read_clock_def split: if_splits)
  define m where "m = published_manifest st par orig now es"
  from read_dir_Ok [OF 1] obtain es' where es': "lookup (fs s) (st_dir st) = Some (Sub es')"
    "map_of es' = map_of es" "distinct (map fst es)" by blast
  have fs1: "fs s1 = fs s" using 1 by (rule readonlyD [rotated]) (rule read_rules)
  have ids: "manifest_ids_ok m" using assms(3,4)
    by (simp add: m_def published_manifest_def manifest_ids_ok_def link_ids_ok_def)
  have s4: "staged (codec e) st m (fs s4)"
    by (rule publish_manifest_step [OF 4 [folded m_def] assms(2) ids m_def _ es'(2,3) root])
      (simp add: fs1 es')
  have s5: "staged (codec e) st m (fs s5)" by (rule publish_pin_step [OF 5 s4 m_def es'(3)])
  from sync_tree_synced [OF 6] obtain n where n: "lookup (fs s') (st_dir st) = Some n" "all_synced n"
    and v: "\<And>q. view (fs s') q = view (fs s5) q" by metis
  have s6: "staged (codec e) st m (fs s')" using s5 by (rule staged_view) (simp add: v)
  have carried: "view (fs s') (st_dir st @ q) = view (fs s) (st_dir st @ q)" if "carried q" for q
  proof -
    from that obtain k r where q: "q = k # r" "k \<noteq> MANIFEST" "k \<noteq> PIN"
      by (auto simp: carried_def split: list.splits)
    have "lookup (fs s4) (st_dir st @ q) = lookup (fs s1) (st_dir st @ q)"
      by (rule keepsD [OF keeps_write_file 4]) (use q in simp)
    moreover have "lookup (fs s5) (st_dir st @ q) = lookup (fs s4) (st_dir st @ q)"
      by (rule keepsD [OF keeps_write_file 5]) (use q in simp)
    ultimately show ?thesis using v [of "st_dir st @ q"] fs1 by (simp add: view_def)
  qed
  have look: "map_of es k = lookup (fs s) (st_dir st @ [k])" for k
    using es' by (simp add: lookup_append_Some split: option.splits)
  show ?thesis
    by (rule that [OF s6 n _ _ _ es'(3) look carried])
      (simp_all add: m_def published_manifest_def)
qed

lemma publish_Ok:
  assumes "publish d st par orig e s = (Ok g, s')" "sound d e (fs s)" "staging_ok d st" "link_ids_ok par orig"
  obtains m es where "g = st_id st" "sound d e (fs s')" "complete_gen (codec e) d (fs s') g = Some m"
    "m_parent m = par" "m_origin m = orig" "m_files m = staged_files [] es" "distinct (map fst es)"
    "\<And>k. map_of es k = lookup (fs s) (st_dir st @ [k])"
    "\<And>q. carried q \<Longrightarrow> view (fs s') (generation_dir d g @ q) = view (fs s) (st_dir st @ q)"
proof -
  from assms(1) obtain u1 s1 where 1: "prepare st par orig e s = (Ok u1, s1)"
    and r1: "bind (rename (st_dir st) (generation_dir d (st_id st))) (\<lambda>_.
       bind (sync_dir (generations_dir d)) (\<lambda>_. ret (st_id st))) e s1 = (Ok g, s')"
    unfolding publish_prepare by (rule bind_OkE)
  from r1 obtain u2 s2 where 2: "rename (st_dir st) (generation_dir d (st_id st)) e s1 = (Ok u2, s2)"
    and r2: "bind (sync_dir (generations_dir d)) (\<lambda>_. ret (st_id st)) e s2 = (Ok g, s')"
    by (rule bind_OkE)
  from r2 obtain u3 s3 where 3: "sync_dir (generations_dir d) e s2 = (Ok u3, s')" and g: "g = st_id st"
    by (rule bind_OkE) simp
  have fs: "fs s' = fs s2" using 3 by (rule readonlyD [rotated]) (rule read_rules)
  have v: "valid_component (st_id st)" using assms(3) by (simp add: staging_ok_def)
  have q: "quiet d (prepare st par orig)" using assms(3) keeps_prepare by (rule quiet_staging)
  have i1: "sound d e (fs s1)" using same_store_inv [OF quietD [OF q 1]] assms(2) by simp
  from assms(2) have C: "codec_ok (codec e)" by simp
  obtain m n es where p:
    "staged (codec e) st m (fs s1)" "lookup (fs s1) (st_dir st) = Some n" "all_synced n"
    "m_parent m = par" "m_origin m = orig" "m_files m = staged_files [] es" "distinct (map fst es)"
    "\<And>k. map_of es k = lookup (fs s) (st_dir st @ [k])"
    "\<And>q. carried q \<Longrightarrow> view (fs s1) (st_dir st @ q) = view (fs s) (st_dir st @ q)"
    by (rule prepare_Ok [OF 1 C assms(4) v]) (rule that)
  note r = publish_rename_step [OF 2 i1 assms(3) p(1,2,3), folded fs g]
  have "view (fs s') (generation_dir d g @ q) = view (fs s) (st_dir st @ q)" if "carried q" for q
    using p(9) [OF that] datum_of_below [OF p(2), of q] datum_of_below [OF r(3), of q] by (simp only:)
  then show ?thesis by (rule that [OF g r(1,2) p(4-8)])
qed

lemma publish_fail:
  assumes "publish d st par orig e s = (r, s')" "sound d e (fs s)" "staging_ok d st" "link_ids_ok par orig"
    "\<And>x. r \<noteq> Ok x"
  shows "sound d e (fs s')"
proof -
  have q: "quiet d (prepare st par orig)" using assms(3) keeps_prepare by (rule quiet_staging)
  have i1: "sound d e (fs s1)" if "prepare st par orig e s = (x, s1)" for x s1
    using same_store_inv [OF quietD [OF q that]] assms(2) by simp
  from assms(1) show ?thesis unfolding publish_prepare
  proof (cases rule: bind_cases)
    case (step u1 s1)
    from assms(2,3) have C: "codec_ok (codec e)" "valid_component (st_id st)" by (simp_all add: staging_ok_def)
    obtain m n where p:
      "staged (codec e) st m (fs s1)" "lookup (fs s1) (st_dir st) = Some n" "all_synced n"
      by (rule prepare_Ok [OF step(1) C(1) assms(4) C(2)]) (rule that)
    from step(2) show ?thesis
    proof (cases rule: bind_cases)
      case 2: (step u2 s2)
      have ro: "readonly (bind (sync_dir (generations_dir d)) (\<lambda>_. ret (st_id st)))" by (intro read_rules)
      have "sound d e (fs s2)" by (rule publish_rename_step [OF 2(1) i1 [OF step(1)] assms(3) p])
      with readonlyD [OF ro 2(2)] show ?thesis by simp
    next
      case (err x)
      then have "fs s' = fs s1" by (auto dest: rename_fail)
      with i1 [OF step(1)] show ?thesis by simp
    next
      case kill
      then have "fs s' = fs s1" by (auto dest: rename_fail)
      with i1 [OF step(1)] show ?thesis by simp
    qed
  qed (use i1 in blast)+
qed

end
