(* ===== verification/StoreOps.thy ===== *)
theory StoreOps
  imports StorePublish
begin

text \<open>
  Every operation of the store keeps the safety invariant, whatever fails and wherever the
  process is killed; so every reachable state of the store has it.
\<close>

subsection \<open>Triples of the building blocks\<close>

lemma triple_pre: "triple P m Q E \<Longrightarrow> (\<And>e t. P' e t \<Longrightarrow> P e t) \<Longrightarrow> triple P' m Q E"
  by (rule triple_weaken)

lemma triple_then:
  assumes "triple P m (\<lambda>_. E) E" "\<And>e t. P' e t \<Longrightarrow> P e t"
  shows "triple P' (bind m (\<lambda>_. ret x)) (\<lambda>_. E) E"
  by (rule triple_bind [OF triple_pre [OF assms]]) (auto intro: triple_ret)

lemma bind_ret: "bind m ret = m"
  by (rule ext)+ (auto simp: bind_def ret_def split: prod.splits res.splits)

lemma triple_require:
  assumes "\<And>e t. P e t \<Longrightarrow> E e t"
  shows "triple P (require_record d) (\<lambda>r e t. P e t \<and> disk_record (codec e) d t = Some r) E"
  by (rule triple_readonly) (auto intro: read_rules assms dest: require_record_Ok(1))

lemma triple_generation:
  assumes "\<And>e t. P e t \<Longrightarrow> E e t"
  shows "triple P (generation d g)
    (\<lambda>x e t. P e t \<and> complete_gen (codec e) d t g = Some (g_manifest x) \<and> g_dir x = generation_dir d g) E"
  by (rule triple_readonly) (auto intro: read_rules assms dest: generation_Ok)

lemma triple_reading:
  assumes "readonly m" "\<And>e t. P e t \<Longrightarrow> E e t"
  shows "triple P m (\<lambda>_. P) E"
  by (rule triple_readonly) (use assms in auto)

lemma triple_quiet_result:
  assumes "quiet d m" "\<And>e t t'. same_store d t t' \<Longrightarrow> P e t \<Longrightarrow> P e t'" "\<And>e t. P e t \<Longrightarrow> E e t"
    "\<And>e s x s'. m e s = (Ok x, s') \<Longrightarrow> R x"
  shows "triple P m (\<lambda>x e t. P e t \<and> R x) E"
  using assms quietD [OF assms(1)] by (intro tripleI) blast+

definition knows :: "path \<Rightarrow> Record \<Rightarrow> env \<Rightarrow> node \<Rightarrow> bool" where
  "knows d r e t \<longleftrightarrow> sound d e t \<and> disk_record (codec e) d t = Some r"

lemma knows_sound: "knows d r e t \<Longrightarrow> sound d e t"
  by (simp add: knows_def)

lemma knows_same: "same_store d t t' \<Longrightarrow> knows d r e t \<Longrightarrow> knows d r e t'"
  by (simp add: knows_def same_store_inv same_store_record)

lemma knows_latest:
  assumes "knows d r e t" "phase_ids_ok ph"
  shows "names_ok (codec e) d (latest r) ph t"
proof -
  from assms have "record_sound (codec e) d t" "disk_record (codec e) d t = Some r"
    by (auto simp: knows_def store_inv_def)
  moreover from this(2) obtain n where "lookup t (state_path d) = Some n"
    by (auto simp: disk_record_def split: option.splits)
  ultimately show ?thesis using assms(2)
    by (auto simp: record_sound_iff names_ok_def split: option.splits)
qed

lemma triple_knows: "triple (sound d) (require_record d) (\<lambda>r. knows d r) (sound d)"
  by (rule triple_weaken [OF triple_require [of "sound d" "sound d"]]) (auto simp: knows_def)

lemma triple_knows_quiet:
  "quiet d m \<Longrightarrow> triple (knows d r) m (\<lambda>_. knows d r) (sound d)"
  by (rule triple_quiet) (auto intro: knows_same simp: knows_sound)

lemma triple_commit_known:
  assumes "phase_ids_ok ph"
  shows "triple (knows d r) (commit_record d (latest r) ph) (\<lambda>_. sound d) (sound d)"
  by (rule triple_weaken [OF triple_commit_record [of d "latest r" ph]])
    (auto simp: knows_sound knows_latest [OF _ assms])

lemma quiet_stage: "quiet d (stage d)"
  by (rule quietI) (auto simp: stage_def Let_def intro!: keep_rules)

lemma stage_Ok: "stage d e s = (Ok st, s') \<Longrightarrow> staging_ok d st"
  unfolding stage_def Let_def fresh_id_def
  by (auto simp: bind_def staging_ok_def new_id_valid ret_def split: prod.splits res.splits)

lemma triple_stage:
  assumes "\<And>e t t'. same_store d t t' \<Longrightarrow> P e t \<Longrightarrow> P e t'" "\<And>e t. P e t \<Longrightarrow> E e t"
  shows "triple P (stage d) (\<lambda>st e t. P e t \<and> staging_ok d st) E"
  by (rule triple_quiet_result [OF quiet_stage assms]) (auto dest: stage_Ok)

lemma triple_publish:
  assumes "staging_ok d st" "link_ids_ok par orig"
  shows "triple (sound d) (publish d st par orig)
    (\<lambda>g e t. sound d e t \<and> complete_gen (codec e) d t g \<noteq> None) (sound d)"
proof (rule tripleI, goal_cases)
  case (1 e s g s')
  show ?case by (rule publish_Ok [OF 1(1,2) assms]) simp
next
  case (2 e s r s')
  then show ?case by (intro publish_fail [OF 2(1,2) assms])
qed

lemma triple_commit_latest:
  "triple (sound d) (commit_latest d g) (\<lambda>_. sound d) (sound d)"
  unfolding commit_latest_def
proof (rule triple_bind [OF triple_generation], goal_cases)
  case (2 x)
  show ?case
    by (rule triple_bind [OF triple_pre [OF triple_commit_record]])
      (auto simp: names_ok_def phase_ids_ok_def intro!: triple_then [OF triple_gc])
qed

lemma triple_finish:
  assumes "\<And>e t. P e t \<Longrightarrow> sound d e t"
  shows "triple P (bind (commit_latest d g) (\<lambda>_. ret x)) (\<lambda>_. sound d) (sound d)"
  by (rule triple_then [OF triple_commit_latest]) (rule assms)

subsection \<open>Committing and recovering\<close>

lemma triple_initialize:
  assumes "staging_ok d st"
  shows "triple (sound d) (initialize d st) (\<lambda>_. sound d) (sound d)"
proof -
  have l: "link_ids_ok None Image" by (simp add: link_ids_ok_def)
  show ?thesis unfolding initialize_def
    by (intro triple_bind [OF triple_reading] triple_if triple_raise triple_bind [OF triple_publish [OF assms l]]
        triple_bind [OF triple_pre [OF triple_commit_record]] triple_ret read_rules)
      (auto simp: names_ok_def phase_ids_ok_def)
qed

lemma attempt_Ok:
  assumes "attempt m e s = (Ok v, s')"
  shows "v = None \<or> (\<exists>x s'. v = Some x \<and> m e s = (Ok x, s'))"
  using assms unfolding attempt_def by (auto elim!: recover_with_OkE bind_OkE)

lemma folding_readonly_inv:
  assumes "folding f acc xs e s = (Ok r, s')" "\<And>a x. readonly (f a x)" "I acc"
    "\<And>a x s1 b s2. fs s1 = fs s \<Longrightarrow> x \<in> set xs \<Longrightarrow> f a x e s1 = (Ok b, s2) \<Longrightarrow> I a \<Longrightarrow> I b"
  shows "I r"
  using assms(1,3,4)
proof (induction xs arbitrary: acc s)
  case (Cons x xs)
  from Cons.prems(1) obtain b s1 where b: "f acc x e s = (Ok b, s1)" and r: "folding f b xs e s1 = (Ok r, s')"
    by (auto elim: bind_OkE)
  have fs1: "fs s1 = fs s" using b by (rule readonlyD [OF assms(2)])
  have "I b" using Cons.prems(3) [OF refl _ b] Cons.prems(2) by simp
  then show ?case
  proof (rule Cons.IH [OF r])
    fix a y s2 c s3
    assume "fs s2 = fs s1" "y \<in> set xs" "f a y e s2 = (Ok c, s3)" "I a"
    then show "I c" using Cons.prems(3) [of s2 y a c s3] fs1 by simp
  qed
qed simp

text \<open>The final generation recovery finds is complete and was the final snapshot of the run.\<close>

lemma final_generation_of_Ok:
  assumes "final_generation_of d run e s = (Ok (Some g), s')"
  shows "\<exists>m. complete_gen (codec e) d (fs s) g = Some m \<and> m_origin m = Snapshot run"
proof -
  define f where "f = (\<lambda>found g. bind (attempt (generation d g)) (\<lambda>x.
       ret (case x of None \<Rightarrow> found | Some x \<Rightarrow> if is_final_of run x then Some g else found)))"
  define I where "I a \<longleftrightarrow> (\<forall>g. a = Some g \<longrightarrow>
       (\<exists>m. complete_gen (codec e) d (fs s) g = Some m \<and> m_origin m = Snapshot run))" for a
  from assms obtain ids s1 where ids: "generation_ids d e s = (Ok ids, s1)"
    and f: "folding f None ids e s1 = (Ok (Some g), s')"
    unfolding final_generation_of_def f_def by (auto elim: bind_OkE)
  have fs1: "fs s1 = fs s" using ids by (rule readonlyD [rotated]) (rule read_rules)
  have ro: "readonly (f a x)" for a x unfolding f_def attempt_def by (intro read_rules)
  have step: "I b" if "fs s2 = fs s1" "f a x e s2 = (Ok b, s3)" "I a" for a x s2 b s3
    using that fs1 unfolding f_def
    by (auto elim!: bind_OkE dest!: attempt_Ok generation_Ok(1) simp: I_def is_final_of_def split: if_splits)
  have "I (Some g)"
    by (rule folding_readonly_inv [OF f ro, of I]) (simp add: I_def, rule step)
  then show ?thesis by (simp add: I_def)
qed

lemma triple_recover_run:
  assumes "phase_run (phase r) = Some run"
  shows "triple (knows d r) (recover_run d r run) (\<lambda>_. sound d) (sound d)"
proof -
  have final: "triple (knows d r) (final_generation_of d run)
      (\<lambda>x e t. knows d r e t \<and> (\<forall>g. x = Some g \<longrightarrow> complete_gen (codec e) d t g \<noteq> None)) (sound d)"
    by (rule triple_readonly) (auto intro: read_rules simp: knows_sound dest: final_generation_of_Ok)
  have fwd: "triple (\<lambda>e t. knows d r e t \<and> (\<forall>h. Some g = Some h \<longrightarrow> complete_gen (codec e) d t h \<noteq> None))
      (bind (commit_record d (Some g) Stopped) (\<lambda>_. ret x)) (\<lambda>_. sound d) (sound d)" for g x
    by (rule triple_bind [OF triple_pre [OF triple_commit_record]])
      (auto simp: names_ok_def phase_ids_ok_def knows_sound intro!: triple_ret)
  have bwd: "triple (knows d r) (bind (commit_record d (latest r) Stopped) (\<lambda>_. ret x)) (\<lambda>_. sound d) (sound d)" for x
    by (rule triple_then [OF triple_commit_known]) (simp_all add: phase_ids_ok_def)
  have crash: "triple (knows d r) (raise x) (\<lambda>_. sound d) (sound d)" for x
    by (rule triple_raise) (rule knows_sound)
  show ?thesis unfolding recover_run_def
  proof (rule triple_bind [OF final], goal_cases)
    case (1 x)
    show ?case
    proof (cases x)
      case None
      then show ?thesis by (auto intro!: triple_pre [OF bwd] triple_pre [OF crash] split: Phase.splits)
    next
      case (Some g)
      then show ?thesis using fwd by simp
    qed
  qed
qed

lemma triple_recover: "triple (sound d) (recover d) (\<lambda>_. sound d) (sound d)"
  unfolding recover_def
proof (rule triple_bind [OF triple_knows], goal_cases)
  case (1 r)
  have "triple (knows d r) (case phase_run (phase r) of None \<Rightarrow> ret Clean | Some run \<Rightarrow> recover_run d r run)
      (\<lambda>_. sound d) (sound d)"
    by (auto intro!: triple_recover_run triple_ret simp: knows_sound split: option.splits)
  then show ?case by (rule triple_bind) (auto intro!: triple_then [OF triple_gc])
qed

subsection \<open>Runs\<close>

lemma quiet_clone_base:
  assumes "\<And>q. q \<in> protected d \<Longrightarrow> apart dst q"
  shows "quiet d (clone_base g dst)"
  unfolding quiet_def clone_base_def clone_files_def clone_shares_def
  by (auto intro!: keep_rules apart_append1 assms)

lemma protected_apart_run [simp]: "q \<in> protected d \<Longrightarrow> apart (run_dir d i) q"
  by (auto simp: protected_def)

lemma protected_apart_staging: "staging_ok d st \<Longrightarrow> q \<in> protected d \<Longrightarrow> apart (st_dir st) q"
  by (auto simp: protected_def staging_ok_def)

lemma quiet_fill_run:
  "quiet d (bind (create_dir_all (run_dir d i)) (\<lambda>_.
     bind (case b of None \<Rightarrow> ret () | Some g \<Rightarrow> clone_base g (run_dir d i)) (\<lambda>_.
     bind (sync_tree (run_dir d i)) (\<lambda>_.
     bind (sync_dir (runs_dir d)) (\<lambda>_. ask process)))))"
  unfolding quiet_def
  by (auto intro!: keep_rules quiet_clone_base [unfolded quiet_def, rule_format] split: option.splits)
    (auto simp: protected_def)

lemma triple_begin_run: "triple (sound d) (begin_run d from_gen) (\<lambda>_. sound d) (sound d)"
  unfolding begin_run_def
proof (rule triple_bind [OF triple_knows], goal_cases)
  case (1 r)
  let ?base = "case (case from_gen of Some g \<Rightarrow> Some g | None \<Rightarrow> latest r) of
      Some g \<Rightarrow> bind (generation d g) (\<lambda>x. ret (Some x)) | None \<Rightarrow> ret None"
  have base: "readonly ?base" by (auto intro!: read_rules split: option.splits)
  have fresh: "triple (knows d r) (fresh_id ''r'') (\<lambda>i e t. knows d r e t \<and> valid_component i) (sound d)"
    by (rule triple_readonly) (auto intro: read_rules simp: fresh_id_def new_id_valid knows_sound)
  have body: "triple (\<lambda>e t. knows d r e t \<and> valid_component i)
     (bind (bind (create_dir_all (run_dir d i)) (\<lambda>_.
       bind (case b of None \<Rightarrow> ret () | Some g \<Rightarrow> clone_base g (run_dir d i)) (\<lambda>_.
       bind (sync_tree (run_dir d i)) (\<lambda>_.
       bind (sync_dir (runs_dir d)) (\<lambda>_. ask process)))))
      (\<lambda>me. bind (commit_record d (latest r) (Running i me)) (\<lambda>_. ret (x i)))) (\<lambda>_. sound d) (sound d)" for i b x
  proof (rule triple_bind, rule triple_quiet [OF quiet_fill_run], goal_cases)
    case (3 me)
    show ?case
    proof (cases "valid_component i")
      case True
      then show ?thesis
        by (intro triple_then [OF triple_commit_known]) (auto simp: phase_ids_ok_def)
    qed (simp add: triple_def)
  qed (auto intro: knows_same simp: knows_sound)
  show ?case
    by (intro triple_if triple_raise triple_bind [OF triple_reading [OF base]] triple_bind [OF fresh])
      (auto intro: body [unfolded bind_assoc] simp: knows_sound)
qed

lemma disk_phase_ids: "disk_record C d t = Some r \<Longrightarrow> phase_ids_ok (phase r)"
  by (auto dest: disk_record_ids simp: record_ids_ok_def)

lemma triple_advance_latest: "triple (sound d) (advance_latest d run g) (\<lambda>_. sound d) (sound d)"
  unfolding advance_latest_def
proof (rule triple_bind [OF triple_generation], simp, rule triple_bind [OF triple_require], goal_cases)
  case (2 x r)
  show ?case
    by (intro triple_if triple_raise triple_weaken [OF triple_commit_record [of d "Some g" "phase r"]])
      (auto simp: names_ok_def disk_phase_ids)
qed simp

lemma triple_assuming: "(b \<Longrightarrow> triple P m Q E) \<Longrightarrow> triple (\<lambda>e t. P e t \<and> b) m Q E"
  by (cases b) (auto simp: triple_def)

lemma triple_known_phase:
  assumes "\<And>r. phase_ids_ok (phase r) \<Longrightarrow> triple (knows d r) (f r) (\<lambda>_. sound d) (sound d)"
  shows "triple (sound d) (bind (require_record d) f) (\<lambda>_. sound d) (sound d)"
proof (rule triple_bind [OF triple_knows])
  fix r :: Record
  have "triple (\<lambda>e t. knows d r e t \<and> phase_ids_ok (phase r)) (f r) (\<lambda>_. sound d) (sound d)"
    using assms by (rule triple_assuming)
  then show "triple (knows d r) (f r) (\<lambda>_. sound d) (sound d)"
    by (rule triple_pre) (auto simp: knows_def dest: disk_phase_ids)
qed

lemma triple_mark_dirty: "triple (sound d) (mark_dirty d run) (\<lambda>_. sound d) (sound d)"
  unfolding mark_dirty_def
  by (rule triple_known_phase)
    (auto simp: phase_ids_ok_def knows_sound intro!: triple_raise triple_ret triple_commit_known
      split: Phase.splits)

lemma triple_abandon_run: "triple (sound d) (abandon_run d run) (\<lambda>_. sound d) (sound d)"
  unfolding abandon_run_def
proof (rule triple_known_phase)
  fix r :: Record
  have "readonly (case phase r of
             Running current _ \<Rightarrow>
               if current = run then ret () else raise (Bail ''cannot abandon run'')
           | _ \<Rightarrow> raise (Bail ''cannot abandon run''))"
    by (auto intro!: read_rules split: Phase.splits)
  from triple_reading [OF this, of "knows d r" "sound d"]
  show "triple (knows d r) (bind (case phase r of
             Running current _ \<Rightarrow>
               if current = run then ret () else raise (Bail ''cannot abandon run'')
           | _ \<Rightarrow> raise (Bail ''cannot abandon run'')) (\<lambda>_.
     bind (commit_record d (latest r) Stopped) (\<lambda>_.
     bind (collect_garbage d) (\<lambda>_. ret ())))) (\<lambda>_. sound d) (sound d)"
    by (rule triple_bind [OF _ triple_bind [OF triple_commit_known]])
      (auto simp: phase_ids_ok_def knows_sound intro!: triple_then [OF triple_gc])
qed

lemma triple_discard_run: "triple (sound d) (discard_run d) (\<lambda>_. sound d) (sound d)"
  unfolding discard_run_def
proof (rule triple_known_phase)
  fix r :: Record
  have "triple (knows d r) (bind (commit_record d (latest r) Stopped) (\<lambda>_.
         bind (collect_garbage d) (\<lambda>_. ret run))) (\<lambda>_. sound d) (sound d)" for run
    by (rule triple_bind [OF triple_commit_known])
      (auto simp: phase_ids_ok_def intro!: triple_then [OF triple_gc])
  then show "triple (knows d r) (case phase r of
       Dirty run _ \<Rightarrow>
         bind (commit_record d (latest r) Stopped) (\<lambda>_.
         bind (collect_garbage d) (\<lambda>_. ret run))
     | _ \<Rightarrow> raise (Bail ''there is no crashed run to discard'')) (\<lambda>_. sound d) (sound d)"
    by (auto intro!: triple_raise simp: knows_sound split: Phase.splits)
qed

subsection \<open>Copies of generations\<close>

lemma triple_stage_fill_publish:
  assumes "\<And>st. staging_ok d st \<Longrightarrow> quiet d (fill st)" "link_ids_ok par orig"
    "\<And>g. triple (\<lambda>e t. sound d e t \<and> complete_gen (codec e) d t g \<noteq> None) (fin g) (\<lambda>_. sound d) (sound d)"
  shows "triple (sound d) (bind (stage d) (\<lambda>st. bind (fill st) (\<lambda>_. bind (publish d st par orig) fin)))
     (\<lambda>_. sound d) (sound d)"
proof (rule triple_bind [OF triple_stage [of d "sound d"]])
  fix st
  show "triple (\<lambda>e t. sound d e t \<and> staging_ok d st)
     (bind (fill st) (\<lambda>_. bind (publish d st par orig) fin)) (\<lambda>_. sound d) (sound d)"
  proof (rule triple_assuming)
    assume st: "staging_ok d st"
    show "triple (sound d) (bind (fill st) (\<lambda>_. bind (publish d st par orig) fin)) (\<lambda>_. sound d) (sound d)"
      by (intro triple_bind [OF triple_quiet_inv [OF assms(1) [OF st]]]
          triple_bind [OF triple_publish [OF st assms(2)]] assms(3))
  qed
qed (auto intro: same_store_inv)

lemma quiet_at_staging:
  "staging_ok d st \<Longrightarrow> (\<And>q. apart (st_dir st) q \<Longrightarrow> keeps q m) \<Longrightarrow> quiet d m"
  by (rule quiet_staging)

lemma keeps_import_entry [keep_rules]: "apart dst q \<Longrightarrow> keeps q (import_entry src dst kn)"
  unfolding import_entry_def Let_def
  by (cases "snd kn") (auto intro!: keep_rules apart_append1)

lemma triple_import_dir:
  assumes "link_ids_ok par orig"
  shows "triple (sound d) (import_dir d src par orig) (\<lambda>_. sound d) (sound d)"
proof -
  have "import_dir d src par orig =
     bind (stage d) (\<lambda>st.
     bind (bind (read_dir src) (\<lambda>es. each (import_entry src (st_dir st)) es)) (\<lambda>_.
     bind (publish d st par orig) ret))"
    unfolding import_dir_def bind_assoc by (simp add: bind_ret)
  moreover have "triple (sound d) (bind (stage d) (\<lambda>st.
     bind (bind (read_dir src) (\<lambda>es. each (import_entry src (st_dir st)) es)) (\<lambda>_.
     bind (publish d st par orig) ret))) (\<lambda>_. sound d) (sound d)"
    by (rule triple_stage_fill_publish)
      (auto intro!: quiet_at_staging keep_rules triple_ret assms)
  ultimately show ?thesis by simp
qed

lemma keeps_clone_shares [keep_rules]: "apart dst q \<Longrightarrow> keeps q (clone_shares src dst)"
  unfolding clone_shares_def by (intro keep_rules) (auto intro: apart_append1)

lemma keeps_clone_files [keep_rules]: "apart dst q \<Longrightarrow> keeps q (clone_files src dst ks)"
  unfolding clone_files_def by (intro keep_rules) (auto intro: apart_append1)

lemma keeps_clone_base [keep_rules]: "apart dst q \<Longrightarrow> keeps q (clone_base g dst)"
  unfolding clone_base_def by (intro keep_rules)

lemma triple_salvage: "triple (sound d) (salvage d) (\<lambda>_. sound d) (sound d)"
  unfolding salvage_def
proof (rule triple_known_phase)
  fix r :: Record
  assume ids: "phase_ids_ok (phase r)"
  show "triple (knows d r) (case phase r of
       Dirty run _ \<Rightarrow>
         bind (stage d) (\<lambda>st.
         bind (clone_or_copy_file (run_dir d run @ [ROOTFS]) (st_dir st @ [ROOTFS])) (\<lambda>_.
         bind (clone_shares (run_dir d run) (st_dir st)) (\<lambda>_.
         bind (publish d st (latest r) (Salvage run)) (\<lambda>g.
         bind (commit_latest d g) (\<lambda>_. ret g)))))
     | _ \<Rightarrow> raise (Bail ''there is no crashed run to salvage'')) (\<lambda>_. sound d) (sound d)"
  proof (cases "phase r")
    case (Dirty run own)
    have "triple (\<lambda>e t. sound d e t \<and> link_ids_ok (latest r) (Salvage run)) (bind (stage d) (\<lambda>st.
         bind (bind (clone_or_copy_file (run_dir d run @ [ROOTFS]) (st_dir st @ [ROOTFS])) (\<lambda>_.
           clone_shares (run_dir d run) (st_dir st))) (\<lambda>_.
         bind (publish d st (latest r) (Salvage run)) (\<lambda>g.
         bind (commit_latest d g) (\<lambda>_. ret g))))) (\<lambda>_. sound d) (sound d)"
      by (rule triple_assuming, rule triple_stage_fill_publish)
        (auto intro!: quiet_at_staging keep_rules triple_finish intro: apart_append1)
    then have "triple (knows d r) (bind (stage d) (\<lambda>st.
         bind (bind (clone_or_copy_file (run_dir d run @ [ROOTFS]) (st_dir st @ [ROOTFS])) (\<lambda>_.
           clone_shares (run_dir d run) (st_dir st))) (\<lambda>_.
         bind (publish d st (latest r) (Salvage run)) (\<lambda>g.
         bind (commit_latest d g) (\<lambda>_. ret g))))) (\<lambda>_. sound d) (sound d)"
      using Dirty ids
      by (elim triple_pre) (auto simp: knows_def link_ids_ok_def phase_ids_ok_def disk_latest_valid split: option.splits)
    then show ?thesis using Dirty by (simp add: bind_assoc)
  qed (auto intro!: triple_raise simp: knows_sound)
qed

definition confined :: "(path \<Rightarrow> unit M) \<Rightarrow> bool" where
  "confined edit \<longleftrightarrow> (\<forall>p q. apart p q \<longrightarrow> keeps q (edit p))"

lemma triple_derive:
  assumes "confined edit"
  shows "triple (sound d) (derive d edit) (\<lambda>_. sound d) (sound d)"
  unfolding derive_def
proof (rule triple_known_phase)
  fix r :: Record
  have body: "triple (\<lambda>e t. sound d e t \<and> valid_component l)
        (bind (stage d) (\<lambda>st. bind (bind (clone_base base (st_dir st)) (\<lambda>_. edit (st_dir st))) (\<lambda>_.
         bind (publish d st (Some l) Edited) (\<lambda>g.
         bind (commit_latest d g) (\<lambda>_. ret g))))) (\<lambda>_. sound d) (sound d)" for l base
    using assms
    by (intro triple_assuming triple_stage_fill_publish)
      (auto intro!: quiet_at_staging keep_rules triple_finish simp: confined_def link_ids_ok_def)
  have gen: "triple (knows d r) (generation d l) (\<lambda>_ e t. sound d e t \<and> valid_component l) (sound d)" for l
    by (rule triple_weaken [OF triple_generation [of "knows d r" "knows d r"]])
      (auto simp: knows_sound dest: complete_gen_valid)
  show "triple (knows d r) (if phase r \<noteq> Stopped
       then raise (Bail ''the instance must be stopped to edit its saved state'')
     else (case latest r of
       None \<Rightarrow> raise (Bail ''instance has no saved state to edit'')
     | Some l \<Rightarrow>
         bind (generation d l) (\<lambda>base.
         bind (stage d) (\<lambda>st.
         bind (clone_base base (st_dir st)) (\<lambda>_.
         bind (edit (st_dir st)) (\<lambda>_.
         bind (publish d st (Some l) Edited) (\<lambda>g.
         bind (commit_latest d g) (\<lambda>_. ret g)))))))) (\<lambda>_. sound d) (sound d)"
    by (intro triple_if triple_raise triple_case_option triple_bind [OF gen] body [unfolded bind_assoc])
      (auto simp: knows_sound)
qed

lemma triple_drop_memory: "triple (sound d) (drop_memory d) (\<lambda>_. sound d) (sound d)"
  unfolding drop_memory_def
proof (rule triple_known_phase)
  fix r :: Record
  have body: "triple (\<lambda>e t. sound d e t \<and> valid_component l)
        (bind (stage d) (\<lambda>st. bind (bind (clone_or_copy_file (rootfs base) (st_dir st @ [ROOTFS])) (\<lambda>_.
           clone_shares (g_dir base) (st_dir st))) (\<lambda>_.
         bind (publish d st (Some l) DropMemory) (\<lambda>g.
         bind (commit_latest d g) (\<lambda>_. ret (Some g)))))) (\<lambda>_. sound d) (sound d)" for l base
    by (intro triple_assuming triple_stage_fill_publish)
      (auto intro!: quiet_at_staging keep_rules triple_finish simp: link_ids_ok_def intro: apart_append1)
  have gen: "triple (knows d r) (generation d l) (\<lambda>_ e t. sound d e t \<and> valid_component l) (sound d)" for l
    by (rule triple_weaken [OF triple_generation [of "knows d r" "knows d r"]])
      (auto simp: knows_sound dest: complete_gen_valid)
  show "triple (knows d r) (if phase r \<noteq> Stopped
     then raise (Bail ''the instance must be stopped to drop its memory snapshot'')
     else (case latest r of
       None \<Rightarrow> ret None
     | Some l \<Rightarrow>
         bind (generation d l) (\<lambda>base.
         if \<not> has_memory (g_manifest base) then ret None
         else
           bind (stage d) (\<lambda>st.
           bind (clone_or_copy_file (rootfs base) (st_dir st @ [ROOTFS])) (\<lambda>_.
           bind (clone_shares (g_dir base) (st_dir st)) (\<lambda>_.
           bind (publish d st (Some l) DropMemory) (\<lambda>g.
           bind (commit_latest d g) (\<lambda>_. ret (Some g))))))))) (\<lambda>_. sound d) (sound d)"
    by (intro triple_if triple_raise triple_ret triple_case_option triple_bind [OF gen] body [unfolded bind_assoc])
      (auto simp: knows_sound)
qed

subsection \<open>Checkpoints\<close>

lemma checkpoint_ref_path_Ok:
  "checkpoint_ref_path d i e s = (Ok p, s') \<Longrightarrow> p = d @ [CHECKPOINTS_DIR, i @ ''.ref''] \<and> valid_component i"
  unfolding checkpoint_ref_path_def lift_res_def validate_component_def
  by (auto elim!: bind_OkE split: sum.splits if_splits)

lemma triple_ref_path:
  "triple (sound d) (checkpoint_ref_path d i)
     (\<lambda>p e t. sound d e t \<and> p = d @ [CHECKPOINTS_DIR, i @ ''.ref'']) (sound d)"
  by (rule triple_readonly) (auto intro: read_rules dest: checkpoint_ref_path_Ok)

lemma quiet_commit_ref: "quiet d (commit_json enc_ref (d @ [CHECKPOINTS_DIR, k]) c)"
proof -
  have "keeps q (commit_file ((d @ [CHECKPOINTS_DIR]) @ [k]) x)" if "q \<in> protected d" for q x
    using that by (intro keep_rules) (auto simp: protected_def)
  then show ?thesis unfolding quiet_def commit_json_def by (auto intro!: keep_rules)
qed

lemma triple_add_checkpoint: "triple (sound d) (add_checkpoint d c) (\<lambda>_. sound d) (sound d)"
proof -
  have dirs: "quiet d (create_dir_all (checkpoints_dir d))"
    by (rule quietI) (auto intro!: keep_rules)
  have "triple (sound d) (generation d (ref_generation c)) (\<lambda>_. sound d) (sound d)"
    by (rule triple_reading) (auto intro: read_rules)
  then show ?thesis unfolding add_checkpoint_def
    by (intro triple_bind [where R = "\<lambda>_. sound d"] triple_quiet_inv [OF dirs] triple_bind [OF triple_ref_path] triple_assuming)
      (auto intro: triple_quiet_inv [OF quiet_commit_ref])
qed

lemma triple_remove_checkpoint: "triple (sound d) (remove_checkpoint d i) (\<lambda>_. sound d) (sound d)"
proof -
  have "quiet d (bind (remove_file (d @ [CHECKPOINTS_DIR, k])) (\<lambda>_. sync_dir (checkpoints_dir d)))" for k
    by (rule quietI) (auto intro!: keep_rules)
  from triple_quiet_inv [OF this]
  have "triple (sound d) (bind (bind (remove_file (d @ [CHECKPOINTS_DIR, k])) (\<lambda>_. sync_dir (checkpoints_dir d)))
      (\<lambda>_. bind (collect_garbage d) (\<lambda>_. ret ()))) (\<lambda>_. sound d) (sound d)" for k
    by (rule triple_bind) (rule triple_then [OF triple_gc])
  then show ?thesis unfolding remove_checkpoint_def bind_assoc
    by (intro triple_bind [OF triple_ref_path] triple_assuming) simp
qed

end
