(* ===== verification/Sample.thy ===== *)
theory Sample
  imports World "HOL-Library.Code_Target_Numeral"
begin

text \<open>
  A concrete environment: a length-prefixed codec that satisfies the round-trip law the store
  relies on, and a world in which no system call fails. It shows that the hypotheses of the
  theorems can hold.
\<close>

abbreviation nl :: char where "nl \<equiv> CHR 0x0A"

fun pack :: "string list \<Rightarrow> string" where
  "pack [] = []"
| "pack (x # xs) = show_nat (length x) @ CHR '':'' # x @ pack xs"

fun unpack_from :: "nat \<Rightarrow> string \<Rightarrow> string list option" where
  "unpack_from 0 s = None"
| "unpack_from (Suc f) s =
     (if s = [nl] then Some []
      else
        (case split_once (CHR '':'') s of
           None \<Rightarrow> None
         | Some (n, r) \<Rightarrow>
             map_option (Cons (take (digits_val n) r)) (unpack_from f (drop (digits_val n) r))))"

definition unpack :: "string \<Rightarrow> string list option" where
  "unpack s = unpack_from (length s) s"

lemma unpack_from_pack: "length xs < f \<Longrightarrow> unpack_from f (pack xs @ [nl]) = Some xs"
proof (induction xs arbitrary: f)
  case Nil
  then show ?case by (cases f) auto
next
  case (Cons x xs)
  then obtain f' where f: "f = Suc f'" "length xs < f'" by (cases f) auto
  have "CHR '':'' \<notin> set (show_nat (length x))"
    using show_nat_digits [of "length x"] by (auto simp: list_all_iff is_ascii_digit_def byte_def)
  then have "split_once (CHR '':'') (pack (x # xs) @ [nl]) = Some (show_nat (length x), x @ pack xs @ [nl])"
    by (simp add: split_once_append)
  moreover have "pack (x # xs) @ [nl] \<noteq> [nl]" by simp
  ultimately show ?case using f Cons.IH by (simp add: digits_val_show)
qed

lemma length_pack: "length xs \<le> length (pack xs)"
  by (induction xs) auto

lemma unpack_pack [simp]: "unpack (pack xs @ [nl]) = Some xs"
  unfolding unpack_def by (rule unpack_from_pack) (use length_pack [of xs] in simp)

subsection \<open>Fields\<close>

definition enc_opt :: "string option \<Rightarrow> string" where
  "enc_opt x = (case x of None \<Rightarrow> [] | Some v \<Rightarrow> CHR ''+'' # v)"

definition dec_opt :: "string \<Rightarrow> string option" where
  "dec_opt s = (case s of [] \<Rightarrow> None | _ # v \<Rightarrow> Some v)"

definition enc_int :: "int \<Rightarrow> string" where
  "enc_int i = (if i < 0 then CHR ''-'' # show_nat (nat (- i)) else CHR ''+'' # show_nat (nat i))"

definition dec_int :: "string \<Rightarrow> int" where
  "dec_int s =
     (case s of [] \<Rightarrow> 0 | c # v \<Rightarrow> if c = CHR ''-'' then - int (digits_val v) else int (digits_val v))"

lemma dec_opt_enc [simp]: "dec_opt (enc_opt x) = x"
  by (simp add: enc_opt_def dec_opt_def split: option.splits)

lemma dec_int_enc [simp]: "dec_int (enc_int i) = i"
  by (simp add: enc_int_def dec_int_def digits_val_show)

declare digits_val_show [simp]

fun phase_fields :: "Phase \<Rightarrow> string list" where
  "phase_fields Stopped = []"
| "phase_fields (Running r p) = [''running'', r, enc_int (pid p), show_nat (started p)]"
| "phase_fields (Dirty r p) = [''dirty'', r, enc_int (pid p), show_nat (started p)]"

definition fields_phase :: "string list \<Rightarrow> Phase option" where
  "fields_phase xs =
     (case xs of
        [] \<Rightarrow> Some Stopped
      | [k, r, p, n] \<Rightarrow>
          (let own = \<lparr>pid = dec_int p, started = digits_val n\<rparr> in
           Some (if k = ''running'' then Running r own else Dirty r own))
      | _ \<Rightarrow> None)"

lemma fields_phase_fields [simp]: "fields_phase (phase_fields p) = Some p"
  by (cases p) (simp_all add: fields_phase_def)

fun origin_fields :: "Origin \<Rightarrow> string list" where
  "origin_fields Image = [''image'']"
| "origin_fields (Snapshot r) = [''snapshot'', r]"
| "origin_fields (SnapshotExit r) = [''snapshot-exit'', r]"
| "origin_fields (Checkpoint r) = [''checkpoint'', r]"
| "origin_fields (Salvage r) = [''salvage'', r]"
| "origin_fields DropMemory = [''drop-memory'']"
| "origin_fields Edited = [''edited'']"
| "origin_fields Migrated = [''migrated'']"
| "origin_fields Import = [''import'']"

definition fields_origin :: "string list \<Rightarrow> Origin option" where
  "fields_origin xs =
     (case xs of
        [k] \<Rightarrow> map_of [(''image'', Image), (''drop-memory'', DropMemory), (''edited'', Edited),
                  (''migrated'', Migrated), (''import'', Import)] k
      | [k, r] \<Rightarrow> map_of [(''snapshot'', Snapshot r), (''snapshot-exit'', SnapshotExit r),
                  (''checkpoint'', Checkpoint r), (''salvage'', Salvage r)] k
      | _ \<Rightarrow> None)"

lemma fields_origin_fields [simp]: "fields_origin (origin_fields p) = Some p"
  by (cases p) (simp_all add: fields_origin_def)

fun file_fields :: "(string \<times> nat) list \<Rightarrow> string list" where
  "file_fields [] = []"
| "file_fields ((k, n) # m) = k # show_nat n # file_fields m"

fun fields_files :: "string list \<Rightarrow> (string \<times> nat) list" where
  "fields_files (k # n # m) = (k, digits_val n) # fields_files m"
| "fields_files _ = []"

lemma fields_files_fields [simp]: "fields_files (file_fields m) = m"
  by (induction m rule: file_fields.induct) simp_all

subsection \<open>The codec\<close>

definition line :: "string list \<Rightarrow> string" where
  "line xs = pack xs @ [nl]"

lemma unpack_line [simp]: "unpack (line xs) = Some xs"
  by (simp add: line_def)

definition sample_enc_record :: "Record \<Rightarrow> string" where
  "sample_enc_record r =
     pack [show_nat (version r), enc_opt (latest r), line (phase_fields (phase r))]"

definition sample_dec_record :: "string \<Rightarrow> Record option" where
  "sample_dec_record s =
     (case unpack s of
        Some [v, l, p] \<Rightarrow>
          map_option (\<lambda>ph. \<lparr>version = digits_val v, latest = dec_opt l, phase = ph\<rparr>)
            (Option.bind (unpack p) fields_phase)
      | _ \<Rightarrow> None)"

definition sample_enc_manifest :: "Manifest \<Rightarrow> string" where
  "sample_enc_manifest m =
     pack [show_nat (m_version m), m_id m, enc_opt (m_parent m), line (origin_fields (m_origin m)),
       show_nat (m_created_unix_nanos m), line (file_fields (m_files m))]"

definition sample_dec_manifest :: "string \<Rightarrow> Manifest option" where
  "sample_dec_manifest s =
     (case unpack s of
        Some [v, i, p, og, n, f] \<Rightarrow>
          (case (Option.bind (unpack og) fields_origin, unpack f) of
             (Some og, Some f) \<Rightarrow>
               Some \<lparr>m_version = digits_val v, m_id = i, m_parent = dec_opt p, m_origin = og,
                 m_created_unix_nanos = digits_val n, m_files = fields_files f\<rparr>
           | _ \<Rightarrow> None)
      | _ \<Rightarrow> None)"

definition sample_enc_ref :: "CheckpointRef \<Rightarrow> string" where
  "sample_enc_ref c =
     pack [ref_id c, enc_opt (ref_name c), ref_generation c, show_nat (ref_created_unix c)]"

definition sample_dec_ref :: "string \<Rightarrow> CheckpointRef option" where
  "sample_dec_ref s =
     (case unpack s of
        Some [i, n, g, c] \<Rightarrow>
          Some \<lparr>ref_id = i, ref_name = dec_opt n, ref_generation = g, ref_created_unix = digits_val c\<rparr>
      | _ \<Rightarrow> None)"

definition sample_codec :: codec where
  "sample_codec =
     \<lparr>enc_record = sample_enc_record, dec_record = sample_dec_record,
      enc_manifest = sample_enc_manifest, dec_manifest = sample_dec_manifest,
      enc_ref = sample_enc_ref, dec_ref = sample_dec_ref\<rparr>"

lemma sample_codec_ok: "codec_ok sample_codec"
proof -
  have "sample_dec_record (sample_enc_record r @ [nl]) = Some r" for r
    unfolding sample_enc_record_def sample_dec_record_def unpack_pack by simp
  moreover have "sample_dec_manifest (sample_enc_manifest m @ [nl]) = Some m" for m
    unfolding sample_enc_manifest_def sample_dec_manifest_def unpack_pack by simp
  moreover have "sample_dec_ref (sample_enc_ref c @ [nl]) = Some c" for c
    unfolding sample_enc_ref_def sample_dec_ref_def unpack_pack by simp
  ultimately show ?thesis by (simp add: codec_ok_def sample_codec_def)
qed

subsection \<open>A calm world\<close>

definition calm :: "env \<Rightarrow> bool" where
  "calm e \<longleftrightarrow> (\<forall>n. faults e n = Works)"

definition sample_env :: env where
  "sample_env =
     \<lparr>codec = sample_codec, process = \<lparr>pid = 7, started = 3\<rparr>, clock = (\<lambda>n. n), faults = (\<lambda>_. Works),
      pinned_at = (\<lambda>_ _. False), allocated_at = (\<lambda>_ _. 0),
      started_at = (\<lambda>_ p. if p = 7 then Some 3 else None)\<rparr>"

lemma sample_env_simps [simp]:
  "codec sample_env = sample_codec" "calm sample_env" "codec_ok (codec sample_env)"
  by (simp_all add: sample_env_def calm_def sample_codec_ok)

end
