(* ===== verification/Machine.thy ===== *)
theory Machine
  imports Main
begin

text \<open>
  State machines: a step relation and a property of states that every step keeps. Components
  with a life of their own (the store, the locks, the broker) are interpretations of it.
\<close>

locale machine =
  fixes step :: "'s \<Rightarrow> 's \<Rightarrow> bool"
    and good :: "'s \<Rightarrow> bool"
  assumes step_good: "step s s' \<Longrightarrow> good s \<Longrightarrow> good s'"
begin

lemma reach_good: "step\<^sup>*\<^sup>* s s' \<Longrightarrow> good s \<Longrightarrow> good s'"
  by (induction rule: rtranclp_induct) (auto intro: step_good)

end

text \<open>A machine whose steps are, seen through an abstraction, sequences of steps of a contract.\<close>

locale refinement = machine step good
  for step :: "'s \<Rightarrow> 's \<Rightarrow> bool" and good :: "'s \<Rightarrow> bool" +
  fixes abstraction :: "'s \<Rightarrow> 'v"
    and spec :: "'v \<Rightarrow> 'v \<Rightarrow> bool"
  assumes simulates: "step s s' \<Longrightarrow> good s \<Longrightarrow> spec\<^sup>*\<^sup>* (abstraction s) (abstraction s')"
begin

lemma reach_refines: "step\<^sup>*\<^sup>* s s' \<Longrightarrow> good s \<Longrightarrow> spec\<^sup>*\<^sup>* (abstraction s) (abstraction s')"
proof (induction rule: rtranclp_induct)
  case (step y z)
  from step.prems step.hyps(1) have "good y" by (blast intro: reach_good)
  with step show ?case by (meson rtranclp_trans simulates)
qed simp

lemma transfer_invariant:
  assumes "step\<^sup>*\<^sup>* s s'" "good s" "I (abstraction s)" "\<And>v v'. spec v v' \<Longrightarrow> I v \<Longrightarrow> I v'"
  shows "I (abstraction s')"
  using reach_refines [OF assms(1,2)] assms(3)
  by (induction rule: rtranclp_induct) (auto intro: assms(4))

end


end
