(* ===== verification/StoreReach.thy ===== *)
theory StoreReach
  imports StoreOps Sample Machine
begin

text \<open>
  The store as a transition system: any sequence of operations, by any processes, each failing or
  dying anywhere, with the VM writing its run directories and captures writing staging
  directories in between.
\<close>

datatype store_op =
    Initialize Staging
  | Recover
  | BeginRun "gen_id option"
  | AdvanceLatest run_id gen_id
  | ImportDir path "gen_id option" Origin
  | MarkDirty run_id
  | AbandonRun run_id
  | Stage
  | Publish Staging "gen_id option" Origin
  | CommitLatest gen_id
  | SalvageRun
  | DiscardRun
  | Derive "path \<Rightarrow> unit M"
  | DropMemorySnapshot
  | AddCheckpoint CheckpointRef
  | RemoveCheckpoint string
  | CollectGarbage

definition void :: "'a M \<Rightarrow> unit M" where
  "void m = bind m (\<lambda>_. ret ())"

fun perform :: "path \<Rightarrow> store_op \<Rightarrow> unit M" where
  "perform d (Initialize st) = void (initialize d st)"
| "perform d Recover = void (recover d)"
| "perform d (BeginRun g) = void (begin_run d g)"
| "perform d (AdvanceLatest r g) = advance_latest d r g"
| "perform d (ImportDir src par orig) = void (import_dir d src par orig)"
| "perform d (MarkDirty r) = mark_dirty d r"
| "perform d (AbandonRun r) = abandon_run d r"
| "perform d Stage = void (stage d)"
| "perform d (Publish st par orig) = void (publish d st par orig)"
| "perform d (CommitLatest g) = commit_latest d g"
| "perform d SalvageRun = void (salvage d)"
| "perform d DiscardRun = void (discard_run d)"
| "perform d (Derive edit) = void (derive d edit)"
| "perform d DropMemorySnapshot = void (drop_memory d)"
| "perform d (AddCheckpoint c) = add_checkpoint d c"
| "perform d (RemoveCheckpoint i) = remove_checkpoint d i"
| "perform d CollectGarbage = void (collect_garbage d)"

text \<open>What the types of the source guarantee of the arguments: ids are valid, a staging directory
  came from \<open>stage\<close>, and an edit stays inside the directory it is given.\<close>

fun op_ok :: "path \<Rightarrow> store_op \<Rightarrow> bool" where
  "op_ok d (Initialize st) = staging_ok d st"
| "op_ok d (Publish st par orig) \<longleftrightarrow> staging_ok d st \<and> link_ids_ok par orig"
| "op_ok d (ImportDir src par orig) = link_ids_ok par orig"
| "op_ok d (Derive edit) = confined edit"
| "op_ok d _ = True"

text \<open>Steps of the store. A run's files are written by its VM, a staging directory by the capture
  that fills it; neither writes anywhere else.\<close>

inductive store_step :: "codec \<Rightarrow> path \<Rightarrow> sys \<Rightarrow> sys \<Rightarrow> bool" for C :: codec and d :: path where
  operation:
    "op_ok d op \<Longrightarrow> codec e = C \<Longrightarrow> perform d op e s = (r, s') \<Longrightarrow> store_step C d s s'"
| vm_writes:
    "(\<And>q. apart (runs_dir d) q \<Longrightarrow> lookup t q = lookup (fs s) q) \<Longrightarrow> store_step C d s (s\<lparr>fs := t\<rparr>)"
| capture_writes:
    "(\<And>q. apart (generation_dir d (STAGING_PREFIX @ i)) q \<Longrightarrow> lookup t q = lookup (fs s) q) \<Longrightarrow>
     store_step C d s (s\<lparr>fs := t\<rparr>)"

text \<open>What any sequence of steps reaches.\<close>

abbreviation reachable :: "codec \<Rightarrow> path \<Rightarrow> sys \<Rightarrow> sys \<Rightarrow> bool" where
  "reachable C d \<equiv> (store_step C d)\<^sup>*\<^sup>*"

lemma triple_void: "triple P m (\<lambda>_. E) E \<Longrightarrow> triple P (void m) (\<lambda>_. E) E"
  unfolding void_def by (rule triple_then)

lemma triple_publish_sound:
  assumes "staging_ok d st" "link_ids_ok par orig"
  shows "triple (sound d) (publish d st par orig) (\<lambda>_. sound d) (sound d)"
  by (rule triple_weaken [OF triple_publish [OF assms]]) auto

lemmas perform_triples =
  triple_initialize triple_recover triple_begin_run triple_advance_latest triple_import_dir
  triple_mark_dirty triple_abandon_run triple_quiet_inv [OF quiet_stage] triple_publish_sound
  triple_commit_latest triple_salvage triple_discard_run triple_derive triple_drop_memory
  triple_add_checkpoint triple_remove_checkpoint triple_gc

lemma perform_sound:
  assumes "op_ok d op"
  shows "triple (sound d) (perform d op) (\<lambda>_. sound d) (sound d)"
  using assms
  by (cases op)
    (auto intro!: triple_void perform_triples)

lemma store_step_inv:
  assumes "store_step C d s s'" "codec_ok C" "store_inv C d (fs s)"
  shows "store_inv C d (fs s')"
  using assms(1)
proof cases
  case (operation op e r)
  have "sound d e (fs s)" using assms operation by simp
  with triple_anyD [OF perform_sound [OF operation(1)] this operation(3)] operation(2)
  show ?thesis by simp
next
  case (vm_writes t)
  then have "same_store d (fs s) t" by (auto simp: same_store_def protected_def)
  with assms(3) vm_writes(1) show ?thesis by (simp add: same_store_inv)
next
  case (capture_writes i t)
  then have "same_store d (fs s) t" by (auto simp: same_store_def protected_def)
  with assms(3) capture_writes(1) show ?thesis by (simp add: same_store_inv)
qed

interpretation store_machine: machine "\<lambda>s s'. codec_ok C \<and> store_step C d s s'" "\<lambda>s. store_inv C d (fs s)" for C d
  by unfold_locales (auto intro: store_step_inv)

text \<open>C1: in every reachable state of a store, whatever sequence of operations ran and wherever each
  of them failed or was killed, every published generation is durable and the record, if there
  is one, is durable, parses, and names a generation that is complete: its manifest is readable
  and every file it lists is there with the listed size. So an instance always has a usable
  latest state.\<close>

theorem store_safe:
  assumes "reachable C d s0 s" and "codec_ok C" and "store_inv C d (fs s0)"
  shows "store_inv C d (fs s)"
proof -
  have "(\<lambda>s s'. codec_ok C \<and> store_step C d s s')\<^sup>*\<^sup>* s0 s"
    using assms(1,2) by simp
  then show ?thesis using assms(3) by (rule store_machine.reach_good)
qed

definition empty_instance :: sys where
  "empty_instance = \<lparr>fs = Sub [(''i'', Sub [])], tick = 0, seq = 0\<rparr>"

lemma empty_instance_inv: "store_inv C [''i''] (fs empty_instance)"
  by (simp add: empty_instance_def store_inv_def sealed_def record_sound_def)

theorem store_safe_witness:
  "\<exists>s. reachable sample_codec [''i''] empty_instance s \<and> is_dir (fs s) [''i'', GENERATIONS_DIR] \<and>
     store_inv sample_codec [''i''] (fs s)"
proof -
  obtain r s' where m: "perform [''i''] Stage sample_env empty_instance = (r, s')"
    by (cases "perform [''i''] Stage sample_env empty_instance")
  have "store_step sample_codec [''i''] empty_instance s'"
    by (rule store_step.operation [OF _ _ m]) simp_all
  then have "reachable sample_codec [''i''] empty_instance s'"
    by (rule r_into_rtranclp)
  moreover have "is_dir (fs s') [''i'', GENERATIONS_DIR]"
    using m by (auto simp: void_def stage_def bind_def fresh_id_def Let_def create_dir_all_def call_def
        sample_env_def empty_instance_def ret_def is_dir_def)
  ultimately show ?thesis
    using store_safe [OF _ sample_codec_ok empty_instance_inv] by blast
qed

end
