(* ===== verification/SampleStore.thy ===== *)
theory SampleStore
  imports StoreReach
begin

text \<open>
  Concrete stores in the calm sample world: an instance with one generation, in any phase, and
  checks by which its invariant is computed.
\<close>

abbreviation here :: path where "here \<equiv> [''i'']"

definition sample_gen :: gen_id where
  "sample_gen = ''g1''"

definition sample_run :: run_id where
  "sample_run = ''r1''"

definition sample_owner :: ProcessIdentity where
  "sample_owner = \<lparr>pid = 7, started = 3\<rparr>"

definition sample_manifest :: "gen_id \<Rightarrow> Origin \<Rightarrow> Manifest" where
  "sample_manifest g orig =
     \<lparr>m_version = 1, m_id = g, m_parent = None, m_origin = orig, m_created_unix_nanos = 5,
      m_files = [(PAGES, 5), (ROOTFS, 4), (VMSTATE, 2)]\<rparr>"

definition sample_gen_node :: "gen_id \<Rightarrow> Origin \<Rightarrow> node" where
  "sample_gen_node g orig =
     Sub [(MANIFEST, Reg (sample_enc_manifest (sample_manifest g orig) @ [CHR 0x0A]) True), (PIN, Reg [] True),
       (PAGES, Reg ''pages'' True), (ROOTFS, Reg ''disk'' True), (VMSTATE, Reg ''vm'' True)]"

text \<open>An instance whose record names \<open>sample_gen\<close>; \<open>final\<close> adds a generation \<open>g2\<close> that is the final
  snapshot of the run.\<close>

definition sample_store :: "Phase \<Rightarrow> dir \<Rightarrow> dir \<Rightarrow> sys" where
  "sample_store ph gens runs =
     \<lparr>fs = Sub [(''i'', Sub
        [(STATE_FILE, Reg (sample_enc_record (new_record (Some sample_gen) ph) @ [CHR 0x0A]) True),
         (GENERATIONS_DIR, Sub ((sample_gen, sample_gen_node sample_gen Image) # gens)),
         (RUNS_DIR, Sub runs)])], tick = 0, seq = 0\<rparr>"

definition sample_run_node :: node where
  "sample_run_node = Sub [(ROOTFS, Reg ''dirt'' False)]"

definition sample_stopped :: sys where
  "sample_stopped = sample_store Stopped [] []"

definition sample_running :: sys where
  "sample_running = sample_store (Running sample_run sample_owner) [] [(sample_run, sample_run_node)]"

definition sample_dirty :: sys where
  "sample_dirty = sample_store (Dirty sample_run sample_owner) [] [(sample_run, sample_run_node)]"

definition sealed_check :: "path \<Rightarrow> node \<Rightarrow> bool" where
  "sealed_check d t =
     (case lookup t (generations_dir d) of
        Some (Sub es) \<Rightarrow> list_all (\<lambda>(k, n). valid_component k \<longrightarrow> synced_node n) es
      | _ \<Rightarrow> True)"

definition store_check :: "codec \<Rightarrow> path \<Rightarrow> node \<Rightarrow> bool" where
  "store_check C d t \<longleftrightarrow> sealed_check d t \<and>
     (case lookup t (state_path d) of
        None \<Rightarrow> True
      | Some n \<Rightarrow> synced_node n \<and>
          (case disk_record C d t of
             None \<Rightarrow> False
           | Some r \<Rightarrow>
               (case latest r of None \<Rightarrow> True | Some g \<Rightarrow> complete_gen C d t g \<noteq> None)))"

lemma sealed_checkI:
  assumes "sealed_check d t"
  shows "sealed d t"
  unfolding sealed_def
proof (intro allI impI)
  fix g n
  assume g: "valid_component g" "lookup t (generation_dir d g) = Some n"
  then have "lookup t (generations_dir d @ [g]) = Some n" by simp
  then obtain m where m: "lookup t (generations_dir d) = Some m" "lookup m [g] = Some n"
    by (metis lookup_under)
  then obtain es where "m = Sub es" by (cases m) auto
  with m have es: "lookup t (generations_dir d) = Some (Sub es)" "(g, n) \<in> set es"
    by (auto split: option.splits dest: map_of_SomeD)
  with assms g(1) have "synced_node n" by (auto simp: sealed_check_def list_all_iff)
  then show "all_synced n" by (rule synced_node_sound)
qed

lemma store_checkI: "store_check C d t \<Longrightarrow> store_inv C d t"
  unfolding store_check_def store_inv_def record_sound_def
  by (auto simp: sealed_checkI synced_node_sound split: option.splits)

lemma sample_facts:
  "store_check sample_codec here (fs sample_stopped)"
  "store_check sample_codec here (fs sample_running)"
  "store_check sample_codec here (fs sample_dirty)"
  "disk_record sample_codec here (fs sample_stopped) = Some (new_record (Some sample_gen) Stopped)"
  "disk_record sample_codec here (fs sample_running) =
     Some (new_record (Some sample_gen) (Running sample_run sample_owner))"
  "disk_record sample_codec here (fs sample_dirty) =
     Some (new_record (Some sample_gen) (Dirty sample_run sample_owner))"
  by code_simp+

lemmas sample_inv = sample_facts(1-3) [THEN store_checkI]

end
