(* ===== verification/StoreProps.thy ===== *)
theory StoreProps
  imports SampleStore
begin

text \<open>
  What the store promises its callers: the commit of the record is atomic, recovery tells apart
  every state it can find, a crashed run with unsaved work is never dropped silently, and
  generations are immutable.
\<close>

text \<open>C7: committing the record is atomic and durable. Whatever call fails or wherever the process
  dies, the record on disk is the old one or the new one; when the operation returns normally it
  is the new one, synced; and no generation, run or checkpoint is touched.\<close>

theorem record_commit_atomic:
  assumes "commit_record d l ph e s = (r, s')" and "codec_ok (codec e)"
    and "record_ids_ok (new_record l ph)"
  shows "disk_record (codec e) d (fs s') \<in> {disk_record (codec e) d (fs s), Some (new_record l ph)} \<and>
    (r = Ok () \<longrightarrow> (\<exists>c. lookup (fs s') (state_path d) = Some (Reg c True) \<and>
       parse_record (codec e) c = Some (new_record l ph))) \<and>
    (\<forall>k p. k \<in> {GENERATIONS_DIR, RUNS_DIR, CHECKPOINTS_DIR} \<longrightarrow>
       lookup (fs s') (d @ k # p) = lookup (fs s) (d @ k # p))"
proof -
  have "keeps (d @ k # p) (commit_record d l ph)"
    if "k \<in> {GENERATIONS_DIR, RUNS_DIR, CHECKPOINTS_DIR}" for k p
    using that by (intro keep_rules) auto
  from keepsD [OF this assms(1)] commit_record_disk(1) [OF assms] commit_record_atomic(2) [OF assms(1)]
    codec_record [OF assms(2,3)]
  show ?thesis by simp
qed

theorem record_commit_atomic_witness:
  "fst (commit_record [''i''] None Stopped sample_env empty_instance) = Ok () \<and>
   disk_record sample_codec [''i''] (fs (snd (commit_record [''i''] None Stopped sample_env empty_instance))) \<in>
     {disk_record sample_codec [''i''] (fs empty_instance), Some (new_record None Stopped)}"
proof
  show "fst (commit_record [''i''] None Stopped sample_env empty_instance) = Ok ()"
    by code_simp
  have ids: "record_ids_ok (new_record None Stopped)" by code_simp
  have ok: "codec_ok (codec sample_env)" by (simp add: sample_codec_ok)
  show "disk_record sample_codec [''i''] (fs (snd (commit_record [''i''] None Stopped sample_env empty_instance))) \<in>
     {disk_record sample_codec [''i''] (fs empty_instance), Some (new_record None Stopped)}"
    using record_commit_atomic [OF prod.collapse [symmetric] ok ids, THEN conjunct1, of "[''i'']" empty_instance]
    by (simp only: sample_env_simps)
qed

subsection \<open>Recovery\<close>

lemma bind_commit_cases:
  assumes "bind (commit_record d l ph) (\<lambda>_. ret x) e s = (res, s')" "codec_ok (codec e)"
    "record_ids_ok (new_record l ph)"
  shows "disk_record (codec e) d (fs s') \<in> {disk_record (codec e) d (fs s), Some (new_record l ph)}"
    and "res = Ok y \<Longrightarrow> y = x \<and> disk_record (codec e) d (fs s') = Some (new_record l ph)"
proof -
  from assms(1) obtain res1 where m: "commit_record d l ph e s = (res1, s')"
    and ok: "\<And>y. res = Ok y \<Longrightarrow> y = x \<and> res1 = Ok ()"
    by (cases rule: bind_cases) (auto simp: ret_def)
  from commit_record_disk [OF m assms(2,3)] ok
  show "disk_record (codec e) d (fs s') \<in> {disk_record (codec e) d (fs s), Some (new_record l ph)}"
    "res = Ok y \<Longrightarrow> y = x \<and> disk_record (codec e) d (fs s') = Some (new_record l ph)" by auto
qed

definition final_of :: "codec \<Rightarrow> path \<Rightarrow> node \<Rightarrow> run_id \<Rightarrow> gen_id \<Rightarrow> bool" where
  "final_of C d t run g \<longleftrightarrow>
     (case complete_gen C d t g of None \<Rightarrow> False | Some m \<Rightarrow> m_origin m = Snapshot run)"

lemma recover_run_cases:
  assumes m: "recover_run d r run e s = (res, s')" and C: "codec_ok (codec e)"
    and k: "disk_record (codec e) d (fs s) = Some r" and p: "phase_run (phase r) = Some run"
  obtains (same) "fs s' = fs s" "\<And>x. res \<noteq> Ok x"
    | (forward) g where "final_of (codec e) d (fs s) run g"
        "disk_record (codec e) d (fs s') \<in> {Some r, Some (new_record (Some g) Stopped)}"
        "\<And>x. res = Ok x \<Longrightarrow> x = RolledForward g \<and> disk_record (codec e) d (fs s') = Some (new_record (Some g) Stopped)"
    | (idle) own where "phase r = Running run own"
        "disk_record (codec e) d (fs s') \<in> {Some r, Some (new_record (latest r) Stopped)}"
        "\<And>x. res = Ok x \<Longrightarrow> x = DiscardedIdleRun run \<and> disk_record (codec e) d (fs s') = Some (new_record (latest r) Stopped)"
proof -
  have ids: "record_ids_ok (new_record (latest r) Stopped)"
    using disk_record_ids [OF k] by (simp add: record_ids_ok_def phase_ids_ok_def)
  from m show ?thesis unfolding recover_run_def
  proof (cases rule: bind_cases)
    case (step found s1)
    have fs1: "fs s1 = fs s" using step(1) by (rule readonlyD [rotated]) (rule read_rules)
    show ?thesis
    proof (cases found)
      case None
      show ?thesis
      proof (cases "phase r")
        case (Running x own)
        with step(2) None have c: "bind (commit_record d (latest r) Stopped) (\<lambda>_. ret (DiscardedIdleRun run)) e s1 = (res, s')"
          by simp
        from Running p have "phase r = Running run own" by simp
        then show ?thesis using bind_commit_cases [OF c C ids] k fs1 by (intro idle [of own]) auto
      qed (use step(2) None fs1 same in \<open>auto simp: raise_def\<close>)
    next
      case (Some g)
      with step(2) have c: "bind (commit_record d (Some g) Stopped) (\<lambda>_. ret (RolledForward g)) e s1 = (res, s')"
        by simp
      from final_generation_of_Ok step(1) Some have f: "final_of (codec e) d (fs s) run g"
        by (force simp: final_of_def)
      then have "record_ids_ok (new_record (Some g) Stopped)"
        by (auto simp: final_of_def record_ids_ok_def phase_ids_ok_def dest: complete_gen_valid split: option.splits)
      from bind_commit_cases [OF c C this] k fs1 f show ?thesis by (intro forward [of g]) auto
    qed
  next
    case (err x)
    have "fs s' = fs s" using err(1) by (rule readonlyD [rotated]) (rule read_rules)
    with err(2) same show ?thesis by simp
  next
    case kill
    have "fs s' = fs s" using kill(1) by (rule readonlyD [rotated]) (rule read_rules)
    with kill(2) same show ?thesis by simp
  qed
qed

lemma recover_run_gens: "keeps (generation_dir d g @ q) (recover_run d r run)"
  unfolding recover_run_def
  by (auto intro!: keep_rules commit_record_gens split: option.splits Phase.splits)

lemma gc_ret:
  assumes "bind (collect_garbage d) (\<lambda>_. ret x) e s = (res, s')"
  shows "disk_record C d (fs s') = disk_record C d (fs s)" "res = Ok y \<Longrightarrow> y = x"
    "disk_record (codec e) d (fs s) = Some r \<Longrightarrow> latest r = Some g \<Longrightarrow>
       lookup (fs s') (generation_dir d g) = lookup (fs s) (generation_dir d g)"
  using assms by (cases rule: bind_cases; auto simp: ret_def gc_keeps_latest)+

lemma recover_cases:
  assumes m: "recover d e s = (res, s')" and C: "codec_ok (codec e)"
    and k: "disk_record (codec e) d (fs s) = Some r"
  obtains (same) "fs s' = fs s" "\<And>x. res \<noteq> Ok x"
    | (clean) "phase r = Stopped" "disk_record (codec e) d (fs s') = Some r" "\<And>x. res = Ok x \<Longrightarrow> x = Clean"
    | (forward) run g where "phase_run (phase r) = Some run" "final_of (codec e) d (fs s) run g"
        "\<And>x. res = Ok x \<Longrightarrow> x = RolledForward g \<and>
           disk_record (codec e) d (fs s') = Some (new_record (Some g) Stopped) \<and>
           lookup (fs s') (generation_dir d g) = lookup (fs s) (generation_dir d g)"
    | (idle) run own where "phase r = Running run own"
        "\<And>x. res = Ok x \<Longrightarrow> x = DiscardedIdleRun run \<and>
           disk_record (codec e) d (fs s') = Some (new_record (latest r) Stopped)"
proof -
  from m show ?thesis unfolding recover_def
  proof (cases rule: bind_cases)
    case (step r' s1)
    have r': "r' = r" "fs s1 = fs s" using require_record_Ok [OF step(1)] k by auto
    show ?thesis
    proof (cases "phase_run (phase r)")
      case None
      then have st: "phase r = Stopped" by (cases "phase r") auto
      from step(2) None r' have g: "bind (collect_garbage d) (\<lambda>_. ret Clean) e s1 = (res, s')"
        by (simp add: bind_def [of "ret Clean"] ret_def)
      from gc_ret [OF g] k r' st show ?thesis by (intro clean) auto
    next
      case (Some run)
      from k r' have rc: "disk_record (codec e) d (fs s1) = Some r" by simp
      from step(2) Some r' have "bind (recover_run d r run) (\<lambda>x. bind (collect_garbage d) (\<lambda>_. ret x)) e s1 = (res, s')"
        by simp
      then show ?thesis
      proof (cases rule: bind_cases)
        case st: (step x s2)
        note gc = gc_ret [OF st(2)]
        show ?thesis
        proof (cases rule: recover_run_cases [OF st(1) C rc Some, case_names same forward idle])
          case f: (forward g)
          have "lookup (fs s2) (generation_dir d g) = lookup (fs s1) (generation_dir d g)"
            using keepsD [OF recover_run_gens [of d g "[]"] st(1)] by simp
          with f(3) [OF refl] gc(3) [of "new_record (Some g) Stopped" g] r'
          have "lookup (fs s') (generation_dir d g) = lookup (fs s) (generation_dir d g)" by simp
          with f(3) [OF refl] gc(1,2) f(1) r' show ?thesis by (intro forward [OF Some, of g]) auto
        next
          case i: (idle own)
          with i(3) [OF refl] gc(1,2) show ?thesis by (intro idle [of run own]) auto
        qed blast
      next
        case (err x)
        show ?thesis
        proof (cases rule: recover_run_cases [OF err(1) C rc Some, case_names same forward idle])
          case s: same
          with err(2) r' show ?thesis by (intro same) auto
        next
          case f: (forward g)
          with err(2) r' show ?thesis by (intro forward [OF Some, of g]) auto
        next
          case i: (idle own)
          with err(2) show ?thesis by (intro idle [of run own]) auto
        qed
      next
        case kill
        show ?thesis
        proof (cases rule: recover_run_cases [OF kill(1) C rc Some, case_names same forward idle])
          case s: same
          with kill(2) r' show ?thesis by (intro same) auto
        next
          case f: (forward g)
          with kill(2) r' show ?thesis by (intro forward [OF Some, of g]) auto
        next
          case i: (idle own)
          with kill(2) show ?thesis by (intro idle [of run own]) auto
        qed
      qed
    qed
  next
    case (err x)
    have "fs s' = fs s" using err(1) by (rule readonlyD [rotated]) (rule read_rules)
    with err(2) same show ?thesis by simp
  next
    case kill
    have "fs s' = fs s" using kill(1) by (rule readonlyD [rotated]) (rule read_rules)
    with kill(2) same show ?thesis by simp
  qed
qed

text \<open>C6: what recovery can find and what it does about it, whatever fails on the way. It answers
  Clean only for a stopped instance and leaves the record alone; it rolls forward only to a
  complete generation that is the final snapshot of the recorded run, and that generation is
  still there; it discards a run only if the run never served a command; and for a run that did,
  unless such a final snapshot exists, not a byte of the disk changes.\<close>

theorem recover_outcomes:
  assumes "recover d e s = (res, s')" and "codec_ok (codec e)"
    and "disk_record (codec e) d (fs s) = Some r"
  shows "(res = Ok Clean \<longrightarrow> phase r = Stopped \<and> disk_record (codec e) d (fs s') = Some r) \<and>
    (\<forall>g. res = Ok (RolledForward g) \<longrightarrow>
       (\<exists>run. phase_run (phase r) = Some run \<and> final_of (codec e) d (fs s) run g) \<and>
       disk_record (codec e) d (fs s') = Some (new_record (Some g) Stopped) \<and>
       lookup (fs s') (generation_dir d g) = lookup (fs s) (generation_dir d g)) \<and>
    (\<forall>run. res = Ok (DiscardedIdleRun run) \<longrightarrow>
       (\<exists>own. phase r = Running run own) \<and>
       disk_record (codec e) d (fs s') = Some (new_record (latest r) Stopped)) \<and>
    (\<forall>run own. phase r = Dirty run own \<longrightarrow>
       fs s' = fs s \<or> (\<exists>g. final_of (codec e) d (fs s) run g))"
proof (cases rule: recover_cases [OF assms, case_names same clean forward idle])
  case same
  then show ?thesis by simp
next
  case clean
  then show ?thesis by auto
next
  case (forward run g)
  then show ?thesis by (auto split: Phase.splits)
next
  case (idle run own)
  then show ?thesis by auto
qed

theorem recover_outcomes_witness:
  "fst (recover here sample_env sample_dirty) = Err (CrashedWithUnsavedState ''i'' sample_run) \<and>
   (fs (snd (recover here sample_env sample_dirty)) = fs sample_dirty \<or>
    (\<exists>g. final_of sample_codec here (fs sample_dirty) sample_run g))"
proof
  show "fst (recover here sample_env sample_dirty) = Err (CrashedWithUnsavedState ''i'' sample_run)"
    by code_simp
  have ok: "codec_ok (codec sample_env)" by (simp add: sample_codec_ok)
  have rc: "disk_record (codec sample_env) here (fs sample_dirty) =
      Some (new_record (Some sample_gen) (Dirty sample_run sample_owner))"
    by (simp add: sample_facts)
  show "fs (snd (recover here sample_env sample_dirty)) = fs sample_dirty \<or>
    (\<exists>g. final_of sample_codec here (fs sample_dirty) sample_run g)"
    using recover_outcomes [OF prod.collapse [symmetric] ok rc] by simp
qed

lemma keeps_stage:
  assumes "\<And>k. apart (generation_dir d k) q"
  shows "keeps q (stage d)"
  unfolding stage_def Let_def
  by (intro keep_rules) (use assms in \<open>auto simp: apart_def\<close>)

subsection \<open>A dirty run is never lost silently\<close>

definition dirty_at :: "path \<Rightarrow> run_id \<Rightarrow> ProcessIdentity \<Rightarrow> node option \<Rightarrow> env \<Rightarrow> node \<Rightarrow> bool" where
  "dirty_at d run own v e t \<longleftrightarrow> codec_ok (codec e) \<and>
     (\<exists>l. disk_record (codec e) d t = Some (new_record l (Dirty run own))) \<and> lookup t (run_dir d run) = v"

lemma dirty_frame:
  assumes "keeps (state_path d) m" "keeps (run_dir d run) m"
  shows "triple (dirty_at d run own v) m (\<lambda>_. dirty_at d run own v) (dirty_at d run own v)"
proof -
  have "dirty_at d run own v e (fs s')" if "m e s = (r, s')" "dirty_at d run own v e (fs s)" for e s r s'
    using that keepsD [OF assms(1) that(1)] keepsD [OF assms(2) that(1)]
      disk_record_cong [of "fs s'" d "fs s"] by (simp add: dirty_at_def)
  then show ?thesis by (intro tripleI) blast+
qed

lemma dirty_read: "readonly m \<Longrightarrow> triple (dirty_at d run own v) m (\<lambda>_. dirty_at d run own v) (dirty_at d run own v)"
  by (rule dirty_frame) (auto intro: readonly_keeps)

lemma dirty_gc:
  "triple (dirty_at d run own v) (collect_garbage d) (\<lambda>_. dirty_at d run own v) (dirty_at d run own v)"
proof -
  have "dirty_at d run own v e (fs s')" if "collect_garbage d e s = (r, s')" "dirty_at d run own v e (fs s)" for e s r s'
    using that gc_keeps_live_run [OF that(1)] by (auto simp: dirty_at_def)
  then show ?thesis by (intro tripleI) blast+
qed

lemma dirty_known:
  assumes "\<And>r. phase r = Dirty run own \<Longrightarrow> triple (dirty_at d run own v) (f r) (\<lambda>_. dirty_at d run own v) (dirty_at d run own v)"
  shows "triple (dirty_at d run own v) (bind (require_record d) f) (\<lambda>_. dirty_at d run own v) (dirty_at d run own v)"
proof (rule triple_bind [OF triple_require [of "dirty_at d run own v" "dirty_at d run own v"]])
  fix r :: Record
  have "triple (\<lambda>e t. dirty_at d run own v e t \<and> phase r = Dirty run own) (f r)
      (\<lambda>_. dirty_at d run own v) (dirty_at d run own v)"
    by (rule triple_assuming) (rule assms)
  then show "triple (\<lambda>e t. dirty_at d run own v e t \<and> disk_record (codec e) d t = Some r) (f r)
      (\<lambda>_. dirty_at d run own v) (dirty_at d run own v)"
    by (rule triple_pre) (auto simp: dirty_at_def)
qed

lemma dirty_commit:
  assumes "valid_component g"
  shows "triple (dirty_at d run own v) (commit_record d (Some g) (Dirty run own))
      (\<lambda>_. dirty_at d run own v) (dirty_at d run own v)"
proof -
  have "dirty_at d run own v e (fs s')"
    if m: "commit_record d (Some g) (Dirty run own) e s = (r, s')" and p: "dirty_at d run own v e (fs s)" for e s r s'
  proof -
    from p obtain l where l: "disk_record (codec e) d (fs s) = Some (new_record l (Dirty run own))"
      and C: "codec_ok (codec e)" and v: "lookup (fs s) (run_dir d run) = v" by (auto simp: dirty_at_def)
    from disk_record_ids [OF l] assms have ids: "record_ids_ok (new_record (Some g) (Dirty run own))"
      by (simp add: record_ids_ok_def)
    have "keeps (run_dir d run) (commit_record d (Some g) (Dirty run own))" by (intro keep_rules) auto
    from keepsD [OF this m] commit_record_disk(1) [OF m C ids] l C v show ?thesis by (auto simp: dirty_at_def)
  qed
  then show ?thesis by (intro tripleI) blast+
qed

lemma dirty_advance:
  "triple (dirty_at d run own v) (advance_latest d run' g) (\<lambda>_. dirty_at d run own v) (dirty_at d run own v)"
proof -
  have "triple (\<lambda>e t. dirty_at d run own v e t \<and> valid_component g)
      (bind (require_record d) (\<lambda>r. if phase_run (phase r) = Some run' then commit_record d (Some g) (phase r)
         else raise (Bail ''cannot advance run''))) (\<lambda>_. dirty_at d run own v) (dirty_at d run own v)"
  proof (rule triple_assuming, rule dirty_known)
    fix r :: Record
    assume "valid_component g" "phase r = Dirty run own"
    then show "triple (dirty_at d run own v) (if phase_run (phase r) = Some run' then commit_record d (Some g) (phase r)
         else raise (Bail ''cannot advance run'')) (\<lambda>_. dirty_at d run own v) (dirty_at d run own v)"
      by (auto intro: dirty_commit triple_raise)
  qed
  then show ?thesis unfolding advance_latest_def
    by (intro triple_bind [OF triple_generation [of "dirty_at d run own v" "dirty_at d run own v"]])
      (auto elim!: triple_pre dest: complete_gen_valid)
qed

lemma keeps_publish:
  assumes "apart (st_dir st) q" "apart (generation_dir d (st_id st)) q"
  shows "keeps q (publish d st par orig)"
  unfolding publish_prepare by (intro keep_rules keeps_prepare) (use assms in auto)

lemma keeps_import_dir:
  assumes "\<And>k. apart (generation_dir d k) q"
  shows "keeps q (import_dir d src par orig)"
proof (rule keepsI)
  fix e s r s'
  assume "import_dir d src par orig e s = (r, s')"
  then show "lookup (fs s') q = lookup (fs s) q" unfolding import_dir_def
  proof (cases rule: bind_cases)
    case (step st s1)
    have st: "staging_ok d st" using step(1) by (rule stage_Ok)
    then have ap: "apart (st_dir st) q" "apart (generation_dir d (st_id st)) q"
      using assms by (auto simp: staging_ok_def)
    have "keeps q (bind (read_dir src) (\<lambda>es. bind (each (import_entry src (st_dir st)) es) (\<lambda>_. publish d st par orig)))"
      by (intro keep_rules keeps_publish ap)
    from keepsD [OF this step(2)] keepsD [OF keeps_stage [OF assms] step(1)] show ?thesis by simp
  qed (auto dest: keepsD [OF keeps_stage [OF assms]])
qed

lemma dirty_then:
  "triple (dirty_at d run own v) m (\<lambda>_. dirty_at d run own v) (dirty_at d run own v) \<Longrightarrow>
   triple (dirty_at d run own v) (bind m (\<lambda>_. ret x)) (\<lambda>_. dirty_at d run own v) (dirty_at d run own v)"
  by (rule triple_then)

lemmas dirty_simple = dirty_known dirty_then triple_raise triple_ret

lemma dirty_begin_run:
  "triple (dirty_at d run own v) (begin_run d g) (\<lambda>_. dirty_at d run own v) (dirty_at d run own v)"
  unfolding begin_run_def by (rule dirty_known) (auto intro: triple_raise)

lemma dirty_mark_dirty:
  "triple (dirty_at d run own v) (mark_dirty d run') (\<lambda>_. dirty_at d run own v) (dirty_at d run own v)"
  unfolding mark_dirty_def by (rule dirty_known) (auto intro: triple_raise triple_ret)

lemma dirty_abandon_run:
  "triple (dirty_at d run own v) (abandon_run d run') (\<lambda>_. dirty_at d run own v) (dirty_at d run own v)"
  unfolding abandon_run_def by (rule dirty_known) (auto simp: bind_raise intro: triple_raise)

lemma dirty_derive:
  "triple (dirty_at d run own v) (derive d edit) (\<lambda>_. dirty_at d run own v) (dirty_at d run own v)"
  unfolding derive_def by (rule dirty_known) (auto intro: triple_raise)

lemma dirty_drop_memory:
  "triple (dirty_at d run own v) (drop_memory d) (\<lambda>_. dirty_at d run own v) (dirty_at d run own v)"
  unfolding drop_memory_def by (rule dirty_known) (auto intro: triple_raise)

lemma dirty_stage:
  "triple (dirty_at d run own v) (stage d) (\<lambda>_. dirty_at d run own v) (dirty_at d run own v)"
  by (rule dirty_frame) (auto intro!: keeps_stage)

lemma dirty_publish:
  "staging_ok d st \<Longrightarrow>
   triple (dirty_at d run own v) (publish d st par orig) (\<lambda>_. dirty_at d run own v) (dirty_at d run own v)"
  by (rule dirty_frame) (auto intro!: keeps_publish simp: staging_ok_def)

lemma dirty_import_dir:
  "triple (dirty_at d run own v) (import_dir d src par orig) (\<lambda>_. dirty_at d run own v) (dirty_at d run own v)"
  by (rule dirty_frame) (auto intro!: keeps_import_dir)

lemma dirty_ref_path:
  "triple (dirty_at d run own v) (checkpoint_ref_path d i)
     (\<lambda>p e t. dirty_at d run own v e t \<and> p = d @ [CHECKPOINTS_DIR, i @ ''.ref'']) (dirty_at d run own v)"
  by (rule triple_readonly) (auto intro: read_rules dest: checkpoint_ref_path_Ok)

lemma dirty_add_checkpoint:
  "triple (dirty_at d run own v) (add_checkpoint d c) (\<lambda>_. dirty_at d run own v) (dirty_at d run own v)"
proof -
  have "keeps q (commit_file ((d @ [CHECKPOINTS_DIR]) @ [k]) x)" if "q \<in> {state_path d, run_dir d run}" for q k x
    using that by (intro keep_rules) auto
  then have "keeps q (commit_json enc_ref (d @ [CHECKPOINTS_DIR, k]) c)" if "q \<in> {state_path d, run_dir d run}" for q k
    unfolding commit_json_def using that by (auto intro!: keep_rules)
  then have commit: "triple (dirty_at d run own v) (commit_json enc_ref (d @ [CHECKPOINTS_DIR, k]) c)
      (\<lambda>_. dirty_at d run own v) (dirty_at d run own v)" for k
    by (intro dirty_frame) auto
  have dirs: "triple (dirty_at d run own v) (create_dir_all (checkpoints_dir d)) (\<lambda>_. dirty_at d run own v) (dirty_at d run own v)"
    by (rule dirty_frame) (auto intro!: keep_rules)
  have gen: "triple (dirty_at d run own v) (generation d g) (\<lambda>_. dirty_at d run own v) (dirty_at d run own v)" for g
    by (rule dirty_read) (rule read_rules)
  show ?thesis unfolding add_checkpoint_def
    by (intro triple_bind [OF gen] triple_bind [OF dirs] triple_bind [OF dirty_ref_path] triple_assuming)
      (simp add: commit)
qed

lemma dirty_remove_checkpoint:
  "triple (dirty_at d run own v) (remove_checkpoint d i) (\<lambda>_. dirty_at d run own v) (dirty_at d run own v)"
proof -
  have rm: "triple (dirty_at d run own v) (remove_file (d @ [CHECKPOINTS_DIR, k])) (\<lambda>_. dirty_at d run own v) (dirty_at d run own v)" for k
    by (rule dirty_frame) (auto intro!: keep_rules)
  have sync: "triple (dirty_at d run own v) (sync_dir p) (\<lambda>_. dirty_at d run own v) (dirty_at d run own v)" for p
    by (rule dirty_read) (rule read_rules)
  show ?thesis unfolding remove_checkpoint_def
  proof (intro triple_bind [OF dirty_ref_path] triple_assuming, goal_cases)
    case (1 p)
    then show ?case by (auto intro!: triple_bind [OF rm] triple_bind [OF sync] dirty_then dirty_gc)
  qed
qed

fun resolves_dirty :: "store_op \<Rightarrow> bool" where
  "resolves_dirty SalvageRun = True"
| "resolves_dirty DiscardRun = True"
| "resolves_dirty (CommitLatest _) = True"
| "resolves_dirty (Initialize _) = True"
| "resolves_dirty _ = False"

lemmas dirty_ops = dirty_begin_run dirty_mark_dirty dirty_abandon_run dirty_derive dirty_drop_memory
  dirty_stage dirty_publish dirty_import_dir dirty_add_checkpoint dirty_remove_checkpoint
  dirty_advance dirty_gc

lemma dirty_perform:
  assumes "op_ok d op" "\<not> resolves_dirty op" "op \<noteq> Recover"
  shows "triple (dirty_at d run own v) (perform d op) (\<lambda>_. dirty_at d run own v) (dirty_at d run own v)"
  using assms by (cases op) (auto simp: void_def intro!: dirty_ops dirty_then)

text \<open>C2: work a client was told about is never lost silently. While the record says that a run
  served commands, no operation other than the explicit ones (keep it, discard it, commit its
  final snapshot, create the instance) changes the recorded phase or a byte of the run's directory,
  whatever fails and wherever the process dies; recovery may end the run only when the run's
  final snapshot is already in the store.\<close>

theorem dirty_run_never_lost:
  assumes "perform d op e s = (r, s')" and "op_ok d op" and "\<not> resolves_dirty op"
    and "codec_ok (codec e)" and "disk_record (codec e) d (fs s) = Some (new_record l (Dirty run own))"
  shows "(\<exists>l'. disk_record (codec e) d (fs s') = Some (new_record l' (Dirty run own))) \<and>
      lookup (fs s') (run_dir d run) = lookup (fs s) (run_dir d run) \<or>
    op = Recover \<and> (\<exists>g. final_of (codec e) d (fs s) run g)"
proof (cases "op = Recover")
  case False
  let ?v = "lookup (fs s) (run_dir d run)"
  have "dirty_at d run own ?v e (fs s)" using assms(4,5) by (auto simp: dirty_at_def)
  from triple_anyD [OF dirty_perform [OF assms(2,3) False] this assms(1)]
  show ?thesis by (simp add: dirty_at_def)
next
  case True
  from assms(1) True obtain x where m: "recover d e s = (x, s')"
    by (auto simp: void_def ret_def elim: bind_cases)
  show ?thesis
    by (rule recover_cases [OF m assms(4,5)]) (use assms(5) True in auto)
qed

theorem dirty_run_never_lost_witness:
  "(\<exists>l'. disk_record sample_codec here (fs (snd (perform here CollectGarbage sample_env sample_dirty))) =
      Some (new_record l' (Dirty sample_run sample_owner))) \<and>
   lookup (fs (snd (perform here CollectGarbage sample_env sample_dirty))) (run_dir here sample_run) =
     Some sample_run_node"
proof -
  have rc: "disk_record (codec sample_env) here (fs sample_dirty) =
      Some (new_record (Some sample_gen) (Dirty sample_run sample_owner))"
    by (simp add: sample_facts)
  have ok: "codec_ok (codec sample_env)" by (simp add: sample_codec_ok)
  have "lookup (fs sample_dirty) (run_dir here sample_run) = Some sample_run_node"
    by code_simp
  then show ?thesis
    using dirty_run_never_lost [OF prod.collapse [symmetric] _ _ ok rc, where op = CollectGarbage] by simp
qed

end
