(* ===== verification/StoreRefine.thy ===== *)
theory StoreRefine
  imports SampleStore
begin

text \<open>
  The contract of the store, free of files and directories: a record, a catalogue of published
  generations, and three kinds of atomic step on them, each allowed to some operations only.
  The rules are those of \<open>src/specs/tla/README.md\<close> and \<open>SnapshotCommitTarget.tla\<close>. Every
  operation of the store, wherever it fails or is killed, is a sequence of such steps.
\<close>

subsection \<open>The contract\<close>

type_synonym catalogue = "gen_id \<Rightarrow> Manifest option"

type_synonym spec_state = "Record option \<times> catalogue"

text \<open>The links of a generation an operation may publish.\<close>

fun publishes :: "store_op \<Rightarrow> Record option \<Rightarrow> gen_id option \<Rightarrow> Origin \<Rightarrow> bool" where
  "publishes (Initialize _) rc par orig \<longleftrightarrow> par = None \<and> orig = Image"
| "publishes (ImportDir _ p k) rc par orig \<longleftrightarrow> par = p \<and> orig = k"
| "publishes (Publish _ p k) rc par orig \<longleftrightarrow> par = p \<and> orig = k"
| "publishes SalvageRun rc par orig \<longleftrightarrow>
     (\<exists>r run own. rc = Some r \<and> phase r = Dirty run own \<and> par = latest r \<and> orig = Salvage run)"
| "publishes (Derive _) rc par orig \<longleftrightarrow>
     (\<exists>r. rc = Some r \<and> phase r = Stopped \<and> par = latest r \<and> orig = Edited)"
| "publishes DropMemorySnapshot rc par orig \<longleftrightarrow>
     (\<exists>r. rc = Some r \<and> phase r = Stopped \<and> par = latest r \<and> orig = DropMemory)"
| "publishes _ rc par orig \<longleftrightarrow> False"

text \<open>The records an operation may commit, given the catalogue and the record it replaces.\<close>

fun commits :: "store_op \<Rightarrow> catalogue \<Rightarrow> Record option \<Rightarrow> Record \<Rightarrow> bool" where
  "commits (Initialize _) cat rc r' \<longleftrightarrow>
     (\<exists>g m. cat g = Some m \<and> m_origin m = Image \<and> r' = new_record (Some g) Stopped)"
| "commits Recover cat rc r' \<longleftrightarrow>
     (\<exists>r run. rc = Some r \<and> phase_run (phase r) = Some run \<and>
        ((\<exists>g m. cat g = Some m \<and> m_origin m = Snapshot run \<and> r' = new_record (Some g) Stopped) \<or>
         (\<exists>own. phase r = Running run own \<and> r' = new_record (latest r) Stopped)))"
| "commits (BeginRun _) cat rc r' \<longleftrightarrow>
     (\<exists>r run own. rc = Some r \<and> phase r = Stopped \<and> r' = new_record (latest r) (Running run own))"
| "commits (AdvanceLatest run g) cat rc r' \<longleftrightarrow>
     (\<exists>r. rc = Some r \<and> phase_run (phase r) = Some run \<and> cat g \<noteq> None \<and> r' = new_record (Some g) (phase r))"
| "commits (MarkDirty run) cat rc r' \<longleftrightarrow>
     (\<exists>r own. rc = Some r \<and> phase r = Running run own \<and> r' = new_record (latest r) (Dirty run own))"
| "commits (AbandonRun run) cat rc r' \<longleftrightarrow>
     (\<exists>r own. rc = Some r \<and> phase r = Running run own \<and> r' = new_record (latest r) Stopped)"
| "commits (CommitLatest g) cat rc r' \<longleftrightarrow> cat g \<noteq> None \<and> r' = new_record (Some g) Stopped"
| "commits SalvageRun cat rc r' \<longleftrightarrow>
     (\<exists>r run own g m. rc = Some r \<and> phase r = Dirty run own \<and> cat g = Some m \<and>
        m_origin m = Salvage run \<and> m_parent m = latest r \<and> r' = new_record (Some g) Stopped)"
| "commits DiscardRun cat rc r' \<longleftrightarrow>
     (\<exists>r run own. rc = Some r \<and> phase r = Dirty run own \<and> r' = new_record (latest r) Stopped)"
| "commits (Derive _) cat rc r' \<longleftrightarrow>
     (\<exists>r g m. rc = Some r \<and> phase r = Stopped \<and> cat g = Some m \<and> m_origin m = Edited \<and>
        m_parent m = latest r \<and> r' = new_record (Some g) Stopped)"
| "commits DropMemorySnapshot cat rc r' \<longleftrightarrow>
     (\<exists>r g m. rc = Some r \<and> phase r = Stopped \<and> cat g = Some m \<and> m_origin m = DropMemory \<and>
        m_parent m = latest r \<and> r' = new_record (Some g) Stopped)"
| "commits _ cat rc r' \<longleftrightarrow> False"

text \<open>The operations that collect garbage.\<close>

fun collects :: "store_op \<Rightarrow> bool" where
  "collects Recover = True"
| "collects (AbandonRun _) = True"
| "collects (CommitLatest _) = True"
| "collects SalvageRun = True"
| "collects DiscardRun = True"
| "collects (Derive _) = True"
| "collects DropMemorySnapshot = True"
| "collects (RemoveCheckpoint _) = True"
| "collects CollectGarbage = True"
| "collects _ = False"

inductive spec_step :: "store_op \<Rightarrow> spec_state \<Rightarrow> spec_state \<Rightarrow> bool" for op :: store_op where
  add:
    "cat g = None \<Longrightarrow> m_id m = g \<Longrightarrow> publishes op rc (m_parent m) (m_origin m) \<Longrightarrow>
     spec_step op (rc, cat) (rc, cat(g \<mapsto> m))"
| replace:
    "commits op cat rc r' \<Longrightarrow> spec_step op (rc, cat) (Some r', cat)"
| collect:
    "collects op \<Longrightarrow> (\<And>g. cat' g \<in> {cat g, None}) \<Longrightarrow> (\<And>g. latest r = Some g \<Longrightarrow> cat' g = cat g) \<Longrightarrow>
     spec_step op (Some r, cat) (Some r, cat')"

inductive_cases spec_stepE: "spec_step op v v'"

abbreviation spec_reach :: "store_op \<Rightarrow> spec_state \<Rightarrow> spec_state \<Rightarrow> bool" where
  "spec_reach op \<equiv> (spec_step op)\<^sup>*\<^sup>*"

subsection \<open>What the disk stands for\<close>

definition store_state :: "codec \<Rightarrow> path \<Rightarrow> node \<Rightarrow> spec_state" where
  "store_state C d t = (disk_record C d t, complete_gen C d t)"

lemma same_store_state:
  assumes "same_store d t t'"
  shows "store_state C d t' = store_state C d t"
proof -
  have "complete_gen C d t' g = complete_gen C d t g" for g
  proof (cases "valid_component g")
    case True
    then show ?thesis using same_store_gen [OF assms] complete_gen_cong by blast
  next
    case False
    then show ?thesis using complete_gen_valid by (metis option.exhaust)
  qed
  then show ?thesis using same_store_record [OF assms] by (auto simp: store_state_def)
qed

definition follows :: "path \<Rightarrow> store_op \<Rightarrow> spec_state \<Rightarrow> env \<Rightarrow> node \<Rightarrow> bool" where
  "follows d op v e t \<longleftrightarrow> sound d e t \<and> spec_reach op v (store_state (codec e) d t)"

definition follows_at :: "path \<Rightarrow> store_op \<Rightarrow> spec_state \<Rightarrow> Record option \<Rightarrow> env \<Rightarrow> node \<Rightarrow> bool" where
  "follows_at d op v rc e t \<longleftrightarrow> follows d op v e t \<and> disk_record (codec e) d t = rc"

lemma follows_same: "same_store d t t' \<Longrightarrow> follows d op v e t \<Longrightarrow> follows d op v e t'"
  by (auto simp: follows_def same_store_state intro: same_store_inv)

lemma follows_at_same: "same_store d t t' \<Longrightarrow> follows_at d op v rc e t \<Longrightarrow> follows_at d op v rc e t'"
  by (auto simp: follows_at_def same_store_record intro: follows_same)

lemma follows_at_follows: "follows_at d op v rc e t \<Longrightarrow> follows d op v e t"
  by (simp add: follows_at_def)

lemma follows_at_knows: "follows_at d op v (Some r) e t \<Longrightarrow> knows d r e t"
  by (simp add: follows_at_def follows_def knows_def)

lemma follows_step:
  assumes "follows d op v e t" "sound d e t'"
    "spec_step op (store_state (codec e) d t) (store_state (codec e) d t')"
  shows "follows d op v e t'"
  using assms unfolding follows_def by (auto intro: rtranclp.rtrancl_into_rtrancl)

subsection \<open>The building blocks\<close>

lemma follows_quiet:
  "quiet d m \<Longrightarrow> triple (follows d op v) m (\<lambda>_. follows d op v) (follows d op v)"
  by (rule triple_quiet) (auto intro: follows_same)

lemma follows_at_quiet:
  "quiet d m \<Longrightarrow> triple (follows_at d op v rc) m (\<lambda>_. follows_at d op v rc) (follows d op v)"
  by (rule triple_quiet) (auto intro: follows_at_same follows_at_follows)

lemma follows_any_record:
  assumes "\<And>rc. triple (follows_at d op v rc) m Q E"
  shows "triple (follows d op v) m Q E"
  unfolding triple_def
proof (intro allI impI)
  fix e and s :: sys
  assume "follows d op v e (fs s)"
  with assms [of "disk_record (codec e) d (fs s)"]
  show "case m e s of (Ok x, s') \<Rightarrow> Q x e (fs s') | (Err _, s') \<Rightarrow> E e (fs s') | (Killed, s') \<Rightarrow> E e (fs s')"
    by (auto simp: triple_def follows_at_def)
qed

lemma follows_require:
  "triple (follows d op v) (require_record d) (\<lambda>r. follows_at d op v (Some r)) (follows d op v)"
  by (rule triple_weaken [OF triple_require [of "follows d op v" "follows d op v"]])
    (auto simp: follows_at_def)

lemma follows_commit:
  assumes P: "\<And>e t. P e t \<Longrightarrow> follows d op v e t \<and> names_ok (codec e) d l ph t \<and>
    commits op (complete_gen (codec e) d t) (disk_record (codec e) d t) (new_record l ph)"
  shows "triple P (commit_record d l ph) (\<lambda>_. follows d op v) (follows d op v)"
proof -
  have "follows d op v e (fs s')" if m: "commit_record d l ph e s = (r, s')" and p: "P e (fs s)" for e s r s'
  proof -
    note p' = P [OF p]
    have i: "sound d e (fs s)" using p' by (simp add: follows_def)
    have snd: "sound d e (fs s')" by (rule commit_record_inv [OF m i]) (use p' in simp)
    have gens: "complete_gen (codec e) d (fs s') = complete_gen (codec e) d (fs s)"
      by (rule ext) (rule complete_gen_cong [OF keepsD [OF commit_record_gen m]])
    have "record_ids_ok (new_record l ph)" using p' by (blast intro: names_ok_ids)
    from commit_record_disk(1) [OF m _ this] i
    consider "disk_record (codec e) d (fs s') = disk_record (codec e) d (fs s)"
      | "disk_record (codec e) d (fs s') = Some (new_record l ph)" by blast
    then show ?thesis
    proof cases
      case 1
      with p' snd gens show ?thesis by (simp add: follows_def store_state_def)
    next
      case 2
      show ?thesis
        by (rule follows_step [OF _ snd]) (use p' 2 gens in \<open>auto simp: store_state_def intro: spec_step.replace\<close>)
    qed
  qed
  then show ?thesis by (intro tripleI) blast+
qed

lemma follows_gc:
  assumes "collects op"
  shows "triple (follows d op v) (collect_garbage d) (\<lambda>_. follows d op v) (follows d op v)"
proof -
  have "follows d op v e (fs s')" if m: "collect_garbage d e s = (r, s')" and p: "follows d op v e (fs s)" for e s r s'
  proof -
    have i: "sound d e (fs s)" using p by (simp add: follows_def)
    have snd: "sound d e (fs s')" by (rule gc_inv [OF m i])
    show ?thesis
    proof (cases "disk_record (codec e) d (fs s)")
      case None
      then have "fs s' = fs s" using m by (auto elim: gc_cases)
      then show ?thesis using p by simp
    next
      case (Some rc)
      have "complete_gen (codec e) d (fs s') g \<in> {complete_gen (codec e) d (fs s) g, None}" for g
      proof (cases "valid_component g")
        case True
        from gc_never_alters [OF m this] show ?thesis
          by (auto simp: complete_gen_def)
      next
        case False
        then show ?thesis using complete_gen_valid by (metis insertCI option.exhaust)
      qed
      moreover have "complete_gen (codec e) d (fs s') g = complete_gen (codec e) d (fs s) g"
        if "latest rc = Some g" for g
        by (rule complete_gen_cong [OF gc_keeps_latest [OF m Some that]])
      ultimately have "spec_step op (store_state (codec e) d (fs s)) (store_state (codec e) d (fs s'))"
        unfolding store_state_def gc_record [OF m] Some by (rule spec_step.collect [OF assms])
      then show ?thesis by (rule follows_step [OF p snd])
    qed
  qed
  then show ?thesis by (intro tripleI) blast+
qed

text \<open>Publishing replaces nothing: the rename fails unless its target is free.\<close>

lemma rename_target_free:
  assumes "rename (st_dir st) (generation_dir d (st_id st)) e s = (Ok u, s')" "staging_ok d st"
    "staged C st m (fs s)" "lookup (fs s) (st_dir st) = Some n"
  shows "complete_gen C d (fs s) (st_id st) = None"
proof -
  have ne: "st_dir st \<noteq> generation_dir d (st_id st)" using assms(2) by (auto simp: staging_ok_def)
  from assms(3,4) obtain es where n: "n = Sub es"
    by (cases n) (auto simp: staged_def lookup_append)
  from assms(1) ne have "may_replace n (lookup (fs s) (generation_dir d (st_id st)))"
    unfolding rename_def by (auto elim!: call_OkE simp: assms(4) split: if_splits)
  then show ?thesis
    by (auto simp: n may_replace_def complete_gen_def gen_manifest_def split: option.splits node.splits)
qed

lemma publish_state:
  assumes m: "publish d st par orig e s = (r, s')" and i: "sound d e (fs s)"
    and st: "staging_ok d st" and l: "link_ids_ok par orig"
  obtains (unchanged) "store_state (codec e) d (fs s') = store_state (codec e) d (fs s)" "\<And>x. r \<noteq> Ok x"
    | (added) k where "m_id k = st_id st" "m_parent k = par" "m_origin k = orig"
        "complete_gen (codec e) d (fs s) (st_id st) = None"
        "store_state (codec e) d (fs s') =
          (disk_record (codec e) d (fs s), (complete_gen (codec e) d (fs s))(st_id st \<mapsto> k))"
        "\<And>x. r = Ok x \<Longrightarrow> x = st_id st"
proof -
  have q: "quiet d (prepare st par orig)" using st keeps_prepare by (rule quiet_staging)
  from m show ?thesis unfolding publish_prepare
  proof (cases rule: bind_cases)
    case (step u1 s1)
    note same = same_store_state [OF quietD [OF q step(1)], of "codec e"]
    from i st have C: "codec_ok (codec e)" "valid_component (st_id st)" by (simp_all add: staging_ok_def)
    obtain k n where p: "staged (codec e) st k (fs s1)" "lookup (fs s1) (st_dir st) = Some n" "all_synced n"
      and links: "m_parent k = par" "m_origin k = orig"
      by (rule prepare_Ok [OF step(1) C(1) l C(2)]) (rule that)
    have i1: "sound d e (fs s1)" using same_store_inv [OF quietD [OF q step(1)]] i by simp
    from step(2) show ?thesis
    proof (cases rule: bind_cases)
      case 2: (step u2 s2)
      have ro: "readonly (bind (sync_dir (generations_dir d)) (\<lambda>_. ret (st_id st)))" by (intro read_rules)
      note fs = readonlyD [OF ro 2(2)]
      note r = publish_rename_step [OF 2(1) i1 st p]
      have gens: "complete_gen (codec e) d (fs s2) g = complete_gen (codec e) d (fs s1) g" if "g \<noteq> st_id st" for g
      proof (cases "valid_component g")
        case True
        have "keeps (generation_dir d g) (rename (st_dir st) (generation_dir d (st_id st)))"
          by (rule keeps_rename) (use st True that in \<open>auto simp: staging_ok_def\<close>)
        from complete_gen_cong [OF keepsD [OF this 2(1)]] show ?thesis .
      qed (use complete_gen_valid in \<open>metis option.exhaust\<close>)
      have "keeps (state_path d) (rename (st_dir st) (generation_dir d (st_id st)))"
        by (rule keeps_rename) (use st in \<open>auto simp: staging_ok_def\<close>)
      note rc = disk_record_cong [OF keepsD [OF this 2(1)], of "codec e"]
      from rc gens r(2) have "store_state (codec e) d (fs s') =
          (disk_record (codec e) d (fs s1), (complete_gen (codec e) d (fs s1))(st_id st \<mapsto> k))"
        by (auto simp: store_state_def fs)
      moreover have "r = Ok x \<Longrightarrow> x = st_id st" for x using 2(2) by (auto elim!: bind_OkE)
      ultimately show ?thesis
        using same rename_target_free [OF 2(1) st p(1,2)] links p(1)
        by (intro added [of k]) (auto simp: staged_def store_state_def)
    qed (use same unchanged in \<open>auto dest: rename_fail\<close>)
  qed (use same_store_state [OF quietD [OF q]] unchanged in blast)+
qed

lemma follows_publish:
  assumes st: "staging_ok d st" and l: "link_ids_ok par orig" and p: "publishes op rc par orig"
  shows "triple (follows_at d op v rc) (publish d st par orig)
    (\<lambda>g e t. follows_at d op v rc e t \<and>
       (\<exists>k. complete_gen (codec e) d t g = Some k \<and> m_parent k = par \<and> m_origin k = orig))
    (follows d op v)"
proof -
  have "follows_at d op v rc e (fs s') \<and>
      (\<forall>g. r = Ok g \<longrightarrow> (\<exists>k. complete_gen (codec e) d (fs s') g = Some k \<and> m_parent k = par \<and> m_origin k = orig))"
    if m: "publish d st par orig e s = (r, s')" and a: "follows_at d op v rc e (fs s)" for e s r s'
  proof -
    have i: "sound d e (fs s)" "follows d op v e (fs s)" "disk_record (codec e) d (fs s) = rc"
      using a by (simp_all add: follows_at_def follows_def)
    have snd: "sound d e (fs s')"
      using triple_anyD [OF triple_publish_sound [OF st l] i(1) m] .
    show ?thesis
    proof (rule publish_state [OF m i(1) st l], goal_cases)
      case 1
      with a snd show ?case by (auto simp: follows_at_def follows_def store_state_def)
    next
      case (2 k)
      have "spec_step op (store_state (codec e) d (fs s)) (store_state (codec e) d (fs s'))"
        unfolding 2(5) store_state_def [of _ _ "fs s"] by (rule spec_step.add) (use 2 p i(3) in auto)
      from follows_step [OF i(2) snd this] 2 i(3) show ?case
        by (auto simp: follows_at_def store_state_def)
    qed
  qed
  then show ?thesis by (intro tripleI) (blast intro: follows_at_follows)+
qed


lemma follows_known:
  assumes "\<And>r. phase_ids_ok (phase r) \<Longrightarrow>
    triple (follows_at d op v (Some r)) (f r) (\<lambda>_. follows d op v) (follows d op v)"
  shows "triple (follows d op v) (bind (require_record d) f) (\<lambda>_. follows d op v) (follows d op v)"
proof (rule triple_bind [OF follows_require])
  fix r :: Record
  have "triple (\<lambda>e t. follows_at d op v (Some r) e t \<and> phase_ids_ok (phase r)) (f r)
      (\<lambda>_. follows d op v) (follows d op v)"
    using assms by (rule triple_assuming)
  then show "triple (follows_at d op v (Some r)) (f r) (\<lambda>_. follows d op v) (follows d op v)"
    by (rule triple_pre) (auto simp: follows_at_def dest: disk_phase_ids)
qed

lemma follows_commit_known:
  assumes "phase_ids_ok ph" "\<And>cat. commits op cat (Some r) (new_record (latest r) ph)"
  shows "triple (follows_at d op v (Some r)) (commit_record d (latest r) ph) (\<lambda>_. follows d op v) (follows d op v)"
  by (rule follows_commit)
    (use assms in \<open>auto simp: follows_at_follows knows_latest follows_at_knows follows_at_def [of _ _ _ _ _ t for t]\<close>)

lemma follows_commit_gc:
  assumes "collects op" "triple P (commit_record d l ph) (\<lambda>_. follows d op v) (follows d op v)"
  shows "triple P (bind (commit_record d l ph) (\<lambda>_. bind (collect_garbage d) (\<lambda>_. ret x)))
    (\<lambda>_. follows d op v) (follows d op v)"
  by (rule triple_bind [OF assms(2)]) (rule triple_then [OF follows_gc [OF assms(1)]])

lemma follows_commit_latest:
  assumes "collects op" "\<And>e t. P e t \<Longrightarrow> follows d op v e t"
    "\<And>e t. P e t \<Longrightarrow> complete_gen (codec e) d t g \<noteq> None \<Longrightarrow>
       commits op (complete_gen (codec e) d t) (disk_record (codec e) d t) (new_record (Some g) Stopped)"
  shows "triple P (commit_latest d g) (\<lambda>_. follows d op v) (follows d op v)"
  unfolding commit_latest_def
  by (rule triple_bind [OF triple_generation [of P]],
      use assms(2) in blast,
      rule follows_commit_gc [OF assms(1) follows_commit])
    (use assms(2,3) in \<open>auto simp: names_ok_def phase_ids_ok_def\<close>)

lemma follows_stage_fill_publish:
  assumes "\<And>st. staging_ok d st \<Longrightarrow> quiet d (fill st)" "link_ids_ok par orig" "publishes op rc par orig"
    "\<And>g. triple (\<lambda>e t. follows_at d op v rc e t \<and>
         (\<exists>k. complete_gen (codec e) d t g = Some k \<and> m_parent k = par \<and> m_origin k = orig))
       (fin g) (\<lambda>_. follows d op v) (follows d op v)"
  shows "triple (follows_at d op v rc) (bind (stage d) (\<lambda>st. bind (fill st) (\<lambda>_. bind (publish d st par orig) fin)))
     (\<lambda>_. follows d op v) (follows d op v)"
proof (rule triple_bind [OF triple_stage [of d "follows_at d op v rc"]])
  fix st
  show "triple (\<lambda>e t. follows_at d op v rc e t \<and> staging_ok d st)
     (bind (fill st) (\<lambda>_. bind (publish d st par orig) fin)) (\<lambda>_. follows d op v) (follows d op v)"
  proof (rule triple_assuming)
    assume st: "staging_ok d st"
    show "triple (follows_at d op v rc) (bind (fill st) (\<lambda>_. bind (publish d st par orig) fin))
        (\<lambda>_. follows d op v) (follows d op v)"
      by (intro triple_bind [OF follows_at_quiet [OF assms(1) [OF st]]]
          triple_bind [OF follows_publish [OF st assms(2,3)]] assms(4))
  qed
qed (auto intro: follows_at_same follows_at_follows)

text \<open>A generation derived from the record and committed in its place.\<close>

lemma follows_publish_latest:
  assumes "\<And>st. staging_ok d st \<Longrightarrow> quiet d (fill st)" "link_ids_ok par orig" "publishes op rc par orig"
    "collects op"
    "\<And>cat g k. cat g = Some k \<Longrightarrow> m_parent k = par \<Longrightarrow> m_origin k = orig \<Longrightarrow>
       commits op cat rc (new_record (Some g) Stopped)"
  shows "triple (follows_at d op v rc)
     (bind (stage d) (\<lambda>st. bind (fill st) (\<lambda>_. bind (publish d st par orig) (\<lambda>g.
        bind (commit_latest d g) (\<lambda>_. ret (x g))))))
     (\<lambda>_. follows d op v) (follows d op v)"
proof (rule follows_stage_fill_publish [OF assms(1-3)])
  fix g
  have "triple (\<lambda>e t. follows_at d op v rc e t \<and>
         (\<exists>k. complete_gen (codec e) d t g = Some k \<and> m_parent k = par \<and> m_origin k = orig))
       (commit_latest d g) (\<lambda>_. follows d op v) (follows d op v)"
    by (rule follows_commit_latest [OF assms(4)]) (unfold follows_at_def, blast, metis assms(5))
  then show "triple (\<lambda>e t. follows_at d op v rc e t \<and>
         (\<exists>k. complete_gen (codec e) d t g = Some k \<and> m_parent k = par \<and> m_origin k = orig))
       (bind (commit_latest d g) (\<lambda>_. ret (x g))) (\<lambda>_. follows d op v) (follows d op v)"
    by (rule triple_then)
qed


subsection \<open>The operations\<close>

lemma follows_initialize:
  assumes "staging_ok d st" "op = Initialize st"
  shows "triple (follows d op v) (initialize d st) (\<lambda>_. follows d op v) (follows d op v)"
proof -
  have l: "link_ids_ok None Image" by (simp add: link_ids_ok_def)
  have pub: "triple (follows d op v) (publish d st None Image)
      (\<lambda>g e t. follows d op v e t \<and> (\<exists>k. complete_gen (codec e) d t g = Some k \<and> m_origin k = Image))
      (follows d op v)"
  proof -
    have "triple (follows_at d op v rc) (publish d st None Image)
        (\<lambda>g e t. follows d op v e t \<and> (\<exists>k. complete_gen (codec e) d t g = Some k \<and> m_origin k = Image))
        (follows d op v)" for rc
      by (rule triple_weaken [OF follows_publish [OF assms(1) l]])
        (use assms(2) in \<open>auto simp: follows_at_def\<close>)
    then show ?thesis by (rule follows_any_record)
  qed
  have fin: "triple (\<lambda>e t. follows d op v e t \<and> (\<exists>k. complete_gen (codec e) d t g = Some k \<and> m_origin k = Image))
      (commit_record d (Some g) Stopped) (\<lambda>_. follows d op v) (follows d op v)" for g
    by (rule follows_commit) (use assms(2) in \<open>auto simp: names_ok_def phase_ids_ok_def\<close>)
  have test: "triple (follows d op v) (store_exists d) (\<lambda>_. follows d op v) (follows d op v)"
    by (rule triple_reading) (auto intro: read_rules)
  show ?thesis unfolding initialize_def
    by (intro triple_bind [OF test] triple_if triple_bind [OF pub] triple_then [OF fin])
      (auto intro: triple_raise)
qed

lemma follows_recover: "triple (follows d Recover v) (recover d) (\<lambda>_. follows d Recover v) (follows d Recover v)"
proof -
  have final: "triple (follows_at d Recover v (Some r)) (final_generation_of d run)
      (\<lambda>x e t. follows_at d Recover v (Some r) e t \<and>
         (\<forall>g. x = Some g \<longrightarrow> (\<exists>m. complete_gen (codec e) d t g = Some m \<and> m_origin m = Snapshot run)))
      (follows d Recover v)" for r run
    by (rule triple_readonly) (auto intro: read_rules simp: follows_at_follows dest: final_generation_of_Ok)
  have fwd: "triple (\<lambda>e t. follows_at d Recover v (Some r) e t \<and>
         (\<exists>m. complete_gen (codec e) d t g = Some m \<and> m_origin m = Snapshot run))
      (commit_record d (Some g) Stopped) (\<lambda>_. follows d Recover v) (follows d Recover v)"
    if "phase_run (phase r) = Some run" for r g run
    by (rule follows_commit) (use that in \<open>auto simp: names_ok_def phase_ids_ok_def follows_at_def\<close>)
  have "triple (follows_at d Recover v (Some r)) (recover_run d r run)
      (\<lambda>_. follows d Recover v) (follows d Recover v)" if run: "phase_run (phase r) = Some run" for r run
    unfolding recover_run_def
  proof (rule triple_bind [OF final], goal_cases)
    case (1 x)
    show ?case
    proof (cases x)
      case None
      have "triple (follows_at d Recover v (Some r)) (commit_record d (latest r) Stopped)
          (\<lambda>_. follows d Recover v) (follows d Recover v)" if "phase r = Running run' own" for run' own
        by (rule follows_commit_known) (use that run in \<open>auto simp: phase_ids_ok_def\<close>)
      then show ?thesis using None
        by (auto simp: follows_at_follows split: Phase.splits
            intro!: triple_then [of "follows_at d Recover v (Some r)"] triple_raise)
    next
      case (Some g)
      then show ?thesis by (auto intro: triple_then [OF fwd [OF run]])
    qed
  qed
  then show ?thesis unfolding recover_def
    by (intro follows_known)
      (auto split: option.splits simp: follows_at_follows
        intro!: triple_bind [where R = "\<lambda>_. follows d Recover v"] triple_then [OF follows_gc] triple_ret)
qed

lemma follows_begin_run:
  "triple (follows d (BeginRun x) v) (begin_run d x) (\<lambda>_. follows d (BeginRun x) v) (follows d (BeginRun x) v)"
  unfolding begin_run_def
proof (rule follows_known)
  fix r :: Record
  let ?op = "BeginRun x"
  let ?base = "case (case x of Some g \<Rightarrow> Some g | None \<Rightarrow> latest r) of
      Some g \<Rightarrow> bind (generation d g) (\<lambda>x. ret (Some x)) | None \<Rightarrow> ret None"
  have base: "readonly ?base" by (auto intro!: read_rules split: option.splits)
  have fresh: "triple (follows_at d ?op v (Some r)) (fresh_id ''r'')
      (\<lambda>i e t. follows_at d ?op v (Some r) e t \<and> valid_component i) (follows d ?op v)"
    by (rule triple_readonly) (auto intro: read_rules simp: fresh_id_def new_id_valid follows_at_follows)
  have body: "triple (\<lambda>e t. follows_at d ?op v (Some r) e t \<and> valid_component i)
     (bind (bind (create_dir_all (run_dir d i)) (\<lambda>_.
       bind (case b of None \<Rightarrow> ret () | Some g \<Rightarrow> clone_base g (run_dir d i)) (\<lambda>_.
       bind (sync_tree (run_dir d i)) (\<lambda>_.
       bind (sync_dir (runs_dir d)) (\<lambda>_. ask process)))))
      (\<lambda>me. bind (commit_record d (latest r) (Running i me)) (\<lambda>_. ret (z i))))
     (\<lambda>_. follows d ?op v) (follows d ?op v)" if "phase r = Stopped" for i b z
    by (intro triple_assuming triple_bind [OF follows_at_quiet [OF quiet_fill_run]]
        triple_then [OF follows_commit_known]) (use that in \<open>auto simp: phase_ids_ok_def\<close>)
  show "triple (follows_at d ?op v (Some r)) (if phase r \<noteq> Stopped then raise (Bail ''instance is not stopped'')
     else
       bind ?base (\<lambda>base.
       bind (fresh_id ''r'') (\<lambda>i.
       bind (create_dir_all (run_dir d i)) (\<lambda>_.
       bind (case base of None \<Rightarrow> ret () | Some g \<Rightarrow> clone_base g (run_dir d i)) (\<lambda>_.
       bind (sync_tree (run_dir d i)) (\<lambda>_.
       bind (sync_dir (runs_dir d)) (\<lambda>_.
       bind (ask process) (\<lambda>me.
       bind (commit_record d (latest r) (Running i me)) (\<lambda>_.
       ret \<lparr>r_id = i, r_dir = run_dir d i, r_base = base\<rparr>)))))))))
     (\<lambda>_. follows d ?op v) (follows d ?op v)"
    by (auto intro!: triple_raise triple_bind [OF triple_reading [OF base]] triple_bind [OF fresh]
        body [unfolded bind_assoc] simp: follows_at_follows)
qed


lemma follows_advance:
  "triple (follows d (AdvanceLatest run g) v) (advance_latest d run g)
     (\<lambda>_. follows d (AdvanceLatest run g) v) (follows d (AdvanceLatest run g) v)"
  unfolding advance_latest_def
proof (rule triple_bind [OF triple_generation], simp, rule triple_bind [OF triple_require], goal_cases)
  case (2 x r)
  show ?case
    by (intro triple_if triple_raise follows_commit) (auto simp: names_ok_def disk_phase_ids)
qed simp

lemma follows_mark_dirty:
  "triple (follows d (MarkDirty run) v) (mark_dirty d run) (\<lambda>_. follows d (MarkDirty run) v) (follows d (MarkDirty run) v)"
  unfolding mark_dirty_def
  by (rule follows_known)
    (auto simp: phase_ids_ok_def follows_at_follows intro!: triple_raise triple_ret follows_commit_known
      split: Phase.splits)

lemma ret_bind: "bind (ret x) f = f x"
  by (rule ext)+ (simp add: bind_def ret_def)

lemma follows_abandon_run:
  "triple (follows d (AbandonRun run) v) (abandon_run d run) (\<lambda>_. follows d (AbandonRun run) v) (follows d (AbandonRun run) v)"
  unfolding abandon_run_def
proof (rule follows_known, goal_cases)
  case (1 r)
  show ?case
  proof (cases "\<exists>own. phase r = Running run own")
    case True
    then obtain own where "phase r = Running run own" by blast
    then show ?thesis
      by (auto simp: ret_bind phase_ids_ok_def intro!: follows_commit_gc follows_commit_known)
  qed (auto simp: bind_raise follows_at_follows intro!: triple_raise split: Phase.splits)
qed

lemma follows_discard_run:
  "triple (follows d DiscardRun v) (discard_run d) (\<lambda>_. follows d DiscardRun v) (follows d DiscardRun v)"
  unfolding discard_run_def
  by (rule follows_known)
    (auto simp: phase_ids_ok_def follows_at_follows split: Phase.splits
      intro!: follows_commit_gc follows_commit_known triple_raise)

lemma follows_import_dir:
  assumes "link_ids_ok par orig"
  shows "triple (follows d (ImportDir src par orig) v) (import_dir d src par orig)
    (\<lambda>_. follows d (ImportDir src par orig) v) (follows d (ImportDir src par orig) v)"
proof (rule follows_any_record)
  fix rc
  have "triple (follows_at d (ImportDir src par orig) v rc) (bind (stage d) (\<lambda>st.
     bind (bind (read_dir src) (\<lambda>es. each (import_entry src (st_dir st)) es)) (\<lambda>_.
     bind (publish d st par orig) ret)))
    (\<lambda>_. follows d (ImportDir src par orig) v) (follows d (ImportDir src par orig) v)"
    by (rule follows_stage_fill_publish)
      (auto intro!: quiet_at_staging keep_rules triple_ret assms simp: follows_at_follows)
  then show "triple (follows_at d (ImportDir src par orig) v rc) (import_dir d src par orig)
    (\<lambda>_. follows d (ImportDir src par orig) v) (follows d (ImportDir src par orig) v)"
    unfolding import_dir_def bind_assoc by (simp add: bind_ret)
qed

lemma follows_publish_op:
  assumes "staging_ok d st" "link_ids_ok par orig"
  shows "triple (follows d (Publish st par orig) v) (publish d st par orig)
    (\<lambda>_. follows d (Publish st par orig) v) (follows d (Publish st par orig) v)"
  by (rule follows_any_record, rule triple_weaken [OF follows_publish [OF assms]])
    (auto simp: follows_at_follows)

text \<open>A record's latest generation is a valid parent.\<close>

lemma follows_latest_link:
  assumes "phase_ids_ok (phase r) \<Longrightarrow> link_ids_ok (latest r) orig \<Longrightarrow>
    triple (follows_at d op v (Some r)) m (\<lambda>_. follows d op v) (follows d op v)"
    "phase_ids_ok (phase r)" "link_ids_ok None orig"
  shows "triple (follows_at d op v (Some r)) m (\<lambda>_. follows d op v) (follows d op v)"
proof -
  have "triple (\<lambda>e t. follows_at d op v (Some r) e t \<and> link_ids_ok (latest r) orig) m
      (\<lambda>_. follows d op v) (follows d op v)"
    by (rule triple_assuming) (rule assms(1) [OF assms(2)])
  then show ?thesis
    by (rule triple_pre) (use assms(3) in
      \<open>auto simp: follows_at_def link_ids_ok_def disk_latest_valid split: option.splits\<close>)
qed

lemma follows_salvage:
  "triple (follows d SalvageRun v) (salvage d) (\<lambda>_. follows d SalvageRun v) (follows d SalvageRun v)"
  unfolding salvage_def
proof (rule follows_known)
  fix r :: Record
  assume ids: "phase_ids_ok (phase r)"
  have body: "triple (follows_at d SalvageRun v (Some r)) (bind (stage d) (\<lambda>st.
         bind (bind (clone_or_copy_file (run_dir d run @ [ROOTFS]) (st_dir st @ [ROOTFS])) (\<lambda>_.
           clone_shares (run_dir d run) (st_dir st))) (\<lambda>_.
         bind (publish d st (latest r) (Salvage run)) (\<lambda>g.
         bind (commit_latest d g) (\<lambda>_. ret g))))) (\<lambda>_. follows d SalvageRun v) (follows d SalvageRun v)"
    if "phase r = Dirty run own" for run own
    by (rule follows_latest_link [where orig = "Salvage run"], rule follows_publish_latest)
      (use that ids in \<open>auto intro!: quiet_at_staging keep_rules intro: apart_append1
         simp: link_ids_ok_def phase_ids_ok_def\<close>)
  show "triple (follows_at d SalvageRun v (Some r)) (case phase r of
       Dirty run _ \<Rightarrow>
         bind (stage d) (\<lambda>st.
         bind (clone_or_copy_file (run_dir d run @ [ROOTFS]) (st_dir st @ [ROOTFS])) (\<lambda>_.
         bind (clone_shares (run_dir d run) (st_dir st)) (\<lambda>_.
         bind (publish d st (latest r) (Salvage run)) (\<lambda>g.
         bind (commit_latest d g) (\<lambda>_. ret g)))))
     | _ \<Rightarrow> raise (Bail ''there is no crashed run to salvage''))
     (\<lambda>_. follows d SalvageRun v) (follows d SalvageRun v)"
    using body [unfolded bind_assoc]
    by (auto intro!: triple_raise simp: follows_at_follows split: Phase.splits)
qed

lemma follows_generation:
  "triple (follows_at d op v rc) (generation d l) (\<lambda>_. follows_at d op v rc) (follows d op v)"
  by (rule triple_reading) (auto intro: read_rules simp: follows_at_follows)

lemma follows_derive:
  assumes "confined edit"
  shows "triple (follows d (Derive edit) v) (derive d edit) (\<lambda>_. follows d (Derive edit) v) (follows d (Derive edit) v)"
  unfolding derive_def
proof (rule follows_known)
  fix r :: Record
  let ?op = "Derive edit"
  assume ids: "phase_ids_ok (phase r)"
  have body: "triple (follows_at d ?op v (Some r))
        (bind (stage d) (\<lambda>st. bind (bind (clone_base base (st_dir st)) (\<lambda>_. edit (st_dir st))) (\<lambda>_.
         bind (publish d st (Some l) Edited) (\<lambda>g.
         bind (commit_latest d g) (\<lambda>_. ret g))))) (\<lambda>_. follows d ?op v) (follows d ?op v)"
    if "phase r = Stopped" "latest r = Some l" for l base
    by (rule follows_latest_link [where orig = Edited], rule follows_publish_latest)
      (use that ids assms in \<open>auto intro!: quiet_at_staging keep_rules simp: confined_def link_ids_ok_def\<close>)
  show "triple (follows_at d ?op v (Some r)) (if phase r \<noteq> Stopped
       then raise (Bail ''the instance must be stopped to edit its saved state'')
     else (case latest r of
       None \<Rightarrow> raise (Bail ''instance has no saved state to edit'')
     | Some l \<Rightarrow>
         bind (generation d l) (\<lambda>base.
         bind (stage d) (\<lambda>st.
         bind (clone_base base (st_dir st)) (\<lambda>_.
         bind (edit (st_dir st)) (\<lambda>_.
         bind (publish d st (Some l) Edited) (\<lambda>g.
         bind (commit_latest d g) (\<lambda>_. ret g)))))))) (\<lambda>_. follows d ?op v) (follows d ?op v)"
    by (auto intro!: triple_raise triple_bind [OF follows_generation] body [unfolded bind_assoc]
        simp: follows_at_follows split: option.splits)
qed

lemma follows_drop_memory:
  "triple (follows d DropMemorySnapshot v) (drop_memory d)
     (\<lambda>_. follows d DropMemorySnapshot v) (follows d DropMemorySnapshot v)"
  unfolding drop_memory_def
proof (rule follows_known)
  fix r :: Record
  let ?op = DropMemorySnapshot
  assume ids: "phase_ids_ok (phase r)"
  have body: "triple (follows_at d ?op v (Some r))
        (bind (stage d) (\<lambda>st. bind (bind (clone_or_copy_file (rootfs base) (st_dir st @ [ROOTFS])) (\<lambda>_.
           clone_shares (g_dir base) (st_dir st))) (\<lambda>_.
         bind (publish d st (Some l) DropMemory) (\<lambda>g.
         bind (commit_latest d g) (\<lambda>_. ret (Some g)))))) (\<lambda>_. follows d ?op v) (follows d ?op v)"
    if "phase r = Stopped" "latest r = Some l" for l base
    by (rule follows_latest_link [where orig = DropMemory], rule follows_publish_latest)
      (use that ids in \<open>auto intro!: quiet_at_staging keep_rules intro: apart_append1 simp: link_ids_ok_def\<close>)
  show "triple (follows_at d ?op v (Some r)) (if phase r \<noteq> Stopped
     then raise (Bail ''the instance must be stopped to drop its memory snapshot'')
     else (case latest r of
       None \<Rightarrow> ret None
     | Some l \<Rightarrow>
         bind (generation d l) (\<lambda>base.
         if \<not> has_memory (g_manifest base) then ret None
         else
           bind (stage d) (\<lambda>st.
           bind (clone_or_copy_file (rootfs base) (st_dir st @ [ROOTFS])) (\<lambda>_.
           bind (clone_shares (g_dir base) (st_dir st)) (\<lambda>_.
           bind (publish d st (Some l) DropMemory) (\<lambda>g.
           bind (commit_latest d g) (\<lambda>_. ret (Some g))))))))) (\<lambda>_. follows d ?op v) (follows d ?op v)"
    by (auto intro!: triple_raise triple_ret triple_bind [OF follows_generation] body [unfolded bind_assoc]
        simp: follows_at_follows split: option.splits)
qed


lemma follows_ref_path:
  "triple (follows d op v) (checkpoint_ref_path d i)
     (\<lambda>p e t. follows d op v e t \<and> p = d @ [CHECKPOINTS_DIR, i @ ''.ref'']) (follows d op v)"
  by (rule triple_readonly) (auto intro: read_rules dest: checkpoint_ref_path_Ok)

lemma follows_add_checkpoint:
  "triple (follows d op v) (add_checkpoint d c) (\<lambda>_. follows d op v) (follows d op v)"
proof -
  have dirs: "quiet d (create_dir_all (checkpoints_dir d))"
    by (rule quietI) (auto intro!: keep_rules)
  have "triple (follows d op v) (generation d (ref_generation c)) (\<lambda>_. follows d op v) (follows d op v)"
    by (rule triple_reading) (auto intro: read_rules)
  then show ?thesis unfolding add_checkpoint_def
    by (intro triple_bind [where R = "\<lambda>_. follows d op v"] follows_quiet [OF dirs]
        triple_bind [OF follows_ref_path] triple_assuming)
      (auto intro: follows_quiet [OF quiet_commit_ref])
qed

lemma follows_remove_checkpoint:
  assumes "collects op"
  shows "triple (follows d op v) (remove_checkpoint d i) (\<lambda>_. follows d op v) (follows d op v)"
proof -
  have "quiet d (bind (remove_file (d @ [CHECKPOINTS_DIR, k])) (\<lambda>_. sync_dir (checkpoints_dir d)))" for k
    by (rule quietI) (auto intro!: keep_rules)
  from follows_quiet [OF this]
  have "triple (follows d op v) (bind (bind (remove_file (d @ [CHECKPOINTS_DIR, k])) (\<lambda>_. sync_dir (checkpoints_dir d)))
      (\<lambda>_. bind (collect_garbage d) (\<lambda>_. ret ()))) (\<lambda>_. follows d op v) (follows d op v)" for k
    by (rule triple_bind) (rule triple_then [OF follows_gc [OF assms]])
  then show ?thesis unfolding remove_checkpoint_def bind_assoc
    by (intro triple_bind [OF follows_ref_path] triple_assuming) simp
qed

subsection \<open>Refinement\<close>

lemmas follows_ops = follows_initialize follows_recover follows_begin_run follows_advance follows_mark_dirty
  follows_abandon_run follows_discard_run follows_import_dir follows_publish_op follows_salvage follows_derive
  follows_drop_memory follows_remove_checkpoint follows_add_checkpoint follows_gc follows_commit_latest
  follows_quiet [OF quiet_stage]

lemma perform_follows:
  assumes "op_ok d op"
  shows "triple (follows d op v) (perform d op) (\<lambda>_. follows d op v) (follows d op v)"
  using assms by (cases op) (auto simp: void_def intro!: triple_then follows_ops)

lemma perform_refines:
  assumes "perform d op e s = (r, s')" "op_ok d op" "codec_ok (codec e)" "store_inv (codec e) d (fs s)"
  shows "spec_reach op (store_state (codec e) d (fs s)) (store_state (codec e) d (fs s'))"
proof -
  have "follows d op (store_state (codec e) d (fs s)) e (fs s)"
    using assms(3,4) by (simp add: follows_def)
  from triple_anyD [OF perform_follows [OF assms(2)] this assms(1)] show ?thesis
    by (simp add: follows_def)
qed

text \<open>Steps of the contract by whatever operation.\<close>

definition contract_step :: "path \<Rightarrow> spec_state \<Rightarrow> spec_state \<Rightarrow> bool" where
  "contract_step d v v' \<longleftrightarrow> (\<exists>op. op_ok d op \<and> spec_step op v v')"

lemma spec_reach_contract: "op_ok d op \<Longrightarrow> spec_reach op v v' \<Longrightarrow> (contract_step d)\<^sup>*\<^sup>* v v'"
  by (erule rtranclp_mono [THEN predicate2D, rotated]) (auto simp: contract_step_def)

lemma store_step_refines:
  assumes "store_step C d s s'" "codec_ok C" "store_inv C d (fs s)"
  shows "(contract_step d)\<^sup>*\<^sup>* (store_state C d (fs s)) (store_state C d (fs s'))"
  using assms(1)
proof cases
  case (operation op e r)
  with perform_refines [OF operation(3)] assms(2,3) show ?thesis
    by (auto intro: spec_reach_contract)
next
  case (vm_writes t)
  then have "same_store d (fs s) t" by (auto simp: same_store_def protected_def)
  with vm_writes(1) show ?thesis by (simp add: same_store_state)
next
  case (capture_writes i t)
  then have "same_store d (fs s) t" by (auto simp: same_store_def protected_def)
  with capture_writes(1) show ?thesis by (simp add: same_store_state)
qed

interpretation store_refinement:
  refinement "\<lambda>s s'. codec_ok C \<and> store_step C d s s'" "\<lambda>s. store_inv C d (fs s)"
    "\<lambda>s. store_state C d (fs s)" "contract_step d" for C d
  by unfold_locales (auto intro: store_step_refines)

text \<open>C5: the store implements its contract. Whatever operations ran before, each failing or dying
  anywhere, with virtual machines and captures writing in between, all that happened to the record
  and to the catalogue of complete generations is a sequence of contract steps: a generation added
  under a free id, the record replaced by one the operation may commit, unreferenced generations
  collected. And the next operation, again wherever it stops, takes only steps of its own kind.\<close>

theorem store_refines:
  assumes "reachable C d s0 s" and "codec_ok C" and "store_inv C d (fs s0)"
    and "perform d op e s = (r, s')" and "op_ok d op" and "codec e = C"
  shows "(contract_step d)\<^sup>*\<^sup>* (store_state C d (fs s0)) (store_state C d (fs s)) \<and>
    spec_reach op (store_state C d (fs s)) (store_state C d (fs s'))"
proof
  have run: "(\<lambda>s s'. codec_ok C \<and> store_step C d s s')\<^sup>*\<^sup>* s0 s" using assms(1,2) by simp
  then show "(contract_step d)\<^sup>*\<^sup>* (store_state C d (fs s0)) (store_state C d (fs s))"
    using assms(3) by (rule store_refinement.reach_refines)
  have "store_inv C d (fs s)" using run assms(3) by (rule store_machine.reach_good)
  with perform_refines [OF assms(4,5)] assms(2,6)
  show "spec_reach op (store_state C d (fs s)) (store_state C d (fs s'))" by simp
qed

theorem store_refines_witness:
  "disk_record sample_codec here (fs sample_dirty) =
     Some (new_record (Some sample_gen) (Dirty sample_run sample_owner)) \<and>
   disk_record sample_codec here (fs (snd (perform here DiscardRun sample_env sample_dirty))) =
     Some (new_record (Some sample_gen) Stopped) \<and>
   spec_reach DiscardRun (store_state sample_codec here (fs sample_dirty))
     (store_state sample_codec here (fs (snd (perform here DiscardRun sample_env sample_dirty))))"
proof (intro conjI)
  show "disk_record sample_codec here (fs sample_dirty) =
     Some (new_record (Some sample_gen) (Dirty sample_run sample_owner))" by (rule sample_facts)
  show "disk_record sample_codec here (fs (snd (perform here DiscardRun sample_env sample_dirty))) =
     Some (new_record (Some sample_gen) Stopped)" by code_simp
  show "spec_reach DiscardRun (store_state sample_codec here (fs sample_dirty))
     (store_state sample_codec here (fs (snd (perform here DiscardRun sample_env sample_dirty))))"
    by (rule store_refines [OF rtranclp.rtrancl_refl sample_codec_ok sample_inv(3) prod.collapse [symmetric],
          THEN conjunct2]) simp_all
qed

text \<open>The contract alone keeps the recorded generation in the catalogue; the store inherits it.\<close>

definition latest_listed :: "spec_state \<Rightarrow> bool" where
  "latest_listed v \<longleftrightarrow> (\<forall>r g. fst v = Some r \<longrightarrow> latest r = Some g \<longrightarrow> snd v g \<noteq> None)"

lemma commits_listed: "commits op cat rc r' \<Longrightarrow> latest_listed (rc, cat) \<Longrightarrow> latest_listed (Some r', cat)"
  by (cases op) (auto simp: latest_listed_def)

lemma contract_latest: "contract_step d v v' \<Longrightarrow> latest_listed v \<Longrightarrow> latest_listed v'"
  unfolding contract_step_def
  by (auto elim!: spec_stepE dest: commits_listed) (auto simp: latest_listed_def)

lemma reachable_latest_listed:
  assumes "reachable C d s0 s" "codec_ok C" "store_inv C d (fs s0)" "latest_listed (store_state C d (fs s0))"
  shows "latest_listed (store_state C d (fs s))"
  by (rule store_refinement.transfer_invariant [of C d s0 s latest_listed])
    (use assms contract_latest in auto)

end
