(* ===== verification/Text.thy ===== *)
theory Text
  imports Prelude
begin

text \<open>
  More of the Rust standard library on text, as the code uses it: white space, lines, searching
  and splitting, letter case, UTF-8 decoding, hexadecimal digits and big-endian integers. Text is
  a list of bytes (\<^typ>\<open>string\<close>); a multi-byte character is its UTF-8 sequence.
\<close>

subsection \<open>White space\<close>

text \<open>How many bytes of white space a text starts with a character of: the Unicode property
  \<open>White_Space\<close>, which is what \<open>char::is_whitespace\<close> tests.\<close>

definition space1 :: "char \<Rightarrow> bool" where
  "space1 a \<longleftrightarrow> byte a \<in> {9, 10, 11, 12, 13, 32}"

definition space2 :: "char \<Rightarrow> char \<Rightarrow> bool" where
  "space2 a b \<longleftrightarrow> byte a = 0xC2 \<and> byte b \<in> {0x85, 0xA0}"

definition space3 :: "char \<Rightarrow> char \<Rightarrow> char \<Rightarrow> bool" where
  "space3 a b c \<longleftrightarrow>
     (byte a = 0xE1 \<and> byte b = 0x9A \<and> byte c = 0x80) \<or>
     (byte a = 0xE2 \<and> byte b = 0x80 \<and> (0x80 \<le> byte c \<and> byte c \<le> 0x8A \<or> byte c \<in> {0xA8, 0xA9, 0xAF})) \<or>
     (byte a = 0xE2 \<and> byte b = 0x81 \<and> byte c = 0x9F) \<or>
     (byte a = 0xE3 \<and> byte b = 0x80 \<and> byte c = 0x80)"

fun space_len :: "string \<Rightarrow> nat" where
  "space_len [] = 0"
| "space_len (a # s) =
     (if space1 a then 1
      else
        (case s of
           [] \<Rightarrow> 0
         | b # s' \<Rightarrow>
             if space2 a b then 2
             else (case s' of [] \<Rightarrow> 0 | c # _ \<Rightarrow> if space3 a b c then 3 else 0)))"

function trim_start :: "string \<Rightarrow> string" where
  "trim_start s = (if space_len s = 0 then s else trim_start (drop (space_len s) s))"
  by auto
termination
proof (relation "measure length")
  fix s :: string
  assume "space_len s \<noteq> 0"
  then show "(drop (space_len s) s, s) \<in> measure length" by (cases s) auto
qed simp

declare trim_start.simps [simp del]

text \<open>The same from the other end, on the reversed text.\<close>

fun space_len_rev :: "string \<Rightarrow> nat" where
  "space_len_rev [] = 0"
| "space_len_rev (a # s) =
     (if space1 a then 1
      else
        (case s of
           [] \<Rightarrow> 0
         | b # s' \<Rightarrow>
             if space2 b a then 2
             else (case s' of [] \<Rightarrow> 0 | c # _ \<Rightarrow> if space3 c b a then 3 else 0)))"

function trim_end_rev :: "string \<Rightarrow> string" where
  "trim_end_rev s = (if space_len_rev s = 0 then s else trim_end_rev (drop (space_len_rev s) s))"
  by auto
termination
proof (relation "measure length")
  fix s :: string
  assume "space_len_rev s \<noteq> 0"
  then show "(drop (space_len_rev s) s, s) \<in> measure length" by (cases s) auto
qed simp

declare trim_end_rev.simps [simp del]

definition trim_end :: "string \<Rightarrow> string" where
  "trim_end s = rev (trim_end_rev (rev s))"

definition trim :: "string \<Rightarrow> string" where
  "trim s = trim_end (trim_start s)"

text \<open>\<open>str::split_whitespace\<close>: the maximal pieces without white space.\<close>

function words_from :: "string \<Rightarrow> string \<Rightarrow> string list" where
  "words_from w [] = (if w = [] then [] else [w])"
| "words_from w (c # s) =
     (if space_len (c # s) = 0 then words_from (w @ [c]) s
      else (if w = [] then [] else [w]) @ words_from [] (drop (space_len (c # s)) (c # s)))"
  by pat_completeness auto
termination
  by (relation "measure (length \<circ> snd)") (auto split: list.splits)

definition split_whitespace :: "string \<Rightarrow> string list" where
  "split_whitespace s = words_from [] s"

definition ascii_graphic :: "char \<Rightarrow> bool" where
  "ascii_graphic c \<longleftrightarrow> 33 \<le> byte c \<and> byte c \<le> 126"

lemma ascii_graphic_no_space: "ascii_graphic c \<Longrightarrow> space_len (c # s) = 0"
  by (auto simp: ascii_graphic_def space1_def space2_def space3_def split: list.splits)

lemma ascii_graphic_no_space_rev:
  assumes "ascii_graphic c"
  shows "space_len_rev (c # s) = 0"
proof (cases s)
  case (Cons b s')
  with assms show ?thesis
    by (cases s') (auto simp: ascii_graphic_def space1_def space2_def space3_def)
qed (use assms in \<open>auto simp: ascii_graphic_def space1_def\<close>)

lemma trim_start_graphic: "ascii_graphic c \<Longrightarrow> trim_start (c # s) = c # s"
  by (subst trim_start.simps) (simp add: ascii_graphic_no_space del: space_len.simps)

lemma trim_graphic:
  assumes "s \<noteq> []" "list_all ascii_graphic s"
  shows "trim s = s"
proof -
  have "trim_start s = s" using assms by (cases s) (auto simp: trim_start_graphic)
  moreover have "trim_end_rev (rev s) = rev s"
  proof -
    obtain c r where "rev s = c # r" using assms(1) by (cases "rev s") auto
    moreover from this have "c \<in> set s" by (metis list.set_intros(1) set_rev)
    ultimately show ?thesis using assms(2)
      by (subst trim_end_rev.simps) (simp add: ascii_graphic_no_space_rev list_all_iff del: space_len_rev.simps)
  qed
  ultimately show ?thesis by (simp add: trim_def trim_end_def)
qed

lemma words_from_graphic:
  "list_all ascii_graphic s \<Longrightarrow> words_from w (s @ r) = words_from (w @ s) r"
  by (induction s arbitrary: w) (auto simp: ascii_graphic_no_space simp del: space_len.simps)

lemma space_not_graphic [simp]: "space_len (CHR '' '' # s) = 1"
  by (simp add: space1_def byte_def)

lemma words_from_space: "words_from w (CHR '' '' # s) = (if w = [] then [] else [w]) @ words_from [] s"
  by (simp del: space_len.simps)

subsection \<open>Searching\<close>

definition ends_with :: "'a list \<Rightarrow> 'a list \<Rightarrow> bool" where
  "ends_with s p \<longleftrightarrow> length p \<le> length s \<and> drop (length s - length p) s = p"

definition strip_suffix :: "'a list \<Rightarrow> 'a list \<Rightarrow> 'a list option" where
  "strip_suffix s p = (if ends_with s p then Some (take (length s - length p) s) else None)"

text \<open>\<open>trim_end_matches\<close>: all copies of a (non-empty) text at the end.\<close>

function trim_end_matches :: "'a list \<Rightarrow> 'a list \<Rightarrow> 'a list" where
  "trim_end_matches p s =
     (if p \<noteq> [] \<and> ends_with s p then trim_end_matches p (take (length s - length p) s) else s)"
  by auto
termination
proof (relation "measure (length \<circ> snd)")
  fix p s :: "'a list"
  assume "p \<noteq> [] \<and> ends_with s p"
  then have "length s - length p < length s" by (cases p) (auto simp: ends_with_def)
  then show "((p, take (length s - length p) s), (p, s)) \<in> measure (length \<circ> snd)" by simp
qed simp

declare trim_end_matches.simps [simp del]

definition rsplit_once :: "'a \<Rightarrow> 'a list \<Rightarrow> ('a list \<times> 'a list) option" where
  "rsplit_once c s = map_option (\<lambda>(a, b). (rev b, rev a)) (split_once c (rev s))"

text \<open>The first position at which a text occurs.\<close>

fun find_sub :: "'a list \<Rightarrow> 'a list \<Rightarrow> nat option" where
  "find_sub p [] = (if p = [] then Some 0 else None)"
| "find_sub p (x # xs) =
     (if starts_with (x # xs) p then Some 0 else map_option Suc (find_sub p xs))"

text \<open>What follows the first occurrence of a text: \<open>split(p).nth(1)\<close> up to the next one.\<close>

definition after :: "'a list \<Rightarrow> 'a list \<Rightarrow> 'a list option" where
  "after p s = map_option (\<lambda>i. drop (i + length p) s) (find_sub p s)"

definition before :: "'a list \<Rightarrow> 'a list \<Rightarrow> 'a list" where
  "before p s = (case find_sub p s of None \<Rightarrow> s | Some i \<Rightarrow> take i s)"

definition split_nth1 :: "'a list \<Rightarrow> 'a list \<Rightarrow> 'a list option" where
  "split_nth1 p s = map_option (before p) (after p s)"

fun join :: "'a list \<Rightarrow> 'a list list \<Rightarrow> 'a list" where
  "join sep [] = []"
| "join sep [x] = x"
| "join sep (x # y # xs) = x @ sep @ join sep (y # xs)"

lemma ends_with_iff: "ends_with s p \<longleftrightarrow> (\<exists>r. s = r @ p)"
proof
  assume "ends_with s p"
  then have "s = take (length s - length p) s @ p"
    by (metis append_take_drop_id ends_with_def)
  then show "\<exists>r. s = r @ p" by blast
qed (auto simp: ends_with_def)

lemma ends_with_append [simp]: "ends_with (r @ p) p"
  by (auto simp: ends_with_iff)

lemma strip_suffix_append [simp]: "strip_suffix (r @ p) p = Some r"
  by (simp add: strip_suffix_def)

lemma strip_suffix_SomeD: "strip_suffix s p = Some r \<Longrightarrow> s = r @ p"
  by (auto simp: strip_suffix_def ends_with_iff split: if_splits)

lemma trim_end_matches_append:
  "p \<noteq> [] \<Longrightarrow> trim_end_matches p (s @ p) = trim_end_matches p s"
  by (subst trim_end_matches.simps) simp

lemma trim_end_matches_none: "\<not> ends_with s p \<Longrightarrow> trim_end_matches p s = s"
  by (subst trim_end_matches.simps) simp

lemma trim_end_matches_decomp: "\<exists>n. s = trim_end_matches p s @ concat (replicate n p)"
proof (induction p s rule: trim_end_matches.induct)
  case (1 p s)
  show ?case
  proof (cases "p \<noteq> [] \<and> ends_with s p")
    case True
    let ?t = "take (length s - length p) s"
    from "1" True obtain n where n: "?t = trim_end_matches p ?t @ concat (replicate n p)" by blast
    from True have s: "s = ?t @ p" by (metis append_take_drop_id ends_with_def)
    have "concat (replicate n p) @ p = concat (replicate (Suc n) p)"
      by (induction n) auto
    then have "s = trim_end_matches p ?t @ concat (replicate (Suc n) p)"
      using s n by (metis append_assoc)
    moreover have "trim_end_matches p s = trim_end_matches p ?t"
      using True by (subst trim_end_matches.simps) simp
    ultimately show ?thesis by metis
  next
    case False
    then have "trim_end_matches p s = s" by (subst trim_end_matches.simps) auto
    then show ?thesis by (intro exI [of _ 0]) simp
  qed
qed

lemma trim_end_matches_not_ends: "p \<noteq> [] \<Longrightarrow> \<not> ends_with (trim_end_matches p s) p"
proof (induction p s rule: trim_end_matches.induct)
  case (1 p s)
  then show ?case
    by (cases "ends_with s p") (subst trim_end_matches.simps, simp)+
qed

lemma rsplit_once_append: "c \<notin> set b \<Longrightarrow> rsplit_once c (a @ c # b) = Some (a, b)"
  by (simp add: rsplit_once_def split_once_append)

lemma rsplit_once_SomeD:
  assumes "rsplit_once c s = Some (a, b)"
  shows "s = a @ c # b \<and> c \<notin> set b"
proof -
  from assms have "split_once c (rev s) = Some (rev b, rev a)"
    by (auto simp: rsplit_once_def)
  from split_once_SomeD [OF this] have r: "rev s = rev b @ c # rev a" and c: "c \<notin> set b" by auto
  from arg_cong [OF r, of rev] have "s = a @ c # b" by simp
  with c show ?thesis by simp
qed

lemma rsplit_once_None: "rsplit_once c s = None \<longleftrightarrow> c \<notin> set s"
  by (simp add: rsplit_once_def split_once_None)

lemma find_sub_SomeD:
  assumes "find_sub p s = Some i"
  shows "s = take i s @ p @ drop (i + length p) s \<and> i + length p \<le> length s"
  using assms
proof (induction p s arbitrary: i rule: find_sub.induct)
  case (2 p x xs)
  show ?case
  proof (cases "starts_with (x # xs) p")
    case True
    then obtain r where "x # xs = p @ r" by (auto simp: starts_with_iff)
    moreover from "2.prems" True have "i = 0" by simp
    ultimately show ?thesis by simp
  next
    case False
    with "2.prems" obtain j where j: "find_sub p xs = Some j" "i = Suc j" by auto
    with "2.IH" [OF False, of j] show ?thesis by simp
  qed
qed (auto split: if_splits)

lemma find_sub_least:
  "find_sub p s = Some i \<Longrightarrow> j < i \<Longrightarrow> \<not> starts_with (drop j s) p"
proof (induction p s arbitrary: i j rule: find_sub.induct)
  case (2 p x xs)
  then show ?case by (cases j) (auto split: if_splits)
qed (auto split: if_splits)

lemma find_sub_None: "find_sub p s = None \<Longrightarrow> \<not> starts_with (drop j s) p"
proof (induction p s arbitrary: j rule: find_sub.induct)
  case (1 p)
  then show ?case by (auto simp: starts_with_def split: if_splits)
next
  case (2 p x xs)
  then show ?case by (cases j) (auto split: if_splits)
qed

lemma find_sub_total: "find_sub p (a @ p @ b) \<noteq> None"
  by (metis append_eq_conv_conj find_sub_None starts_with_append)

text \<open>A text that starts with a byte that is not before its first occurrence.\<close>

lemma find_sub_append:
  assumes "c \<notin> set a"
  shows "find_sub (c # p) (a @ (c # p) @ b) = Some (length a)"
  using assms
proof (induction a)
  case Nil
  have "find_sub (c # p) (c # (p @ b)) = Some 0"
    using starts_with_append [of "c # p" b] by simp
  then show ?case by simp
next
  case (Cons x a)
  then have "x \<noteq> c" by auto
  then have "\<not> starts_with (x # a @ (c # p) @ b) (c # p)" by (simp add: starts_with_def)
  with Cons show ?case by (simp add: starts_with_def)
qed

lemma find_sub_skip:
  assumes "c \<notin> set a"
  shows "find_sub (c # p) (a @ s) = map_option ((+) (length a)) (find_sub (c # p) s)"
  using assms
proof (induction a)
  case (Cons x a)
  then have "\<not> starts_with (x # a @ s) (c # p)" by (auto simp: starts_with_def)
  with Cons show ?case by (cases "find_sub (c # p) s") auto
qed (cases "find_sub (c # p) s", simp_all)

lemma split_on_join:
  assumes "xs \<noteq> []" "\<forall>x \<in> set xs. c \<notin> set x"
  shows "split_on c (join [c] xs) = xs"
proof -
  have base: "split_on c x = [x]" if "c \<notin> set x" for x :: "'a list"
    using that by (induction x) auto
  have app: "split_on c (x @ c # r) = x # split_on c r" if "c \<notin> set x" for x r :: "'a list"
    using that by (induction x) auto
  from assms show ?thesis
    by (induction "[c]" xs rule: join.induct) (auto simp: base app)
qed

lemma split_on_no_sep: "x \<in> set (split_on c s) \<Longrightarrow> c \<notin> set x"
proof (induction s arbitrary: x)
  case (Cons a s)
  then show ?case
    by (cases "split_on c s") (auto split: if_splits)
qed simp

lemma join_split_on: "join [c] (split_on c s) = s"
proof (induction s)
  case (Cons a s)
  then show ?case
    by (cases "split_on c s"; cases "tl (split_on c s)") auto
qed simp

subsection \<open>Lines\<close>

text \<open>\<open>str::lines\<close>: without the newline and a carriage return before it; a final newline ends
  the last line rather than starting one.\<close>

definition strip_cr :: "string \<Rightarrow> string" where
  "strip_cr l = (if l \<noteq> [] \<and> last l = CHR 0x0D then butlast l else l)"

fun lines_of :: "string list \<Rightarrow> string list" where
  "lines_of [] = []"
| "lines_of [l] = (if l = [] then [] else [l])"
| "lines_of (l # l' # ls) = strip_cr l # lines_of (l' # ls)"

definition lines :: "string \<Rightarrow> string list" where
  "lines s = lines_of (split_on (CHR 0x0A) s)"

lemma lines_cons:
  assumes "CHR 0x0A \<notin> set l" "CHR 0x0D \<notin> set l"
  shows "lines (l @ CHR 0x0A # s) = l # lines s"
proof -
  have app: "split_on (CHR 0x0A) (l @ CHR 0x0A # s) = l # split_on (CHR 0x0A) s"
    using assms(1) by (induction l) auto
  have "strip_cr l = l" using assms(2) by (metis last_in_set strip_cr_def)
  then show ?thesis
    using split_on_not_Nil [of "CHR 0x0A" s]
    by (cases "split_on (CHR 0x0A) s") (simp_all add: lines_def app)
qed

lemma lines_Nil [simp]: "lines [] = []"
  by (simp add: lines_def)

subsection \<open>Letter case\<close>

definition ascii_lower :: "char \<Rightarrow> char" where
  "ascii_lower c = (if is_ascii_upper c then char_of (byte c + 32) else c)"

definition to_ascii_lowercase :: "string \<Rightarrow> string" where
  "to_ascii_lowercase s = map ascii_lower s"

definition eq_ignore_ascii_case :: "string \<Rightarrow> string \<Rightarrow> bool" where
  "eq_ignore_ascii_case a b \<longleftrightarrow> to_ascii_lowercase a = to_ascii_lowercase b"

lemma byte_ascii_lower: "byte (ascii_lower c) = (if is_ascii_upper c then byte c + 32 else byte c)"
  by (simp add: ascii_lower_def is_ascii_upper_def byte_def)

lemma ascii_lower_idem [simp]: "ascii_lower (ascii_lower c) = ascii_lower c"
  by (simp add: ascii_lower_def is_ascii_upper_def byte_def)

lemma lowercase_idem [simp]: "to_ascii_lowercase (to_ascii_lowercase s) = to_ascii_lowercase s"
  by (simp add: to_ascii_lowercase_def)

lemma lowercase_append [simp]:
  "to_ascii_lowercase (a @ b) = to_ascii_lowercase a @ to_ascii_lowercase b"
  by (simp add: to_ascii_lowercase_def)

lemma lowercase_Cons [simp]:
  "to_ascii_lowercase (a # b) = ascii_lower a # to_ascii_lowercase b"
  by (simp add: to_ascii_lowercase_def)

lemma lowercase_Nil [simp]: "to_ascii_lowercase [] = []"
  by (simp add: to_ascii_lowercase_def)

lemma lowercase_length [simp]: "length (to_ascii_lowercase s) = length s"
  by (simp add: to_ascii_lowercase_def)

lemma ascii_lower_not_upper: "\<not> is_ascii_upper c \<Longrightarrow> ascii_lower c = c"
  by (simp add: ascii_lower_def)

lemma lowercase_id: "list_all (\<lambda>c. \<not> is_ascii_upper c) s \<Longrightarrow> to_ascii_lowercase s = s"
  by (induction s) (auto simp: ascii_lower_not_upper)

lemma lower_not_upper [simp]: "\<not> is_ascii_upper (ascii_lower c)"
  by (simp add: ascii_lower_def is_ascii_upper_def byte_def)

lemma ascii_lower_eq_other:
  assumes "\<not> is_ascii_lower d" "\<not> is_ascii_upper d"
  shows "ascii_lower c = d \<longleftrightarrow> c = d"
proof
  assume l: "ascii_lower c = d"
  show "c = d"
  proof (cases "is_ascii_upper c")
    case True
    then have "byte d = byte c + 32" using l byte_ascii_lower [of c] by simp
    with True have "is_ascii_lower d" by (simp add: is_ascii_upper_def is_ascii_lower_def)
    with assms show ?thesis by simp
  next
    case False
    with l show ?thesis by (simp add: ascii_lower_def)
  qed
qed (use assms in \<open>simp add: ascii_lower_def\<close>)

lemma digit_lower [simp]: "is_ascii_digit c \<Longrightarrow> ascii_lower c = c"
  by (rule ascii_lower_not_upper) (auto simp: is_ascii_digit_def is_ascii_upper_def)

subsection \<open>UTF-8\<close>

definition continues :: "char \<Rightarrow> bool" where
  "continues c \<longleftrightarrow> 0x80 \<le> byte c \<and> byte c \<le> 0xBF"

text \<open>The leading sequence of a non-empty byte list: whether it is a well-formed character, and how
  many bytes it takes (those of the longest well-formed start, when it is not).\<close>

definition second_ok :: "nat \<Rightarrow> char \<Rightarrow> bool" where
  "second_ok a c \<longleftrightarrow>
     (if a = 0xE0 then 0xA0 \<le> byte c \<and> byte c \<le> 0xBF
      else if a = 0xED then 0x80 \<le> byte c \<and> byte c \<le> 0x9F
      else if a = 0xF0 then 0x90 \<le> byte c \<and> byte c \<le> 0xBF
      else if a = 0xF4 then 0x80 \<le> byte c \<and> byte c \<le> 0x8F
      else continues c)"

fun utf8_step :: "string \<Rightarrow> bool \<times> nat" where
  "utf8_step [] = (True, 0)"
| "utf8_step (a # s) =
     (if byte a < 0x80 then (True, 1)
      else if 0xC2 \<le> byte a \<and> byte a \<le> 0xDF then
        (case s of b # _ \<Rightarrow> if continues b then (True, 2) else (False, 1) | [] \<Rightarrow> (False, 1))
      else if 0xE0 \<le> byte a \<and> byte a \<le> 0xEF then
        (case s of
           [] \<Rightarrow> (False, 1)
         | b # s' \<Rightarrow>
             if \<not> second_ok (byte a) b then (False, 1)
             else (case s' of c # _ \<Rightarrow> if continues c then (True, 3) else (False, 2) | [] \<Rightarrow> (False, 2)))
      else if 0xF0 \<le> byte a \<and> byte a \<le> 0xF4 then
        (case s of
           [] \<Rightarrow> (False, 1)
         | b # s' \<Rightarrow>
             if \<not> second_ok (byte a) b then (False, 1)
             else
               (case s' of
                  [] \<Rightarrow> (False, 2)
                | c # s'' \<Rightarrow>
                    if \<not> continues c then (False, 2)
                    else (case s'' of d # _ \<Rightarrow> if continues d then (True, 4) else (False, 3) | [] \<Rightarrow> (False, 3))))
      else (False, 1))"

lemma utf8_step_pos: "s \<noteq> [] \<Longrightarrow> 0 < snd (utf8_step s)"
  by (cases s) (auto split: list.splits)

lemma utf8_step_less: "(ok, n) = utf8_step (a # s) \<Longrightarrow> Suc (length s) - n < Suc (length s)"
  using utf8_step_pos [of "a # s"] by (cases "utf8_step (a # s)") (simp del: utf8_step.simps)

definition replacement :: string where
  "replacement = [CHR 0xEF, CHR 0xBF, CHR 0xBD]"

function from_utf8_lossy :: "string \<Rightarrow> string" where
  "from_utf8_lossy [] = []"
| "from_utf8_lossy (a # s) =
     (case utf8_step (a # s) of
        (ok, n) \<Rightarrow> (if ok then take n (a # s) else replacement) @ from_utf8_lossy (drop n (a # s)))"
  by pat_completeness auto
termination
  by (relation "measure length") (auto simp: utf8_step_less simp del: utf8_step.simps)

function is_utf8 :: "string \<Rightarrow> bool" where
  "is_utf8 [] \<longleftrightarrow> True"
| "is_utf8 (a # s) \<longleftrightarrow>
     (case utf8_step (a # s) of (ok, n) \<Rightarrow> ok \<and> is_utf8 (drop n (a # s)))"
  by pat_completeness auto
termination
  by (relation "measure length") (auto simp: utf8_step_less simp del: utf8_step.simps)

definition is_ascii :: "string \<Rightarrow> bool" where
  "is_ascii s \<longleftrightarrow> list_all (\<lambda>c. byte c < 128) s"

lemma lossy_valid: "is_utf8 s \<Longrightarrow> from_utf8_lossy s = s"
  by (induction s rule: is_utf8.induct) (auto simp del: utf8_step.simps split: prod.splits)

lemma ascii_is_utf8: "is_ascii s \<Longrightarrow> is_utf8 s"
  by (induction s) (auto simp: is_ascii_def)

lemma lossy_ascii [simp]: "is_ascii s \<Longrightarrow> from_utf8_lossy s = s"
  by (simp add: ascii_is_utf8 lossy_valid)

subsection \<open>Hexadecimal digits and big-endian integers\<close>

definition hex_val :: "char \<Rightarrow> nat option" where
  "hex_val c =
     (if is_ascii_digit c then Some (byte c - 48)
      else if 97 \<le> byte c \<and> byte c \<le> 102 then Some (byte c - 87)
      else if 65 \<le> byte c \<and> byte c \<le> 70 then Some (byte c - 55)
      else None)"

fun hex_digits_val :: "nat \<Rightarrow> string \<Rightarrow> nat option" where
  "hex_digits_val acc [] = Some acc"
| "hex_digits_val acc (c # s) =
     (case hex_val c of None \<Rightarrow> None | Some d \<Rightarrow> hex_digits_val (acc * 16 + d) s)"

text \<open>\<open>from_str_radix(s, 16)\<close> at an unsigned type with largest value \<open>m\<close>: like \<open>parse\<close>, it takes a
  leading plus sign.\<close>

definition parse_hex :: "nat \<Rightarrow> string \<Rightarrow> nat option" where
  "parse_hex m s =
     (let ds = (case s of [] \<Rightarrow> [] | c # cs \<Rightarrow> if c = CHR ''+'' \<and> cs \<noteq> [] then cs else s)
      in if ds = [] then None
         else
           (case hex_digits_val 0 ds of
              None \<Rightarrow> None
            | Some v \<Rightarrow> if v \<le> m then Some v else None))"

definition hex_digit :: "nat \<Rightarrow> char" where
  "hex_digit d = char_of (if d < 10 then 48 + d else 87 + d)"

fun show_hex :: "nat \<Rightarrow> string" where
  "show_hex n = (if n < 16 then [hex_digit n] else show_hex (n div 16) @ [hex_digit (n mod 16)])"

declare show_hex.simps [simp del]

definition hex2 :: "nat \<Rightarrow> string" where
  "hex2 n = [hex_digit (n div 16 mod 16), hex_digit (n mod 16)]"

lemma hex_val_digit: "d < 16 \<Longrightarrow> hex_val (hex_digit d) = Some d"
  by (auto simp: hex_val_def hex_digit_def is_ascii_digit_def byte_def)

lemma hex2_val: "n < 256 \<Longrightarrow> hex_digits_val 0 (hex2 n) = Some n"
  by (simp add: hex2_def hex_val_digit)

definition be16 :: "nat \<Rightarrow> string" where
  "be16 n = [char_of (n div 256 mod 256), char_of (n mod 256)]"

definition be32 :: "nat \<Rightarrow> string" where
  "be32 n = [char_of (n div 2 ^ 24 mod 256), char_of (n div 2 ^ 16 mod 256),
             char_of (n div 2 ^ 8 mod 256), char_of (n mod 256)]"

definition from_be :: "string \<Rightarrow> nat" where
  "from_be s = foldl (\<lambda>acc c. acc * 256 + byte c) 0 s"

definition from_le :: "string \<Rightarrow> nat" where
  "from_le s = from_be (rev s)"

lemma byte_char_of [simp]: "byte (char_of n) = n mod 256"
  by (simp add: byte_def)

lemma byte_lt [simp]: "byte c < 256"
  by (simp add: byte_def)

lemma from_be16: "n < 2 ^ 16 \<Longrightarrow> from_be (be16 n) = n"
  by (simp add: from_be_def be16_def)

lemma from_be32:
  assumes "n < 2 ^ 32"
  shows "from_be (be32 n) = n"
proof -
  have d: "n div 2 ^ 16 = n div 2 ^ 8 div 256" "n div 2 ^ 24 = n div 2 ^ 8 div 256 div 256"
    by (simp_all flip: div_mult2_eq)
  have "n div 2 ^ 24 mod 256 = n div 2 ^ 24" using assms by simp
  then have "from_be (be32 n) =
      ((n div 2 ^ 24 * 256 + n div 2 ^ 16 mod 256) * 256 + n div 2 ^ 8 mod 256) * 256 + n mod 256"
    by (simp add: from_be_def be32_def)
  also have "\<dots> = n" unfolding d by (simp add: div_mult_mod_eq)
  finally show ?thesis .
qed

lemma length_be [simp]: "length (be16 n) = 2" "length (be32 n) = 4"
  by (simp_all add: be16_def be32_def)

lemma from_be_less: "from_be s < 256 ^ length s"
proof (induction s rule: rev_induct)
  case (snoc c s)
  then have "from_be s * 256 + byte c < (from_be s + 1) * 256"
    by simp
  also have "\<dots> \<le> 256 ^ length s * 256" using snoc by (intro mult_le_mono1) simp
  finally show ?case by (simp add: from_be_def mult.commute)
qed (simp add: from_be_def)

subsection \<open>Signed numbers\<close>

text \<open>\<open>str::parse::<i32>\<close>.\<close>

definition parse_i32 :: "string \<Rightarrow> int option" where
  "parse_i32 s =
     (case strip_prefix s ''-'' of
        Some ds \<Rightarrow>
          if ds \<noteq> [] \<and> list_all is_ascii_digit ds \<and> digits_val ds \<le> 2147483648
          then Some (- int (digits_val ds)) else None
      | None \<Rightarrow> map_option int (parse_uint 2147483647 s))"

end
