(* ===== verification/Paths.thy ===== *)
theory Paths
  imports Footprint Text
begin

text \<open>
  Where an instance lives, \<open>src/src/paths.rs\<close>: names, the directory of interrupted deletions, the
  directory of the runtime sockets, and the layout of an instance. A path is absolute, the list of its
  components; \<open>os_str\<close> is its text. The capacity of a socket address differs between systems (104 bytes
  on macOS, 108 on Linux) and is a parameter, and so is the SHA-256 digest.
\<close>

subsection \<open>Names\<close>

definition instance_char :: "char \<Rightarrow> bool" where
  "instance_char c \<longleftrightarrow> is_ascii_alphanumeric c \<or> c \<in> {CHR ''-'', CHR ''_'', CHR ''.''}"

definition validate_instance_name :: "string \<Rightarrow> err + unit" where
  "validate_instance_name name =
     (if name = [] \<or> name = ''.'' \<or> name = ''..'' \<or> \<not> list_all instance_char name
      then Inl (Bail ''invalid instance name'') else Inr ())"

definition is_instance_dir_name :: "string \<Rightarrow> bool" where
  "is_instance_dir_name name \<longleftrightarrow>
     name \<noteq> [] \<and> name \<noteq> ''.'' \<and> name \<noteq> ''..'' \<and> CHR ''/'' \<notin> set name"

subsection \<open>The transaction directory\<close>

definition INSTANCE_TRANSACTION_DIR :: string where
  "INSTANCE_TRANSACTION_DIR = ''@lnx-transactions''"

definition INSTANCE_TRANSACTION_MARKER :: string where
  "INSTANCE_TRANSACTION_MARKER = ''.lnx-transactions-v1''"

definition INSTANCE_TRANSACTION_MARKER_CONTENT :: string where
  "INSTANCE_TRANSACTION_MARKER_CONTENT = ''lnx-instance-transactions-v1'' @ [CHR 0x0A]"

definition transaction_dir_name :: "string \<Rightarrow> bool" where
  "transaction_dir_name name \<longleftrightarrow>
     name = INSTANCE_TRANSACTION_DIR \<or>
     (case Option.bind (strip_prefix name INSTANCE_TRANSACTION_DIR) (\<lambda>rest. strip_prefix rest ''-'') of
        None \<Rightarrow> False
      | Some rest \<Rightarrow> rest \<noteq> [] \<and> list_all is_ascii_digit rest)"

definition is_instance_transaction_root :: "path \<Rightarrow> bool M" where
  "is_instance_transaction_root p =
     (if p \<noteq> [] \<and> transaction_dir_name (last p) then
        bind (recover_with
               (bind (symlink_metadata p) (\<lambda>n. ret (case n of Sub _ \<Rightarrow> True | _ \<Rightarrow> False))) (\<lambda>_. ret False)) (\<lambda>dir.
        if dir then
          recover_with (bind (read_file (p @ [INSTANCE_TRANSACTION_MARKER]))
            (\<lambda>c. ret (c = INSTANCE_TRANSACTION_MARKER_CONTENT))) (\<lambda>_. ret False)
        else ret False)
      else ret False)"

definition instance_transaction_roots :: "path \<Rightarrow> path list M" where
  "instance_transaction_roots instances_root =
     bind (recover_with (read_dir instances_root) (\<lambda>x. if x = Io NotFound then ret [] else raise x)) (\<lambda>es.
     bind (folding (\<lambda>roots kn.
         case snd kn of
           Sub _ \<Rightarrow>
             bind (is_instance_transaction_root (instances_root @ [fst kn])) (\<lambda>x.
             ret (if x then roots @ [instances_root @ [fst kn]] else roots))
         | _ \<Rightarrow> ret roots) [] es) (\<lambda>roots.
     ret (sort roots)))"

definition existing_instance_transaction_root :: "path \<Rightarrow> path option M" where
  "existing_instance_transaction_root instances_root =
     bind (instance_transaction_roots instances_root) (\<lambda>roots.
     ret (case roots of [] \<Rightarrow> None | r # _ \<Rightarrow> Some r))"

definition transaction_candidate :: "nat \<Rightarrow> string" where
  "transaction_candidate attempt =
     (if attempt = 0 then INSTANCE_TRANSACTION_DIR
      else INSTANCE_TRANSACTION_DIR @ ''-'' @ show_nat attempt)"

text \<open>Looking for a free name. The result says whether the directory was created here (and still needs
  its marker) or is one that another process finished; \<open>None\<close> when the tries given do not suffice.\<close>

fun create_transaction_dir :: "nat \<Rightarrow> path \<Rightarrow> nat \<Rightarrow> (bool \<times> path) option M" where
  "create_transaction_dir 0 instances_root attempt = ret None"
| "create_transaction_dir (Suc tries) instances_root attempt =
     (let candidate = instances_root @ [transaction_candidate attempt] in
      bind (recover_with (bind (create_dir candidate) (\<lambda>_. ret True))
             (\<lambda>x. if x = Io AlreadyExists then ret False else raise x)) (\<lambda>created.
      if created then ret (Some (True, candidate))
      else
        bind (is_instance_transaction_root candidate) (\<lambda>x.
        if x then ret (Some (False, candidate))
        else create_transaction_dir tries instances_root (min 18446744073709551615 (attempt + 1)))))"

definition write_transaction_marker :: "path \<Rightarrow> unit M" where
  "write_transaction_marker root =
     (let marker = root @ [INSTANCE_TRANSACTION_MARKER] in
      recover_with
        (bind (create_new marker) (\<lambda>_.
         bind (write_all marker INSTANCE_TRANSACTION_MARKER_CONTENT) (\<lambda>_.
         bind (sync_file marker) (\<lambda>_.
         bind (open_file root) (\<lambda>_.
         sync_dir root)))))
        (\<lambda>x. bind (ignore (remove_dir root)) (\<lambda>_. raise x)))"

definition ensure_instance_transaction_root :: "nat \<Rightarrow> path \<Rightarrow> path option M" where
  "ensure_instance_transaction_root tries instances_root =
     bind (existing_instance_transaction_root instances_root) (\<lambda>found.
     case found of
       Some root \<Rightarrow> ret (Some root)
     | None \<Rightarrow>
         bind (create_dir_all instances_root) (\<lambda>_.
         bind (create_transaction_dir tries instances_root 0) (\<lambda>r.
         case r of
           None \<Rightarrow> ret None
         | Some (False, root) \<Rightarrow> ret (Some root)
         | Some (True, root) \<Rightarrow> bind (write_transaction_marker root) (\<lambda>_. ret (Some root)))))"

subsection \<open>Runtime sockets\<close>

datatype RuntimeSocket = BrokerSock | CheckpointBrokerSock | AgentSock | SnapshotSock | ControlSock | GvproxySock

definition all_sockets :: "RuntimeSocket list" where
  "all_sockets = [BrokerSock, CheckpointBrokerSock, AgentSock, SnapshotSock, ControlSock, GvproxySock]"

fun socket_file_name :: "RuntimeSocket \<Rightarrow> string" where
  "socket_file_name BrokerSock = ''broker.sock''"
| "socket_file_name CheckpointBrokerSock = ''checkpoint-broker.sock''"
| "socket_file_name AgentSock = ''lnx-agent.sock''"
| "socket_file_name SnapshotSock = ''lnx-snapshot.sock''"
| "socket_file_name ControlSock = ''lnx-control.sock''"
| "socket_file_name GvproxySock = ''gvproxy.sock''"

definition GVPROXY_KRUN_SOCKET_SUFFIX :: string where
  "GVPROXY_KRUN_SOCKET_SUFFIX = ''-krun.sock''"

definition os_str :: "path \<Rightarrow> string" where
  "os_str p = (if p = [] then ''/'' else concat (map (\<lambda>k. CHR ''/'' # k) p))"

definition unix_socket_path_fits :: "nat \<Rightarrow> path \<Rightarrow> bool" where
  "unix_socket_path_fits cap p \<longleftrightarrow> length (os_str p) < cap"

definition socket_names :: "string list" where
  "socket_names = map socket_file_name all_sockets @ [socket_file_name GvproxySock @ GVPROXY_KRUN_SOCKET_SUFFIX]"

text \<open>\<open>Iterator::max_by_key\<close>: the last of the greatest.\<close>

fun max_by_length :: "string \<Rightarrow> string list \<Rightarrow> string" where
  "max_by_length best [] = best"
| "max_by_length best (x # xs) = max_by_length (if length x \<ge> length best then x else best) xs"

definition longest_runtime_socket_path :: "path \<Rightarrow> path" where
  "longest_runtime_socket_path p = p @ [max_by_length (hd socket_names) (tl socket_names)]"

definition socket_dir_for :: "nat \<Rightarrow> (string \<Rightarrow> string) \<Rightarrow> path \<Rightarrow> path \<Rightarrow> path" where
  "socket_dir_for cap sha256 run_dir short_root =
     (if unix_socket_path_fits cap (longest_runtime_socket_path run_dir) then run_dir
      else short_root @ [concat (map (hex2 \<circ> byte) (take 8 (sha256 (os_str run_dir))))])"

subsection \<open>Layouts\<close>

record Layout =
  base :: path
  l_instance :: string
  kernel :: path
  l_rootfs :: "path option"
  instance_dir :: path
  l_run_dir :: path
  console_log :: path

definition resolve_for_base ::
  "string \<Rightarrow> path option \<Rightarrow> path option \<Rightarrow> path \<Rightarrow> path option \<Rightarrow> path \<Rightarrow> Layout" where
  "resolve_for_base name krn root bas run_base kernel_base =
     (let idir = bas @ [''instances'', name];
          rdir = (case run_base of Some b \<Rightarrow> b @ [''instances'', name] | None \<Rightarrow> idir) in
      \<lparr>base = bas, l_instance = name,
       kernel = (case krn of Some k \<Rightarrow> k | None \<Rightarrow> kernel_base @ [''vmlinuz'']),
       l_rootfs = root, instance_dir = idir, l_run_dir = rdir, console_log = rdir @ [''console.log'']\<rparr>)"

definition instance_exists_in_base :: "path \<Rightarrow> string \<Rightarrow> bool M" where
  "instance_exists_in_base bas name = test_path is_dir (bas @ [''instances'', name])"

function find_from :: "string \<Rightarrow> path \<Rightarrow> path \<Rightarrow> path option M" where
  "find_from name home p =
     bind (instance_exists_in_base (p @ [''.lnx'']) name) (\<lambda>x.
     if x then ret (Some (p @ [''.lnx'']))
     else if p = home then ret None
     else if p = [] then
       bind (instance_exists_in_base (home @ [''.lnx'']) name) (\<lambda>y.
       ret (if y then Some (home @ [''.lnx'']) else None))
     else find_from name home (parent_of p))"
  by pat_completeness auto
termination
  by (relation "measure (\<lambda>(_, _, p). length p)") (auto simp: parent_of_def)

declare find_from.simps [simp del]

definition find_instance_base_between :: "string \<Rightarrow> path \<Rightarrow> path \<Rightarrow> path option M" where
  "find_instance_base_between name cwd home = find_from name home cwd"

definition resolve_with_env_and_cwd ::
  "string \<Rightarrow> path option \<Rightarrow> path option \<Rightarrow> path option \<Rightarrow> path option \<Rightarrow> path \<Rightarrow> path \<Rightarrow> Layout M" where
  "resolve_with_env_and_cwd name krn root base_env run_base_env home cwd =
     bind (case base_env of
             Some b \<Rightarrow> ret b
           | None \<Rightarrow>
               bind (find_instance_base_between name cwd home) (\<lambda>b.
               ret (case b of Some b \<Rightarrow> b | None \<Rightarrow> home @ [''.lnx'']))) (\<lambda>bas.
     ret (resolve_for_base name krn root bas run_base_env
            (if base_env = None then home @ [''.lnx''] else bas)))"

subsection \<open>Text files\<close>

definition read_to_string :: "path \<Rightarrow> string M" where
  "read_to_string p = bind (read_file p) (\<lambda>c. if is_utf8 c then ret c else raise (Io OtherIo))"

lemma readonly_read_to_string [read_rules]: "readonly (read_to_string p)"
  unfolding read_to_string_def by (intro read_rules)

end
