(* ===== verification/Legacy.thy ===== *)
theory Legacy
  imports Store Paths
begin

text \<open>
  Moving an instance from the layout used before the store into the store,
  \<open>src/src/store/legacy.rs\<close>: the old snapshot or disk becomes the first generation, an interrupted old
  run a crashed run, old checkpoints checkpoint references; then the record is committed, and only then
  are the old files removed.
\<close>

abbreviation SNAPSHOTS_DIR :: string where "SNAPSHOTS_DIR \<equiv> ''memory-snapshots''"
abbreviation LATEST :: string where "LATEST \<equiv> ''latest''"
abbreviation LATEST_PREVIOUS :: string where "LATEST_PREVIOUS \<equiv> ''.latest.previous''"
abbreviation RESTORE_WORK :: string where "RESTORE_WORK \<equiv> ''.restore-work''"
abbreviation RESTORE_WORK_ACTIVE :: string where "RESTORE_WORK_ACTIVE \<equiv> ''.restore-work.active''"
abbreviation CHECKPOINT_META :: string where "CHECKPOINT_META \<equiv> ''checkpoint.meta''"
abbreviation OLD_LOCK :: string where "OLD_LOCK \<equiv> ''bootstrap.lock.d''"
abbreviation OLD_START_LOCK :: string where "OLD_START_LOCK \<equiv> ''owner-start.lock.d''"

datatype Migration =
    NotNeeded
  | MigratedTo gen_id "run_id option" nat

definition adopt_file :: "path \<Rightarrow> path \<Rightarrow> unit M" where
  "adopt_file legacy dest = recover_with (hard_link legacy dest) (\<lambda>_. clone_or_copy_file legacy dest)"

fun all_files :: "path \<Rightarrow> string list \<Rightarrow> bool M" where
  "all_files p [] = ret True"
| "all_files p (k # ks) =
     bind (test_path is_file (p @ [k])) (\<lambda>x. if x then all_files p ks else ret False)"

fun first_complete :: "path \<Rightarrow> string list \<Rightarrow> path option M" where
  "first_complete snapshots [] = ret None"
| "first_complete snapshots (k # ks) =
     bind (all_files (snapshots @ [k]) [VMSTATE, PAGES, ROOTFS]) (\<lambda>x.
     if x then ret (Some (snapshots @ [k])) else first_complete snapshots ks)"

definition legacy_latest :: "path \<Rightarrow> path option M" where
  "legacy_latest snapshots = first_complete snapshots [LATEST, LATEST_PREVIOUS]"

definition adopt_entry :: "path \<Rightarrow> path \<Rightarrow> string \<times> node \<Rightarrow> unit M" where
  "adopt_entry src dst kn =
     (case snd kn of Reg _ _ \<Rightarrow> adopt_file (src @ [fst kn]) (dst @ [fst kn]) | _ \<Rightarrow> ret ())"

definition migrate_crashed_run :: "path \<Rightarrow> run_id option M" where
  "migrate_crashed_run d =
     (let snapshots = d @ [SNAPSHOTS_DIR]; work = snapshots @ [RESTORE_WORK] in
      bind (test_path exists_at (snapshots @ [RESTORE_WORK_ACTIVE])) (\<lambda>marked.
      bind (if marked then test_path is_file (work @ [ROOTFS]) else ret False) (\<lambda>there.
      if \<not> there then ret None
      else
        bind (fresh_id ''r'') (\<lambda>run.
        bind (create_dir_all (run_dir d run)) (\<lambda>_.
        bind (read_dir work) (\<lambda>es.
        bind (each (adopt_entry work (run_dir d run)) es) (\<lambda>_.
        bind (clone_shares d (run_dir d run)) (\<lambda>_.
        bind (sync_tree (run_dir d run)) (\<lambda>_.
        bind (sync_dir (runs_dir d)) (\<lambda>_.
        ret (Some run)))))))))))"

definition legacy_checkpoint :: "path \<Rightarrow> string \<times> node \<Rightarrow> bool M" where
  "legacy_checkpoint p kn =
     (case snd kn of
        Sub _ \<Rightarrow>
          if starts_with (from_utf8_lossy (fst kn)) ''.'' then ret False
          else
            bind (test_path is_file (p @ [fst kn, ROOTFS])) (\<lambda>x.
            if x then test_path is_file (p @ [fst kn, CHECKPOINT_META]) else ret False)
      | _ \<Rightarrow> ret False)"

definition legacy_checkpoints :: "path \<Rightarrow> (string \<times> path) list M" where
  "legacy_checkpoints d =
     bind (read_dir_or_empty (checkpoints_dir d)) (\<lambda>es.
     bind (folding (\<lambda>found kn.
         bind (legacy_checkpoint (checkpoints_dir d) kn) (\<lambda>x.
         ret (if x then found @ [(from_utf8_lossy (fst kn), checkpoints_dir d @ [fst kn])] else found)))
       [] es) (\<lambda>found.
     ret (sort found)))"

definition meta_line :: "string option \<times> nat \<Rightarrow> string \<Rightarrow> string option \<times> nat" where
  "meta_line acc l =
     (case split_once (CHR ''='') l of
        None \<Rightarrow> acc
      | Some (key, val) \<Rightarrow>
          if key = ''name'' \<and> val \<noteq> [] then (Some val, snd acc)
          else if key = ''created_unix''
          then (fst acc, case parse_uint (2 ^ 64 - 1) val of None \<Rightarrow> 0 | Some n \<Rightarrow> n)
          else acc)"

definition parse_checkpoint_meta :: "string \<Rightarrow> string option \<times> nat" where
  "parse_checkpoint_meta meta = foldl meta_line (None, 0) (lines meta)"

definition read_checkpoint_meta :: "path \<Rightarrow> (string option \<times> nat) M" where
  "read_checkpoint_meta p =
     bind (recover_with (read_to_string (p @ [CHECKPOINT_META])) (\<lambda>_. ret [])) (\<lambda>meta.
     ret (parse_checkpoint_meta meta))"

text \<open>The pid file of an older process: refused when another live process is named.\<close>

definition refuse_pid_file :: "path \<Rightarrow> unit M" where
  "refuse_pid_file p =
     bind (recover_with (bind (read_to_string p) (\<lambda>c. ret (Some c))) (\<lambda>_. ret None)) (\<lambda>c.
     case Option.bind c (\<lambda>c. parse_i32 (trim c)) of
       None \<Rightarrow> ret ()
     | Some i \<Rightarrow>
         bind (process_of i) (\<lambda>live.
         bind (ask process) (\<lambda>me.
         if live \<noteq> None \<and> i \<noteq> pid me then raise (Bail ''an older lnx process is still using the instance'')
         else ret ())))"

definition refuse_live_legacy_owner :: "path \<Rightarrow> unit M" where
  "refuse_live_legacy_owner rd =
     each (\<lambda>lock. each (\<lambda>k. refuse_pid_file (rd @ [lock, k])) [''owner.pid'', ''maintenance.pid'', ''starter.pid''])
       [OLD_LOCK, OLD_START_LOCK]"

definition remove_old_locks :: "path \<Rightarrow> unit M" where
  "remove_old_locks p =
     each (\<lambda>k. bind (remove_path_if_exists (p @ [k])) (\<lambda>_. remove_path_if_exists (p @ [k @ ''.guard''])))
       [OLD_LOCK, OLD_START_LOCK]"

definition remove_checkpoint_dir :: "path \<Rightarrow> string \<times> node \<Rightarrow> unit M" where
  "remove_checkpoint_dir p kn =
     (case snd kn of Sub _ \<Rightarrow> remove_path_if_exists (p @ [fst kn]) | _ \<Rightarrow> ret ())"

definition remove_legacy_files :: "path \<Rightarrow> path \<Rightarrow> unit M" where
  "remove_legacy_files d rd =
     bind (remove_path_if_exists (d @ [SNAPSHOTS_DIR])) (\<lambda>_.
     bind (remove_path_if_exists (d @ [ROOTFS])) (\<lambda>_.
     bind (remove_path_if_exists (d @ [HOST_SHARE_STATE])) (\<lambda>_.
     bind (remove_path_if_exists (d @ [''vm-initialized''])) (\<lambda>_.
     bind (each remove_old_locks [rd, d]) (\<lambda>_.
     bind (recover_with (read_dir (checkpoints_dir d)) (\<lambda>_. ret [])) (\<lambda>es.
     each (remove_checkpoint_dir (checkpoints_dir d)) es))))))"

definition first_generation :: "path \<Rightarrow> path option \<Rightarrow> gen_id M" where
  "first_generation d found =
     (case found of
        Some src \<Rightarrow> import_dir d src None Migrated
      | None \<Rightarrow>
          bind (stage d) (\<lambda>st.
          bind (adopt_file (d @ [ROOTFS]) (st_dir st @ [ROOTFS])) (\<lambda>_.
          bind (clone_shares d (st_dir st)) (\<lambda>_.
          publish d st None Migrated))))"

definition migrate_checkpoint :: "path \<Rightarrow> nat \<Rightarrow> string \<times> path \<Rightarrow> nat M" where
  "migrate_checkpoint d n ic =
     bind (import_dir d (snd ic) None Migrated) (\<lambda>g.
     bind (read_checkpoint_meta (snd ic)) (\<lambda>meta.
     bind (add_checkpoint d \<lparr>ref_id = fst ic, ref_name = fst meta, ref_generation = g, ref_created_unix = snd meta\<rparr>) (\<lambda>_.
     ret (n + 1))))"

definition migrated_phase :: "run_id option \<Rightarrow> Phase" where
  "migrated_phase lost =
     (case lost of Some run \<Rightarrow> Dirty run \<lparr>pid = 0, started = 0\<rparr> | None \<Rightarrow> Stopped)"

definition migrate_legacy_layout :: "Layout \<Rightarrow> Migration M" where
  "migrate_legacy_layout L =
     (let d = instance_dir L in
      bind (store_exists d) (\<lambda>there.
      if there then bind (remove_legacy_files d (l_run_dir L)) (\<lambda>_. ret NotNeeded)
      else
        bind (legacy_latest (d @ [SNAPSHOTS_DIR])) (\<lambda>found.
        bind (if found = None then test_path exists_at (d @ [ROOTFS]) else ret True) (\<lambda>needed.
        if \<not> needed then ret NotNeeded
        else
          bind (refuse_live_legacy_owner (l_run_dir L)) (\<lambda>_.
          bind (remove_path_if_exists (generations_dir d)) (\<lambda>_.
          bind (remove_path_if_exists (runs_dir d)) (\<lambda>_.
          bind (first_generation d found) (\<lambda>g.
          bind (migrate_crashed_run d) (\<lambda>lost.
          bind (legacy_checkpoints d) (\<lambda>cs.
          bind (folding (migrate_checkpoint d) 0 cs) (\<lambda>n.
          bind (commit_json enc_record (state_path d)
                 \<lparr>version = RECORD_VERSION, latest = Some g, phase = migrated_phase lost\<rparr>) (\<lambda>_.
          bind (remove_legacy_files d (l_run_dir L)) (\<lambda>_.
          ret (MigratedTo g lost n))))))))))))))"

end
