(* ===== verification/LegacyProps.thy ===== *)
theory LegacyProps
  imports StoreProps Legacy
begin

text \<open>Migration is atomic: until the record is committed nothing of the old layout changes, and from
  then on the store holds a complete first generation; under every failure and every crash.\<close>

definition legacy_name :: "string \<Rightarrow> bool" where
  "legacy_name k \<longleftrightarrow> (\<forall>i. k \<noteq> i @ ''.ref'') \<and> (\<forall>i j. k \<noteq> i @ ''.ref.tmp-'' @ j)"

lemma not_legacy_name:
  "\<not> legacy_name (i @ ''.ref'')" "\<not> legacy_name (i @ ''.ref.tmp-'' @ j)"
  by (auto simp: legacy_name_def)

lemmas not_legacy_names [simp] = not_legacy_name not_legacy_name(2) [simplified]

definition legacy_paths :: "path \<Rightarrow> path set" where
  "legacy_paths d =
     {d @ [SNAPSHOTS_DIR], d @ [ROOTFS], d @ [HOST_SHARE_STATE]} \<union> {d @ [CHECKPOINTS_DIR, k] |k. legacy_name k}"

definition untouched :: "path \<Rightarrow> node \<Rightarrow> node \<Rightarrow> bool" where
  "untouched d t0 t \<longleftrightarrow> lookup t (state_path d) = None \<and> (\<forall>q \<in> legacy_paths d. lookup t q = lookup t0 q)"

definition moved :: "path \<Rightarrow> gen_id \<Rightarrow> run_id option \<Rightarrow> env \<Rightarrow> node \<Rightarrow> bool" where
  "moved d g lost e t \<longleftrightarrow> sound d e t \<and>
     disk_record (codec e) d t = Some (new_record (Some g) (migrated_phase lost))"

definition outcome :: "path \<Rightarrow> node \<Rightarrow> env \<Rightarrow> node \<Rightarrow> bool" where
  "outcome d t0 e t \<longleftrightarrow> codec_ok (codec e) \<and> untouched d t0 t \<or> (\<exists>g lost. moved d g lost e t)"

definition importing :: "path \<Rightarrow> node \<Rightarrow> gen_id set \<Rightarrow> env \<Rightarrow> node \<Rightarrow> bool" where
  "importing d t0 G e t \<longleftrightarrow> sound d e t \<and> untouched d t0 t \<and> (\<forall>g \<in> G. complete_gen (codec e) d t g \<noteq> None)"

lemma importing_outcome: "importing d t0 G e t \<Longrightarrow> outcome d t0 e t"
  by (simp add: importing_def outcome_def)

subsection \<open>Frames\<close>

definition spared :: "path \<Rightarrow> 'a M \<Rightarrow> bool" where
  "spared d m \<longleftrightarrow> keeps (state_path d) m \<and> (\<forall>q \<in> legacy_paths d. keeps q m)"

lemma spared_untouched:
  "spared d m \<Longrightarrow> m e s = (r, s') \<Longrightarrow> untouched d t0 (fs s) \<Longrightarrow> untouched d t0 (fs s')"
  unfolding spared_def untouched_def by (metis keepsD)

lemma readonly_spared: "readonly m \<Longrightarrow> spared d m"
  by (simp add: spared_def readonly_keeps)

lemma sparedI:
  assumes "\<And>q. apart p q \<Longrightarrow> keeps q m" "p = d @ k # p'" "k \<in> {GENERATIONS_DIR, RUNS_DIR}"
  shows "spared d m"
  unfolding spared_def using assms by (auto simp: legacy_paths_def)

lemma importing_frame:
  assumes "spared d m" "quiet d m"
  shows "triple (importing d t0 G) m (\<lambda>_. importing d t0 G) (outcome d t0)"
proof -
  have "importing d t0 G e (fs s')" if m: "m e s = (r, s')" and p: "importing d t0 G e (fs s)" for e s r s'
  proof -
    note ss = quietD [OF assms(2) m]
    from p have "store_inv (codec e) d (fs s')" using same_store_inv [OF ss] by (simp add: importing_def)
    moreover have "untouched d t0 (fs s')"
      using p spared_untouched [OF assms(1) m] by (simp add: importing_def)
    moreover have "complete_gen (codec e) d (fs s') g \<noteq> None" if "g \<in> G" for g
    proof -
      from p that obtain mf where "complete_gen (codec e) d (fs s) g = Some mf" by (auto simp: importing_def)
      from same_store_complete [OF ss this] show ?thesis by simp
    qed
    ultimately show ?thesis using p by (simp add: importing_def)
  qed
  then show ?thesis by (intro tripleI) (blast intro: importing_outcome)+
qed

lemma importing_read:
  "readonly m \<Longrightarrow> triple (importing d t0 G) m (\<lambda>_. importing d t0 G) (outcome d t0)"
  by (intro importing_frame readonly_spared quiet_readonly)

lemma spared_stage: "spared d (stage d)"
  unfolding spared_def by (auto simp: legacy_paths_def intro!: keeps_stage)

lemma importing_stage:
  "triple (importing d t0 G) (stage d) (\<lambda>st e t. importing d t0 G e t \<and> staging_ok d st) (outcome d t0)"
  by (rule tripleI)
    (use importing_frame [OF spared_stage quiet_stage] stage_Ok in \<open>blast dest: triple_okD triple_failD\<close>)+

subsection \<open>Generations\<close>

lemma publish_gens:
  assumes m: "publish d st par orig e s = (r, s')" and i: "sound d e (fs s)" and st: "staging_ok d st"
    and l: "link_ids_ok par orig" and g: "complete_gen (codec e) d (fs s) g \<noteq> None"
  shows "complete_gen (codec e) d (fs s') g \<noteq> None"
proof -
  have q: "quiet d (prepare st par orig)" using st keeps_prepare by (rule quiet_staging)
  have i1: "sound d e (fs s1) \<and> complete_gen (codec e) d (fs s1) g \<noteq> None"
    if "prepare st par orig e s = (x, s1)" for x s1
    using same_store_inv [OF quietD [OF q that]] same_store_complete [OF quietD [OF q that]] i g by auto
  from m show ?thesis unfolding publish_prepare
  proof (cases rule: bind_cases)
    case (step u1 s1)
    from step(2) show ?thesis
    proof (cases rule: bind_cases)
      case 2: (step u2 s2)
      have ro: "readonly (bind (sync_dir (generations_dir d)) (\<lambda>_. ret (st_id st)))" by (intro read_rules)
      have "complete_gen (codec e) d (fs s2) g \<noteq> None"
      proof (cases "g = st_id st")
        case True
        from i st have C: "codec_ok (codec e)" "valid_component (st_id st)" by (simp_all add: staging_ok_def)
        obtain mf n where p:
          "staged (codec e) st mf (fs s1)" "lookup (fs s1) (st_dir st) = Some n" "all_synced n"
          by (rule prepare_Ok [OF step(1) C(1) l C(2)]) (rule that)
        from publish_rename_step(2) [OF 2(1) _ st p] i1 [OF step(1)] True show ?thesis by simp
      next
        case False
        have "valid_component g" using g by (auto dest: complete_gen_valid)
        then have "keeps (generation_dir d g) (rename (st_dir st) (generation_dir d (st_id st)))"
          using False st by (intro keep_rules) (auto simp: staging_ok_def)
        from complete_gen_cong [OF keepsD [OF this 2(1)]] i1 [OF step(1)] show ?thesis by simp
      qed
      with readonlyD [OF ro 2(2)] show ?thesis by simp
    next
      case (err x)
      then have "fs s' = fs s1" by (auto dest: rename_fail)
      with i1 [OF step(1)] show ?thesis by simp
    next
      case kill
      then have "fs s' = fs s1" by (auto dest: rename_fail)
      with i1 [OF step(1)] show ?thesis by simp
    qed
  qed (use i1 in blast)+
qed

lemma spared_publish: "staging_ok d st \<Longrightarrow> spared d (publish d st par orig)"
  unfolding spared_def by (auto simp: legacy_paths_def staging_ok_def intro!: keeps_publish)

lemma importing_publish:
  assumes "staging_ok d st" "link_ids_ok par orig"
  shows "triple (importing d t0 G) (publish d st par orig) (\<lambda>g. importing d t0 (insert g G)) (outcome d t0)"
proof (rule tripleI, goal_cases)
  case (1 e s g s')
  then have i: "sound d e (fs s)" by (simp add: importing_def)
  obtain m where "sound d e (fs s')" "complete_gen (codec e) d (fs s') g = Some m"
    by (rule publish_Ok [OF 1(1) i assms]) (rule that)
  with 1 publish_gens [OF 1(1) i assms] spared_untouched [OF spared_publish [OF assms(1)] 1(1)]
  show ?case by (simp add: importing_def)
next
  case (2 e s r s')
  then show ?case
    using spared_untouched [OF spared_publish [OF assms(1)] 2(1)] by (simp add: importing_def outcome_def)
qed

lemma importing_staged:
  assumes "staging_ok d st" "\<And>q. apart (st_dir st) q \<Longrightarrow> keeps q m"
  shows "triple (importing d t0 G) m (\<lambda>_. importing d t0 G) (outcome d t0)"
proof (rule importing_frame)
  show "quiet d m" using assms by (rule quiet_staging)
  show "spared d m"
    using assms(2) by (rule sparedI) (use assms(1) in \<open>auto simp: staging_ok_def\<close>)
qed

lemma migrated_links [simp]: "link_ids_ok None Migrated"
  by (simp add: link_ids_ok_def)

lemma importing_import:
  "triple (importing d t0 G) (import_dir d src None Migrated) (\<lambda>g. importing d t0 (insert g G)) (outcome d t0)"
  unfolding import_dir_def
proof (intro triple_bind [OF importing_stage] triple_assuming, goal_cases)
  case (1 st)
  show ?case
    by (rule triple_bind [OF importing_read], rule read_rules,
        rule triple_bind [OF importing_staged [OF 1]], intro keep_rules,
        assumption, rule importing_publish [OF 1 migrated_links])
qed

subsection \<open>The steps of migration\<close>

lemma remove_path_Ok:
  assumes "remove_path_if_exists (p @ [k]) e s = (Ok u, s')"
  shows "lookup (fs s') (p @ [k]) = None"
proof -
  have gone: "lookup (put (p @ [k]) None t) (p @ [k]) = None" if "lookup t (p @ [k]) = Some n" for t n
  proof -
    from that obtain m where m: "lookup t p = Some m" "lookup m [k] = Some n"
      by (cases "lookup t p") (auto simp: lookup_append)
    then have "is_dir t p" by (cases m) (auto simp: is_dir_def)
    then show ?thesis by (rule lookup_put_same)
  qed
  from assms show ?thesis unfolding remove_path_if_exists_def
    by (auto simp: bind_def recover_with_def symlink_metadata_def observe_def call_def ret_def raise_def Let_def
        remove_dir_all_def remove_file_def intact_def gone
        split: prod.splits res.splits fault.splits option.splits node.splits sum.splits if_splits)
qed

lemma start_importing:
  "triple (\<lambda>e t. codec_ok (codec e) \<and> untouched d t0 t) (remove_path_if_exists (generations_dir d))
     (\<lambda>_. importing d t0 {}) (outcome d t0)"
proof -
  have sp: "spared d (remove_path_if_exists (generations_dir d))"
    unfolding spared_def by (auto simp: legacy_paths_def intro!: keep_rules)
  have "sealed d t" if "lookup t (generations_dir d) = None" for t
    using lookup_append_None [OF that] by (auto simp: sealed_def)
  then show ?thesis
    by (intro tripleI)
      (auto simp: importing_def outcome_def store_inv_def record_sound_def untouched_def
        dest: spared_untouched [OF sp, where ?t0.0 = t0, unfolded untouched_def] remove_path_Ok)
qed

lemma importing_weaken:
  assumes "triple (importing d t0 G) m (\<lambda>x. importing d t0 (insert x G)) (outcome d t0)"
  shows "triple (importing d t0 G) m (\<lambda>_. importing d t0 G) (outcome d t0)"
  by (rule triple_weaken [OF assms]) (auto simp: importing_def)

lemma keeps_adopt_file [keep_rules]: "apart dst q \<Longrightarrow> keeps q (adopt_file src dst)"
  unfolding adopt_file_def by (intro keep_rules)

lemma importing_first:
  "triple (importing d t0 {}) (first_generation d found) (\<lambda>g. importing d t0 {g}) (outcome d t0)"
proof (cases found)
  case None
  have "triple (importing d t0 {}) (bind (stage d) (\<lambda>st.
      bind (adopt_file (d @ [ROOTFS]) (st_dir st @ [ROOTFS])) (\<lambda>_.
      bind (clone_shares d (st_dir st)) (\<lambda>_. publish d st None Migrated)))) (\<lambda>g. importing d t0 {g}) (outcome d t0)"
  proof (intro triple_bind [OF importing_stage] triple_assuming, goal_cases)
    case (1 st)
    show ?case
      by (rule triple_bind [OF importing_staged [OF 1]], rule keep_rules, simp add: apart_append1,
          rule triple_bind [OF importing_staged [OF 1]], rule keep_rules, assumption,
          rule importing_publish [OF 1 migrated_links])
  qed
  with None show ?thesis by (simp add: first_generation_def)
next
  case (Some src)
  then show ?thesis using importing_import [of d t0 "{}"] by (simp add: first_generation_def)
qed

lemma importing_run:
  assumes "\<And>q. apart (run_dir d run) q \<Longrightarrow> keeps q m"
  shows "triple (importing d t0 G) m (\<lambda>_. importing d t0 G) (outcome d t0)"
proof (rule importing_frame)
  show "spared d m" using assms by (rule sparedI) auto
  show "quiet d m" using assms by (auto simp: quiet_def)
qed

lemma keeps_adopt_entry [keep_rules]: "apart dst q \<Longrightarrow> keeps q (adopt_entry src dst kn)"
  unfolding adopt_entry_def by (auto split: node.splits intro!: keep_rules apart_append1)

lemma importing_run_id:
  "triple (importing d t0 G) (fresh_id ''r'') (\<lambda>run e t. importing d t0 G e t \<and> valid_component run) (outcome d t0)"
  by (rule triple_readonly) (auto intro: read_rules importing_outcome new_id_valid simp: fresh_id_def)

lemma importing_crashed_run:
  "triple (importing d t0 G) (migrate_crashed_run d)
     (\<lambda>lost e t. importing d t0 G e t \<and> phase_ids_ok (migrated_phase lost)) (outcome d t0)"
  unfolding migrate_crashed_run_def Let_def
proof (rule triple_bind [OF importing_read], rule read_rules, rule triple_bind [OF importing_read],
    intro read_rules, rule triple_if, goal_cases)
  case (1 marked there)
  show ?case by (rule triple_ret) (simp add: migrated_phase_def phase_ids_ok_def)
next
  case (2 marked there)
  have "triple (importing d t0 G) (bind (create_dir_all (run_dir d run)) (\<lambda>_.
      bind (read_dir work) (\<lambda>es.
      bind (each (adopt_entry work (run_dir d run)) es) (\<lambda>_.
      bind (clone_shares d (run_dir d run)) (\<lambda>_.
      bind (sync_tree (run_dir d run)) (\<lambda>_.
      bind (sync_dir (runs_dir d)) (\<lambda>_. ret (Some run))))))))
    (\<lambda>lost e t. importing d t0 G e t \<and> phase_ids_ok (migrated_phase lost)) (outcome d t0)"
    if "valid_component run" for run work
    by (intro triple_bind [OF importing_run [where run = run]] triple_bind [OF importing_read] triple_ret
        keep_rules read_rules)
      (use that in \<open>auto simp: apart_def migrated_phase_def phase_ids_ok_def\<close>)
  then show ?case by (intro triple_bind [OF importing_run_id] triple_assuming)
qed

lemma quiet_add_checkpoint:
  "triple (importing d t0 G) (add_checkpoint d c) (\<lambda>_. importing d t0 G) (outcome d t0)"
proof -
  have dirs: "triple (importing d t0 G) (create_dir_all (checkpoints_dir d)) (\<lambda>_. importing d t0 G) (outcome d t0)"
    by (rule importing_frame)
      (auto simp: spared_def legacy_paths_def quiet_def protected_def intro!: keep_rules)
  have ref: "triple (importing d t0 G) (checkpoint_ref_path d i)
      (\<lambda>p e t. importing d t0 G e t \<and> p = d @ [CHECKPOINTS_DIR, i @ ''.ref'']) (outcome d t0)" for i
    by (rule triple_readonly) (auto intro: read_rules importing_outcome dest: checkpoint_ref_path_Ok)
  have sp: "spared d (commit_json enc_ref (d @ [CHECKPOINTS_DIR, i @ ''.ref'']) c)" for i
  proof -
    have "keeps q (commit_file ((d @ [CHECKPOINTS_DIR]) @ [i @ ''.ref'']) x)"
      if "q = state_path d \<or> q \<in> legacy_paths d" for q x
      using that by (intro keep_rules) (auto simp: legacy_paths_def)
    then show ?thesis by (auto simp: spared_def commit_json_def intro!: keep_rules)
  qed
  have gen: "triple (importing d t0 G) (generation d g) (\<lambda>_. importing d t0 G) (outcome d t0)" for g
    by (rule importing_read) (rule read_rules)
  show ?thesis unfolding add_checkpoint_def
    by (intro triple_bind [OF gen] triple_bind [OF dirs] triple_bind [OF ref] triple_assuming)
      (simp add: importing_frame sp quiet_commit_ref)
qed

lemma importing_checkpoint:
  "triple (importing d t0 G) (migrate_checkpoint d n ic) (\<lambda>_. importing d t0 G) (outcome d t0)"
proof -
  have meta: "triple (importing d t0 G) (read_checkpoint_meta p) (\<lambda>_. importing d t0 G) (outcome d t0)" for p
    unfolding read_checkpoint_meta_def by (rule importing_read) (intro read_rules)
  show ?thesis unfolding migrate_checkpoint_def
    by (rule triple_bind [OF importing_weaken [OF importing_import]], rule triple_bind [OF meta],
        rule triple_bind [OF quiet_add_checkpoint], rule triple_ret)
qed

lemma importing_checkpoints:
  "triple (importing d t0 G) (folding (migrate_checkpoint d) n cs) (\<lambda>_. importing d t0 G) (outcome d t0)"
proof (induction cs arbitrary: n)
  case Nil
  show ?case unfolding folding.simps by (rule triple_ret)
next
  case (Cons c cs)
  show ?case unfolding folding.simps by (rule triple_bind [OF importing_checkpoint Cons])
qed

lemma commit_migrated:
  "triple (\<lambda>e t. importing d t0 {g} e t \<and> phase_ids_ok (migrated_phase lost))
     (commit_record d (Some g) (migrated_phase lost)) (\<lambda>_. moved d g lost) (outcome d t0)"
proof -
  let ?c = "commit_record d (Some g) (migrated_phase lost)"
  have "outcome d t0 e (fs s') \<and> (r = Ok () \<longrightarrow> moved d g lost e (fs s'))"
    if m: "?c e s = (r, s')" and p: "importing d t0 {g} e (fs s)" and ph: "phase_ids_ok (migrated_phase lost)" for e s r s'
  proof -
    from p ph have i: "sound d e (fs s)" and n: "names_ok (codec e) d (Some g) (migrated_phase lost) (fs s)"
      and u: "untouched d t0 (fs s)"
      by (simp_all add: importing_def names_ok_def)
    from i have C: "codec_ok (codec e)" by simp
    note inv = commit_record_inv [OF m i n]
    note at = commit_record_atomic [OF m] and dk = commit_record_disk [OF m C names_ok_ids [OF n]]
    have "keeps q ?c" if "q \<in> legacy_paths d" for q
      using that by (intro keep_rules) (auto simp: legacy_paths_def)
    then have l: "\<forall>q \<in> legacy_paths d. lookup (fs s') q = lookup t0 q"
      using u m unfolding untouched_def by (metis keepsD)
    show ?thesis
    proof (cases "lookup (fs s') (state_path d) = None")
      case True
      with l C have "outcome d t0 e (fs s')" by (simp add: outcome_def untouched_def)
      moreover have "r \<noteq> Ok ()" using True at(2) by auto
      ultimately show ?thesis by simp
    next
      case False
      with u at(1) have "lookup (fs s') (state_path d) =
          Some (Reg (enc_record (codec e) (new_record (Some g) (migrated_phase lost)) @ [CHR 0x0A]) True)"
        by (auto simp: untouched_def)
      from disk_record_committed [OF this C names_ok_ids [OF n]] inv have "moved d g lost e (fs s')"
        by (simp add: moved_def)
      then show ?thesis by (auto simp: outcome_def)
    qed
  qed
  then show ?thesis by (intro tripleI) (fastforce, blast)
qed

lemma keeps_old_locks:
  assumes "rd = d \<or> apart rd d" "q \<in> protected d"
  shows "keeps q (remove_old_locks rd)"
proof -
  have a: "apart (rd @ [k]) q" if "k \<notin> {STATE_FILE, GENERATIONS_DIR}" for k
  proof (cases "rd = d")
    case True
    with assms(2) that show ?thesis by (auto simp: protected_def)
  next
    case False
    with assms(1) have "apart rd d" by simp
    with assms(2) show ?thesis by (auto simp: protected_def intro: apart_append1 apart_append2)
  qed
  show ?thesis unfolding remove_old_locks_def by (intro keep_rules a) auto
qed

lemma quiet_remove_legacy:
  assumes "rd = d \<or> apart rd d"
  shows "quiet d (remove_legacy_files d rd)"
  unfolding quiet_def
proof
  fix q
  assume q: "q \<in> protected d"
  then have a: "apart (d @ k # p) q" if "k \<notin> {STATE_FILE, GENERATIONS_DIR}" for k p
    using that by (auto simp: protected_def)
  have "keeps q (remove_checkpoint_dir (checkpoints_dir d) kn)" for kn
    unfolding remove_checkpoint_dir_def
    by (cases "snd kn") (use a [of CHECKPOINTS_DIR] in \<open>auto intro!: keep_rules\<close>)
  moreover have "keeps q (remove_old_locks p)" if "p \<in> {rd, d}" for p
    using keeps_old_locks [of p d q] assms q that by auto
  ultimately show "keeps q (remove_legacy_files d rd)"
    unfolding remove_legacy_files_def by (intro keep_rules a) auto
qed

lemma test_path_true: "test_path f p e s = (Ok True, s') \<Longrightarrow> f (fs s) p"
  unfolding test_path_def by (auto elim!: recover_with_OkE observe_OkE)

definition settled :: "path \<Rightarrow> node \<Rightarrow> Migration \<Rightarrow> env \<Rightarrow> node \<Rightarrow> bool" where
  "settled d t0 m e t =
     (case m of
        NotNeeded \<Rightarrow> codec_ok (codec e) \<and> untouched d t0 t
      | MigratedTo g lost n \<Rightarrow> moved d g lost e t)"

lemma moved_remove:
  assumes "rd = d \<or> apart rd d"
  shows "triple (moved d g lost) (remove_legacy_files d rd) (\<lambda>_. moved d g lost) (outcome d t0)"
proof (rule triple_quiet [OF quiet_remove_legacy [OF assms]])
  show "moved d g lost e t' " if "same_store d t t'" "moved d g lost e t" for e t t'
    using that same_store_inv same_store_record by (simp add: moved_def)
qed (auto simp: outcome_def)

definition import_all :: "path \<Rightarrow> path \<Rightarrow> path option \<Rightarrow> Migration M" where
  "import_all d rd found =
     bind (remove_path_if_exists (generations_dir d)) (\<lambda>_.
     bind (remove_path_if_exists (runs_dir d)) (\<lambda>_.
     bind (first_generation d found) (\<lambda>g.
     bind (migrate_crashed_run d) (\<lambda>lost.
     bind (legacy_checkpoints d) (\<lambda>cs.
     bind (folding (migrate_checkpoint d) 0 cs) (\<lambda>n.
     bind (commit_record d (Some g) (migrated_phase lost)) (\<lambda>_.
     bind (remove_legacy_files d rd) (\<lambda>_.
     ret (MigratedTo g lost n)))))))))"

lemma readonly_legacy [read_rules]:
  "readonly (all_files p ks)" "readonly (first_complete p ks)" "readonly (legacy_latest p)"
  "readonly (legacy_checkpoint p kn)" "readonly (legacy_checkpoints d)"
  "readonly (refuse_pid_file p)" "readonly (refuse_live_legacy_owner p)"
proof -
  show af: "readonly (all_files p ks)" for p ks by (induction ks) (auto intro!: read_rules)
  show "readonly (first_complete p ks)" by (induction ks) (auto intro!: read_rules af)
  then show "readonly (legacy_latest p)"
    unfolding legacy_latest_def by (auto intro!: read_rules af)
  show lc: "readonly (legacy_checkpoint p kn)" for p kn
    unfolding legacy_checkpoint_def by (cases "snd kn") (auto intro!: read_rules)
  show "readonly (legacy_checkpoints d)"
    unfolding legacy_checkpoints_def by (intro read_rules lc)
  show rp: "readonly (refuse_pid_file p)" for p
    unfolding refuse_pid_file_def by (intro read_rules)
  show "readonly (refuse_live_legacy_owner p)"
    unfolding refuse_live_legacy_owner_def by (intro read_rules rp)
qed

lemma import_all_settled:
  assumes "rd = d \<or> apart rd d"
  shows "triple (\<lambda>e t. codec_ok (codec e) \<and> untouched d t0 t) (import_all d rd found)
     (\<lambda>m e t. settled d t0 m e t \<and> m \<noteq> NotNeeded) (outcome d t0)"
proof -
  have rm: "triple (importing d t0 {}) (remove_path_if_exists (runs_dir d)) (\<lambda>_. importing d t0 {}) (outcome d t0)"
    by (rule importing_frame)
      (auto simp: spared_def legacy_paths_def quiet_def protected_def intro!: keep_rules)
  have fin: "triple (moved d g lost) (bind (remove_legacy_files d rd) (\<lambda>_. ret (MigratedTo g lost n)))
      (\<lambda>m e t. settled d t0 m e t \<and> m \<noteq> NotNeeded) (outcome d t0)" for g lost n
    by (rule triple_bind [OF moved_remove [OF assms]]) (rule triple_ret, simp add: settled_def)
  have rest: "triple (importing d t0 {g}) (bind (legacy_checkpoints d) (\<lambda>cs.
      bind (folding (migrate_checkpoint d) 0 cs) (\<lambda>n.
      bind (commit_record d (Some g) (migrated_phase lost)) (\<lambda>_.
      bind (remove_legacy_files d rd) (\<lambda>_. ret (MigratedTo g lost n))))))
      (\<lambda>m e t. settled d t0 m e t \<and> m \<noteq> NotNeeded) (outcome d t0)"
    if "phase_ids_ok (migrated_phase lost)" for g lost
  proof (rule triple_bind [OF importing_read], rule read_rules, rule triple_bind [OF importing_checkpoints], goal_cases)
    case (1 cs n)
    have "triple (importing d t0 {g}) (commit_record d (Some g) (migrated_phase lost)) (\<lambda>_. moved d g lost) (outcome d t0)"
      by (rule triple_pre [OF commit_migrated]) (use that in simp)
    then show ?case by (rule triple_bind) (rule fin)
  qed
  show ?thesis unfolding import_all_def
    by (intro triple_bind [OF start_importing] triple_bind [OF rm] triple_bind [OF importing_first]
        triple_bind [OF importing_crashed_run] triple_assuming rest)
qed

lemma migrate_settled:
  assumes "l_run_dir L = instance_dir L \<or> apart (l_run_dir L) (instance_dir L)" "d = instance_dir L"
  shows "triple (\<lambda>e t. codec_ok (codec e) \<and> untouched d t0 t) (migrate_legacy_layout L)
     (settled d t0) (outcome d t0)"
proof -
  let ?P = "\<lambda>e t. codec_ok (codec e) \<and> untouched d t0 t"
  have out: "?P e t \<Longrightarrow> outcome d t0 e t" for e t by (simp add: outcome_def)
  have ex: "triple ?P (store_exists d) (\<lambda>x e t. ?P e t \<and> \<not> x) (outcome d t0)"
  proof (rule triple_readonly, rule read_rules)
    show "?P e (fs s) \<and> \<not> x" if "store_exists d e s = (Ok x, s')" "?P e (fs s)" for e s x s'
      using that test_path_true [of exists_at "state_path d" e s s']
      by (cases x) (auto simp: store_exists_def untouched_def exists_at_def)
  qed (use out in blast)
  have rd: "triple ?P m (\<lambda>_. ?P) (outcome d t0)" if "readonly m" for m :: "'b M"
    by (rule triple_reading [OF that]) (use out in blast)
  have imp: "triple ?P (import_all d (l_run_dir L) found) (settled d t0) (outcome d t0)" for found
    by (rule triple_weaken [OF import_all_settled]) (use assms in auto)
  have "migrate_legacy_layout L =
     bind (store_exists d) (\<lambda>there.
     if there then bind (remove_legacy_files d (l_run_dir L)) (\<lambda>_. ret NotNeeded)
     else bind (legacy_latest (d @ [SNAPSHOTS_DIR])) (\<lambda>found.
       bind (if found = None then test_path exists_at (d @ [ROOTFS]) else ret True) (\<lambda>needed.
       if \<not> needed then ret NotNeeded
       else bind (refuse_live_legacy_owner (l_run_dir L)) (\<lambda>_. import_all d (l_run_dir L) found))))"
    unfolding migrate_legacy_layout_def import_all_def Let_def assms(2) commit_record_def ..
  moreover have "triple ?P (bind (legacy_latest (d @ [SNAPSHOTS_DIR])) (\<lambda>found.
       bind (if found = None then test_path exists_at (d @ [ROOTFS]) else ret True) (\<lambda>needed.
       if \<not> needed then ret NotNeeded
       else bind (refuse_live_legacy_owner (l_run_dir L)) (\<lambda>_. import_all d (l_run_dir L) found))))
       (settled d t0) (outcome d t0)"
    by (intro triple_bind [OF rd] triple_if triple_ret imp read_rules) (simp add: settled_def)
  ultimately show ?thesis
    by (simp only:) (rule triple_bind [OF ex], rule triple_assuming, simp)
qed

text \<open>C9: moving an instance into the store is atomic, whatever fails and wherever the process dies.
  Either there is still no record and every file of the old layout is as it was, so that the move can
  be tried again, or the record is committed and names a complete, durable generation. It reports a
  move exactly with that record, and reports that none was needed only when it changed nothing.\<close>

theorem migration_atomic:
  assumes "migrate_legacy_layout L e s = (r, s')" and "codec_ok (codec e)"
    and "lookup (fs s) (instance_dir L @ [STATE_FILE]) = None"
    and "l_run_dir L = instance_dir L \<or> apart (l_run_dir L) (instance_dir L)"
  shows "(untouched (instance_dir L) (fs s) (fs s') \<or>
      (\<exists>g lost m. store_inv (codec e) (instance_dir L) (fs s') \<and>
        disk_record (codec e) (instance_dir L) (fs s') = Some (new_record (Some g) (migrated_phase lost)) \<and>
        complete_gen (codec e) (instance_dir L) (fs s') g = Some m)) \<and>
    (r = Ok NotNeeded \<longrightarrow> untouched (instance_dir L) (fs s) (fs s')) \<and>
    (\<forall>g lost n. r = Ok (MigratedTo g lost n) \<longrightarrow>
      disk_record (codec e) (instance_dir L) (fs s') = Some (new_record (Some g) (migrated_phase lost)))"
proof -
  let ?d = "instance_dir L"
  note tr = migrate_settled [OF assms(4) refl, where ?t0.0 = "fs s"]
  have p: "codec_ok (codec e) \<and> untouched ?d (fs s) (fs s)" using assms(2,3) by (simp add: untouched_def)
  have ok: "settled ?d (fs s) m e (fs s')" if "r = Ok m" for m
    using triple_okD [where Q = "settled ?d (fs s)" and P = "\<lambda>e t. codec_ok (codec e) \<and> untouched ?d (fs s) t", OF tr p] assms(1) that
    by simp
  have "outcome ?d (fs s) e (fs s')"
  proof (cases r)
    case (Ok m)
    with ok [OF Ok] show ?thesis by (cases m) (auto simp: settled_def outcome_def)
  qed (use triple_failD [where Q = "settled ?d (fs s)" and P = "\<lambda>e t. codec_ok (codec e) \<and> untouched ?d (fs s) t", OF tr p assms(1)] in auto)
  moreover have "\<exists>m. complete_gen (codec e) ?d (fs s') g = Some m" if "moved ?d g lost e (fs s')" for g lost
  proof -
    from that have i: "store_inv (codec e) ?d (fs s')"
      and k: "disk_record (codec e) ?d (fs s') = Some (new_record (Some g) (migrated_phase lost))"
      by (simp_all add: moved_def)
    from k obtain n where "lookup (fs s') (state_path ?d) = Some n"
      by (auto simp: disk_record_def split: option.splits)
    with i k show ?thesis by (auto simp: store_inv_def record_sound_iff)
  qed
  ultimately show ?thesis
    using ok by (fastforce simp: outcome_def moved_def settled_def)
qed

definition sample_layout :: Layout where
  "sample_layout =
     \<lparr>base = [], l_instance = ''i'', kernel = [''vmlinuz''], l_rootfs = None, instance_dir = here,
      l_run_dir = here, console_log = [''i'', ''console.log'']\<rparr>"

definition legacy_instance :: sys where
  "legacy_instance = \<lparr>fs = Sub [(''i'', Sub [(ROOTFS, Reg ''disk'' True)])], tick = 0, seq = 0\<rparr>"

definition moved_whole :: "Migration res \<Rightarrow> bool" where
  "moved_whole r = (case r of Ok (MigratedTo g None n) \<Rightarrow> n = 0 | _ \<Rightarrow> False)"

theorem migration_atomic_witness:
  "\<exists>g. fst (migrate_legacy_layout sample_layout sample_env legacy_instance) = Ok (MigratedTo g None 0) \<and>
     disk_record sample_codec here (fs (snd (migrate_legacy_layout sample_layout sample_env legacy_instance))) =
       Some (new_record (Some g) Stopped)"
proof -
  have "moved_whole (fst (migrate_legacy_layout sample_layout sample_env legacy_instance))" by code_simp
  then obtain g where g: "fst (migrate_legacy_layout sample_layout sample_env legacy_instance) = Ok (MigratedTo g None 0)"
    by (auto simp: moved_whole_def split: res.splits Migration.splits option.splits)
  have "migrate_legacy_layout sample_layout sample_env legacy_instance =
      (Ok (MigratedTo g None 0), snd (migrate_legacy_layout sample_layout sample_env legacy_instance))"
    using g by (metis prod.collapse)
  moreover have "instance_dir sample_layout = here" "l_run_dir sample_layout = here"
    "lookup (fs legacy_instance) (here @ [STATE_FILE]) = None"
    by (simp_all add: sample_layout_def legacy_instance_def)
  ultimately have "disk_record sample_codec here (fs (snd (migrate_legacy_layout sample_layout sample_env legacy_instance))) =
      Some (new_record (Some g) (migrated_phase None))"
    using migration_atomic [of sample_layout sample_env legacy_instance] sample_codec_ok by simp
  with g show ?thesis by (auto simp: migrated_phase_def)
qed

text \<open>The check for a record answers no when it fails. With files of the old layout left behind by an
  interrupted clean-up, the generations of a committed instance are then removed.\<close>

definition leftover_instance :: sys where
  "leftover_instance =
     (case sample_stopped of s \<Rightarrow> s\<lparr>fs := put [''i'', ROOTFS] (Some (Reg ''old'' True)) (fs s)\<rparr>)"

lemma migration_unreadable_record:
  "let s' = snd (migrate_legacy_layout sample_layout
         (sample_env\<lparr>faults := (\<lambda>n. if n = 0 then Fails [] else Works)\<rparr>) leftover_instance)
   in complete_gen sample_codec here (fs leftover_instance) sample_gen \<noteq> None \<and>
      lookup (fs s') (generation_dir here sample_gen) = None"
  by code_simp

end
