(* ===== verification/Calm.thy ===== *)
theory Calm
  imports Sample Paths
begin

text \<open>
  Running operations in a world in which no system call fails: each call then has its plain effect
  and takes one tick. The rules in \<open>calm_rules\<close> evaluate a composed operation.
\<close>

named_theorems calm_rules \<open>evaluation of operations when no system call fails\<close>

abbreviation ticked :: "sys \<Rightarrow> sys" where
  "ticked s \<equiv> s\<lparr>tick := Suc (tick s)\<rparr>"

lemma call_calm [calm_rules]:
  "calm e \<Longrightarrow> call torn f e s =
     (case f (fs s) of Inl k \<Rightarrow> (Err (Io k), ticked s) | Inr (x, t) \<Rightarrow> (Ok x, (ticked s)\<lparr>fs := t\<rparr>))"
  by (simp add: call_def calm_def Let_def)

lemma observe_calm [calm_rules]:
  "calm e \<Longrightarrow> observe f e s =
     (case f (fs s) of Inl k \<Rightarrow> (Err (Io k), ticked s) | Inr x \<Rightarrow> (Ok x, ticked s))"
  by (auto simp: observe_def call_calm split: sum.splits)

lemma read_file_calm [calm_rules]:
  "calm e \<Longrightarrow> read_file p e s =
     (case lookup (fs s) p of
        None \<Rightarrow> (Err (Io (missing_kind (fs s) p)), ticked s)
      | Some (Reg c _) \<Rightarrow> (Ok c, ticked s)
      | Some _ \<Rightarrow> (Err (Io OtherIo), ticked s))"
  by (simp add: read_file_def observe_calm split: option.splits node.splits)

lemma open_file_calm [calm_rules]:
  "calm e \<Longrightarrow> open_file p e s =
     (case lookup (fs s) p of
        None \<Rightarrow> (Err (Io (missing_kind (fs s) p)), ticked s)
      | Some _ \<Rightarrow> (Ok (), ticked s))"
  by (simp add: open_file_def observe_calm split: option.splits)

lemma file_len_calm [calm_rules]:
  "calm e \<Longrightarrow> file_len p e s =
     (case lookup (fs s) p of
        None \<Rightarrow> (Err (Io (missing_kind (fs s) p)), ticked s)
      | Some (Reg c _) \<Rightarrow> (Ok (length c), ticked s)
      | Some _ \<Rightarrow> (Err (Io OtherIo), ticked s))"
  by (simp add: file_len_def observe_calm split: option.splits node.splits)

lemma test_path_calm [calm_rules]:
  "calm e \<Longrightarrow> test_path f p e s = (Ok (f (fs s) p), ticked s)"
  by (simp add: test_path_def recover_with_def observe_calm)

lemma read_to_string_calm [calm_rules]:
  "calm e \<Longrightarrow> read_to_string p e s =
     (case lookup (fs s) p of
        None \<Rightarrow> (Err (Io (missing_kind (fs s) p)), ticked s)
      | Some (Reg c _) \<Rightarrow> (if is_utf8 c then Ok c else Err (Io OtherIo), ticked s)
      | Some _ \<Rightarrow> (Err (Io OtherIo), ticked s))"
  by (simp add: read_to_string_def bind_def read_file_calm ret_def raise_def
      split: option.splits node.splits)

text \<open>Sequencing.\<close>

lemmas run_rules = bind_def recover_with_def ret_def raise_def lift_res_def when_ok_def ask_def ignore_def

subsection \<open>What a reading operation gives\<close>

text \<open>\<open>gives m v\<close>: when no system call fails, \<open>m\<close> leaves the tree alone and its result is the
  function \<open>v\<close> of the tree.\<close>

definition gives :: "'a M \<Rightarrow> (node \<Rightarrow> 'a res) \<Rightarrow> bool" where
  "gives m v \<longleftrightarrow> (\<forall>e s. calm e \<longrightarrow> fst (m e s) = v (fs s) \<and> fs (snd (m e s)) = fs s)"

named_theorems gives_rules \<open>rules giving the result of a reading operation\<close>

lemma givesD: "gives m v \<Longrightarrow> calm e \<Longrightarrow> fst (m e s) = v (fs s) \<and> fs (snd (m e s)) = fs s"
  by (simp add: gives_def)

lemma gives_eq: "gives m v \<Longrightarrow> (\<And>t. v t = w t) \<Longrightarrow> gives m w"
  by (simp add: gives_def)

lemma gives_ret [gives_rules]: "gives (ret x) (\<lambda>_. Ok x)"
  by (simp add: gives_def ret_def)

lemma gives_raise [gives_rules]: "gives (raise x) (\<lambda>_. Err x)"
  by (simp add: gives_def raise_def)

lemma gives_lift_res [gives_rules]:
  "gives (lift_res r) (\<lambda>_. case r of Inl x \<Rightarrow> Err x | Inr y \<Rightarrow> Ok y)"
  by (simp add: gives_def lift_res_def ret_def raise_def split: sum.splits)

lemma gives_bind [gives_rules]:
  assumes "gives m v" "\<And>x. gives (f x) (w x)"
  shows "gives (bind m f) (\<lambda>t. case v t of Ok x \<Rightarrow> w x t | Err x \<Rightarrow> Err x | Killed \<Rightarrow> Killed)"
  unfolding gives_def
proof (intro allI impI)
  fix e s
  assume e: "calm e"
  obtain r s' where m: "m e s = (r, s')" by force
  with givesD [OF assms(1) e, of s] have "r = v (fs s)" "fs s' = fs s" by auto
  with m show "fst (bind m f e s) = (case v (fs s) of Ok x \<Rightarrow> w x (fs s) | Err x \<Rightarrow> Err x | Killed \<Rightarrow> Killed) \<and>
      fs (snd (bind m f e s)) = fs s"
    using givesD [OF assms(2) e, of _ s'] by (cases "v (fs s)") (auto simp: bind_def)
qed

lemma gives_recover_with [gives_rules]:
  assumes "gives m v" "\<And>x. gives (h x) (w x)"
  shows "gives (recover_with m h) (\<lambda>t. case v t of Ok x \<Rightarrow> Ok x | Err x \<Rightarrow> w x t | Killed \<Rightarrow> Killed)"
  unfolding gives_def
proof (intro allI impI)
  fix e s
  assume e: "calm e"
  obtain r s' where m: "m e s = (r, s')" by force
  with givesD [OF assms(1) e, of s] have "r = v (fs s)" "fs s' = fs s" by auto
  with m show "fst (recover_with m h e s) =
        (case v (fs s) of Ok x \<Rightarrow> Ok x | Err x \<Rightarrow> w x (fs s) | Killed \<Rightarrow> Killed) \<and>
      fs (snd (recover_with m h e s)) = fs s"
    using givesD [OF assms(2) e, of _ s'] by (cases "v (fs s)") (auto simp: recover_with_def)
qed

lemma gives_if [gives_rules]:
  assumes "gives m v" "gives n w"
  shows "gives (if b then m else n) (\<lambda>t. if b then v t else w t)"
  using assms by simp

lemma gives_option [gives_rules]:
  assumes "gives m v" "\<And>y. gives (n y) (w y)"
  shows "gives (case x of None \<Rightarrow> m | Some y \<Rightarrow> n y) (\<lambda>t. case x of None \<Rightarrow> v t | Some y \<Rightarrow> w y t)"
  using assms by (cases x) simp_all

text \<open>The contents of a file.\<close>

definition contents :: "path \<Rightarrow> node \<Rightarrow> string res" where
  "contents p t =
     (case lookup t p of
        None \<Rightarrow> Err (Io (missing_kind t p))
      | Some (Reg c _) \<Rightarrow> Ok c
      | Some _ \<Rightarrow> Err (Io OtherIo))"

lemma gives_read_file [gives_rules]: "gives (read_file p) (contents p)"
  by (auto simp: gives_def contents_def read_file_calm split: option.splits node.splits)

lemma gives_read_to_string [gives_rules]:
  "gives (read_to_string p)
     (\<lambda>t. case contents p t of Ok c \<Rightarrow> if is_utf8 c then Ok c else Err (Io OtherIo) | Err x \<Rightarrow> Err x | Killed \<Rightarrow> Killed)"
  unfolding read_to_string_def
  by (rule gives_eq, (rule gives_rules)+, simp)

lemma gives_test_path [gives_rules]: "gives (test_path f p) (\<lambda>t. Ok (f t p))"
  by (simp add: gives_def test_path_calm)

lemma gives_open_file [gives_rules]:
  "gives (open_file p)
     (\<lambda>t. case lookup t p of None \<Rightarrow> Err (Io (missing_kind t p)) | Some _ \<Rightarrow> Ok ())"
  by (simp add: gives_def open_file_calm split: option.splits)

end
