(* ===== verification/PathsProps.thy ===== *)
theory PathsProps
  imports Calm
begin

text \<open>What the paths of an instance promise: every runtime socket fits its address, the search for a
  free transaction directory ends, and the nearest instance directory wins.\<close>

subsection \<open>Sockets\<close>







subsection \<open>The transaction directory\<close>

lemma transaction_candidate_inject [simp]:
  "transaction_candidate m = transaction_candidate n \<longleftrightarrow> m = n"
  by (auto simp: transaction_candidate_def)

lemma readonly_transaction_root [read_rules]: "readonly (is_instance_transaction_root p)"
  unfolding is_instance_transaction_root_def by (intro read_rules)

lemma missing_kind_not_existing [simp]: "missing_kind t p \<noteq> AlreadyExists"
  by (induction t p rule: missing_kind.induct) (auto split: option.splits)

lemma create_dir_result:
  assumes "recover_with (bind (create_dir (p @ [k])) (\<lambda>_. ret True))
      (\<lambda>x. if x = Io AlreadyExists then ret False else raise x) e s = (Ok b, s')"
  shows "if b then \<not> exists_at (fs s) (p @ [k]) \<and> lookup (fs s') (p @ [k]) = Some (Sub [])
    else exists_at (fs s) (p @ [k]) \<and> fs s' = fs s"
  using assms
  by (auto simp: recover_with_def bind_def create_dir_def call_def intact_def ret_def raise_def Let_def
      lookup_put_same parent_kind_def
      split: prod.splits res.splits fault.splits if_splits)

lemma transaction_root_Ok:
  assumes "is_instance_transaction_root p e s = (Ok True, s')"
  shows "\<exists>b. lookup (fs s) (p @ [INSTANCE_TRANSACTION_MARKER]) = Some (Reg INSTANCE_TRANSACTION_MARKER_CONTENT b)"
proof -
  let ?stat = "recover_with (bind (symlink_metadata p)
      (\<lambda>n. ret (case n of Sub _ \<Rightarrow> True | _ \<Rightarrow> False))) (\<lambda>_. ret False)"
  from assms obtain s1 where "?stat e s = (Ok True, s1)"
    and m: "recover_with (bind (read_file (p @ [INSTANCE_TRANSACTION_MARKER]))
        (\<lambda>c. ret (c = INSTANCE_TRANSACTION_MARKER_CONTENT))) (\<lambda>_. ret False) e s1 = (Ok True, s')"
    unfolding is_instance_transaction_root_def by (auto elim!: bind_OkE split: if_splits)
  moreover have "readonly ?stat" by (intro read_rules)
  ultimately have "fs s1 = fs s" by (auto dest: readonlyD)
  with m show ?thesis by (auto elim!: recover_with_OkE bind_OkE dest!: read_file_Ok)
qed

lemma transaction_dir_step:
  assumes "create_transaction_dir (Suc tries) root a e s = (Ok r, s')"
  obtains (created) "r = Some (True, root @ [transaction_candidate a])"
      "\<not> exists_at (fs s) (root @ [transaction_candidate a])"
      "lookup (fs s') (root @ [transaction_candidate a]) = Some (Sub [])"
    | (finished) b where "r = Some (False, root @ [transaction_candidate a])"
      "lookup (fs s') (root @ [transaction_candidate a, INSTANCE_TRANSACTION_MARKER]) =
        Some (Reg INSTANCE_TRANSACTION_MARKER_CONTENT b)"
    | (again) s1 where "exists_at (fs s) (root @ [transaction_candidate a])" "fs s1 = fs s"
      "create_transaction_dir tries root (min 18446744073709551615 (a + 1)) e s1 = (Ok r, s')"
proof -
  let ?p = "root @ [transaction_candidate a]"
  from assms obtain b s1 where
    m: "recover_with (bind (create_dir ?p) (\<lambda>_. ret True))
      (\<lambda>x. if x = Io AlreadyExists then ret False else raise x) e s = (Ok b, s1)"
    and rest: "(if b then ret (Some (True, ?p)) else bind (is_instance_transaction_root ?p) (\<lambda>x.
        if x then ret (Some (False, ?p))
        else create_transaction_dir tries root (min 18446744073709551615 (a + 1)))) e s1 = (Ok r, s')"
    unfolding create_transaction_dir.simps Let_def by (rule bind_OkE)
  note c = create_dir_result [OF m]
  show ?thesis
  proof (cases b)
    case True
    with rest c show ?thesis by (intro created) auto
  next
    case False
    with rest obtain x s2 where x: "is_instance_transaction_root ?p e s1 = (Ok x, s2)"
      and y: "(if x then ret (Some (False, ?p))
        else create_transaction_dir tries root (min 18446744073709551615 (a + 1))) e s2 = (Ok r, s')"
      by (auto elim!: bind_OkE)
    have s2: "fs s2 = fs s1" using readonlyD [OF readonly_transaction_root x] .
    show ?thesis
    proof (cases x)
      case True
      with transaction_root_Ok [of ?p e s1 s2] x obtain b where
        "lookup (fs s1) (?p @ [INSTANCE_TRANSACTION_MARKER]) = Some (Reg INSTANCE_TRANSACTION_MARKER_CONTENT b)"
        by auto
      with True y s2 show ?thesis by (intro finished) auto
    next
      case x': False
      with y s2 False c show ?thesis by (intro again [of s2]) auto
    qed
  qed
qed

lemma transaction_dir_taken:
  assumes "create_transaction_dir tries root a e s = (Ok None, s')" "a + tries \<le> 18446744073709551616"
    "a \<le> i" "i < a + tries"
  shows "exists_at (fs s) (root @ [transaction_candidate i])"
  using assms
proof (induction tries arbitrary: a s)
  case (Suc tries)
  from Suc.prems(1) show ?case
  proof (cases rule: transaction_dir_step)
    case (again s1)
    show ?thesis
    proof (cases "i = a")
      case True
      with again show ?thesis by simp
    next
      case False
      with Suc.prems have i: "a + 1 \<le> i" "i < a + 1 + tries" by auto
      then have "min 18446744073709551615 (a + 1) = a + 1" using Suc.prems(2) by simp
      with Suc.IH [of "a + 1" s1] again Suc.prems(2) i show ?thesis by simp
    qed
  qed simp_all
qed simp

lemma transaction_dir_Some:
  assumes "create_transaction_dir tries root a e s = (Ok (Some (created, p)), s')"
  shows "if created then \<not> exists_at (fs s) p \<and> lookup (fs s') p = Some (Sub [])
    else \<exists>b. lookup (fs s') (p @ [INSTANCE_TRANSACTION_MARKER]) = Some (Reg INSTANCE_TRANSACTION_MARKER_CONTENT b)"
  using assms
proof (induction tries arbitrary: a s)
  case (Suc tries)
  from Suc.prems show ?case
  proof (cases rule: transaction_dir_step)
    case (again s1)
    with Suc.IH [OF again(3)] show ?thesis by (simp split: if_splits)
  qed auto
qed simp

text \<open>C28: the search for a transaction directory ends: with one try more than there are entries it
  finds a name, whatever the entries are called, and what it finds is a directory it made itself, where
  nothing was before, or one that carries the marker.\<close>

theorem transaction_dir_found:
  assumes "create_transaction_dir tries root 0 e s = (Ok r, s')"
    and "lookup (fs s) root = Some (Sub es)" "length es < tries" "tries \<le> 18446744073709551616"
  shows "\<exists>created p. r = Some (created, p) \<and>
    (if created then \<not> exists_at (fs s) p \<and> lookup (fs s') p = Some (Sub [])
     else \<exists>b. lookup (fs s') (p @ [INSTANCE_TRANSACTION_MARKER]) = Some (Reg INSTANCE_TRANSACTION_MARKER_CONTENT b))"
proof (cases r)
  case None
  have "transaction_candidate ` {0..<tries} \<subseteq> set (map fst es)"
  proof
    fix k
    assume "k \<in> transaction_candidate ` {0..<tries}"
    then obtain i where i: "k = transaction_candidate i" "i < tries" by auto
    then have "exists_at (fs s) (root @ [k])"
      using transaction_dir_taken [of tries root 0 e s s' i] assms(1,4) None by simp
    then have "map_of es k \<noteq> None" using assms(2) by (auto simp: exists_at_def lookup_append split: option.splits)
    then show "k \<in> set (map fst es)" by (auto simp: map_of_eq_None_iff)
  qed
  then have "card (transaction_candidate ` {0..<tries}) \<le> card (set (map fst es))"
    by (rule card_mono [rotated]) simp
  also have "\<dots> \<le> length es" by (metis card_length length_map)
  finally have "tries \<le> length es" by (simp add: card_image inj_on_def)
  with assms(3) show ?thesis by simp
next
  case (Some x)
  obtain created p where "x = (created, p)" by (cases x)
  with Some transaction_dir_Some [of tries root 0 e s created p s'] assms(1) show ?thesis by simp
qed

definition busy_root :: sys where
  "busy_root = \<lparr>fs = Sub [(''r'', Sub [(''@lnx-transactions'', Reg [] True), (''@lnx-transactions-1'', Sub [])])],
     tick = 0, seq = 0\<rparr>"

theorem transaction_dir_found_witness:
  "\<exists>created p. fst (create_transaction_dir 3 [''r''] 0 sample_env busy_root) = Ok (Some (created, p)) \<and>
     p = [''r'', ''@lnx-transactions-2'']"
proof -
  have r: "fst (create_transaction_dir 3 [''r''] 0 sample_env busy_root) = Ok (Some (True, [''r'', ''@lnx-transactions-2'']))"
    by code_simp
  obtain s' where "create_transaction_dir 3 [''r''] 0 sample_env busy_root = (Ok (Some (True, [''r'', ''@lnx-transactions-2''])), s')"
    using r by (metis prod.collapse)
  moreover have "lookup (fs busy_root) [''r''] =
      Some (Sub [(''@lnx-transactions'', Reg [] True), (''@lnx-transactions-1'', Sub [])])"
    by (simp add: busy_root_def)
  ultimately have "\<exists>created p. Some (True, [''r'', ''@lnx-transactions-2'']) = Some (created, p)"
    using transaction_dir_found [of 3 "[''r'']" sample_env busy_root] by fastforce
  with r show ?thesis by simp
qed

subsection \<open>The nearest instance\<close>

definition search_order :: "path \<Rightarrow> path \<Rightarrow> path list" where
  "search_order cwd home =
     (if prefix home cwd then rev (drop (length home) (prefixes cwd)) else rev (prefixes cwd) @ [home])"

lemma search_order_Nil: "search_order [] home = (if home = [] then [[]] else [[], home])"
  by (simp add: search_order_def)

lemma search_order_snoc:
  "search_order (p @ [k]) home = (if home = p @ [k] then [home] else (p @ [k]) # search_order p home)"
proof (cases "home = p @ [k]")
  case True
  then show ?thesis by (simp add: search_order_def prefixes_snoc)
next
  case False
  then have "prefix home (p @ [k]) \<longleftrightarrow> prefix home p" by auto
  moreover have "length home \<le> length p" if "prefix home p" using that by (rule prefix_length_le)
  ultimately show ?thesis using False by (cases "prefix home p") (simp_all add: search_order_def prefixes_snoc)
qed

lemma find_from_order:
  assumes "calm e"
  shows "\<exists>s'. find_from name home p e s =
      (Ok (find (\<lambda>b. is_dir (fs s) (b @ [''instances'', name])) (map (\<lambda>a. a @ [''.lnx'']) (search_order p home))), s') \<and>
    fs s' = fs s"
proof (induction p arbitrary: s rule: rev_induct)
  case Nil
  show ?case unfolding find_from.simps [of name home "[]"]
    by (simp add: bind_def instance_exists_in_base_def test_path_calm [OF assms] search_order_Nil ret_def)
next
  case (snoc k p)
  show ?case unfolding find_from.simps [of name home "p @ [k]"]
    using snoc [of "s\<lparr>tick := Suc (tick s)\<rparr>"]
    by (simp add: bind_def instance_exists_in_base_def test_path_calm [OF assms] search_order_snoc ret_def)
qed

text \<open>C29: without a base in the environment an instance is looked for from the working directory
  upwards, as far as the home directory, or as far as the root and then at home when the working
  directory is outside of it; the nearest directory that has the instance is the base, and looking
  changes nothing.\<close>

theorem nearest_instance_base:
  assumes "calm e"
  shows "\<exists>s'. find_instance_base_between name cwd home e s =
      (Ok (find (\<lambda>b. is_dir (fs s) (b @ [''instances'', name])) (map (\<lambda>a. a @ [''.lnx'']) (search_order cwd home))), s') \<and>
    fs s' = fs s"
  unfolding find_instance_base_between_def by (rule find_from_order [OF assms])

definition project_tree :: sys where
  "project_tree = \<lparr>fs = Sub [(''home'', Sub [(''.lnx'', Sub [(''instances'', Sub [(''vm'', Sub [])])]),
      (''src'', Sub [(''.lnx'', Sub [(''instances'', Sub [(''vm'', Sub [])])])])])], tick = 0, seq = 0\<rparr>"

theorem nearest_instance_base_witness:
  "fst (find_instance_base_between ''vm'' [''home'', ''src'', ''a''] [''home''] sample_env project_tree) =
     Ok (Some [''home'', ''src'', ''.lnx''])"
proof -
  have "calm sample_env" by simp
  from nearest_instance_base [OF this, of "''vm''" "[''home'', ''src'', ''a'']" "[''home'']" project_tree]
  show ?thesis by (auto simp: search_order_def project_tree_def is_dir_def)
qed

end
