(* ===== verification/Ingress.thy ===== *)
theory Ingress
  imports Text Fs
begin

text \<open>
  The local ingress (\<open>src/src/ingress.rs\<close>): routing an HTTP \<open>Host\<close> header or a DNS question of
  the form \<open>p<port>-<instance>.<domain>\<close> to a port of an instance, forking an instance on request,
  rewriting a proxied request, and the administration socket. Sockets, TLS and child processes are
  outside; what the handlers ask of them is the record \<open>outside\<close>.
\<close>

record Config =
  domain :: string
  dns_addr :: string
  http_addr :: string
  https_addr :: string
  resolver_dir :: path
  state_dir :: path

record Route =
  route_instance :: string
  route_port :: nat

definition display :: "path \<Rightarrow> string" where
  "display p = (if p = [] then ''/'' else concat (map (\<lambda>c. CHR ''/'' # c) p))"

text \<open>An absolute path out of its text: repeated slashes and single dots do not matter.\<close>

definition path_of_string :: "string \<Rightarrow> path option" where
  "path_of_string s =
     (if starts_with s ''/'' then Some (filter (\<lambda>c. c \<noteq> [] \<and> c \<noteq> ''.'') (split_on (CHR ''/'') s))
      else None)"

subsection \<open>Configuration\<close>

definition socket_path :: "Config \<Rightarrow> path" where
  "socket_path c = state_dir c @ [''ingress.sock'']"

definition resolver_path :: "Config \<Rightarrow> path" where
  "resolver_path c = resolver_dir c @ [domain c]"

definition resolver_contents :: "Config \<Rightarrow> err + string" where
  "resolver_contents c =
     (case rsplit_once (CHR '':'') (dns_addr c) of
        None \<Rightarrow> Inl (Bail ''parse ingress dns address'')
      | Some (host, port) \<Rightarrow>
          Inr (''nameserver '' @ host @ [CHR 0x0A] @ ''port '' @ port @ [CHR 0x0A]))"

definition u16_max :: nat where
  "u16_max = 65535"

definition is_privileged_addr :: "string \<Rightarrow> bool" where
  "is_privileged_addr addr =
     (case rsplit_once (CHR '':'') addr of
        None \<Rightarrow> True
      | Some (_, port) \<Rightarrow> (case parse_uint u16_max port of None \<Rightarrow> True | Some n \<Rightarrow> n < 1024))"

definition requires_privileged_service :: "Config \<Rightarrow> bool" where
  "requires_privileged_service c \<longleftrightarrow>
     is_privileged_addr (http_addr c) \<or> is_privileged_addr (https_addr c) \<or>
     is_privileged_addr (dns_addr c) \<or> resolver_dir c = [''etc'', ''resolver'']"

definition needs_privileges :: "nat \<Rightarrow> Config \<Rightarrow> bool" where
  "needs_privileges euid c = (if euid = 0 then False else requires_privileged_service c)"

definition SYSTEM_HELPER_PATH :: path where
  "SYSTEM_HELPER_PATH = [''usr'', ''local'', ''libexec'', ''lnx'', ''lnx-ingress'']"

definition service_executable :: "path \<Rightarrow> Config \<Rightarrow> path" where
  "service_executable current_exe c =
     (if requires_privileged_service c then SYSTEM_HELPER_PATH else current_exe)"

definition launchd_path :: "path option \<Rightarrow> Config \<Rightarrow> path" where
  "launchd_path home c =
     (if requires_privileged_service c
      then [''Library'', ''LaunchDaemons'', ''com.semistrict.lnx.ingress.plist'']
      else (case home of None \<Rightarrow> [''.''] | Some h \<Rightarrow> h) @
           [''Library'', ''LaunchAgents'', ''com.semistrict.lnx.ingress.plist''])"

definition launchd_domain :: "nat \<Rightarrow> Config \<Rightarrow> string" where
  "launchd_domain uid c =
     (if requires_privileged_service c then ''system'' else ''gui/'' @ show_nat uid)"

subsection \<open>Routing\<close>

definition strip_optional_port :: "string \<Rightarrow> string" where
  "strip_optional_port host =
     (case rsplit_once (CHR '':'') host of
        Some (h, port) \<Rightarrow> if parse_uint u16_max port \<noteq> None then h else host
      | None \<Rightarrow> host)"

definition normal_host :: "string \<Rightarrow> string" where
  "normal_host host = to_ascii_lowercase (trim_end_matches ''.'' (strip_optional_port host))"

definition parse_host :: "string \<Rightarrow> string \<Rightarrow> err + Route" where
  "parse_host host dmn =
     (let host = normal_host host;
          suffix = CHR ''.'' # to_ascii_lowercase dmn in
      if \<not> ends_with host suffix then Inl (Bail ''host is not under the domain'')
      else
        let name = trim_end_matches suffix host in
        if CHR ''.'' \<in> set name then Inl (Bail ''host must look like p<port>-<instance>'')
        else
          (case split_once (CHR ''-'') name of
             None \<Rightarrow> Inl (Bail ''host must look like p<port>-<instance>'')
           | Some (port_label, inst) \<Rightarrow>
               (case strip_prefix port_label ''p'' of
                  None \<Rightarrow> Inl (Bail ''host must start with p<port>-'')
                | Some port \<Rightarrow>
                    (case parse_uint u16_max port of
                       None \<Rightarrow> Inl (Bail ''invalid ingress port'')
                     | Some n \<Rightarrow>
                         if n = 0 \<or> inst = [] then Inl (Bail ''invalid ingress port'')
                         else Inr \<lparr>route_instance = inst, route_port = n\<rparr>))))"

definition instance_from_host :: "string \<Rightarrow> string \<Rightarrow> string option" where
  "instance_from_host host dmn =
     (case strip_suffix (normal_host host) (CHR ''.'' # to_ascii_lowercase dmn) of
        None \<Rightarrow> None
      | Some name \<Rightarrow> if name \<noteq> [] \<and> CHR ''.'' \<notin> set name then Some name else None)"

subsection \<open>DNS\<close>

datatype Ipv4Addr = Ipv4Addr char char char char

fun octets :: "Ipv4Addr \<Rightarrow> string" where
  "octets (Ipv4Addr a b c d) = [a, b, c, d]"

definition LOCALHOST :: Ipv4Addr where
  "LOCALHOST = Ipv4Addr (CHR 0x7F) (CHR 0x00) (CHR 0x00) (CHR 0x01)"

text \<open>The labels of the question, and where they end; \<open>None\<close> when the packet ends first.\<close>

function dns_labels :: "string \<Rightarrow> nat \<Rightarrow> (string list \<times> nat) option" where
  "dns_labels packet pos =
     (if \<not> pos < length packet then None
      else
        let len = byte (packet ! pos); pos = pos + 1 in
        if len = 0 then Some ([], pos)
        else if \<not> pos + len \<le> length packet then None
        else map_option (\<lambda>(ls, end_pos). (from_utf8_lossy (take len (drop pos packet)) # ls, end_pos))
               (dns_labels packet (pos + len)))"
  by pat_completeness auto
termination
  by (relation "measure (\<lambda>(packet, pos). length packet - pos)") auto

declare dns_labels.simps [simp del]

definition dns_answer :: "string \<Rightarrow> string \<Rightarrow> (string \<Rightarrow> Ipv4Addr option) \<Rightarrow> Ipv4Addr option" where
  "dns_answer name dmn instance_ips =
     (case parse_host name dmn of
        Inr _ \<Rightarrow> Some LOCALHOST
      | Inl _ \<Rightarrow>
          (case instance_from_host name dmn of None \<Rightarrow> None | Some inst \<Rightarrow> instance_ips inst))"

definition dns_response :: "string \<Rightarrow> string \<Rightarrow> (string \<Rightarrow> Ipv4Addr option) \<Rightarrow> string option" where
  "dns_response packet dmn instance_ips =
     (if length packet < 12 then None
      else
        (case dns_labels packet 12 of
           None \<Rightarrow> None
         | Some (labels, pos) \<Rightarrow>
             let q_end = pos + 4 in
             if \<not> q_end \<le> length packet then None
             else
               let question = drop 12 (take q_end packet);
                   qtype = from_be [packet ! pos, packet ! (pos + 1)];
                   qclass = from_be [packet ! (pos + 2), packet ! (pos + 3)];
                   answer = (if qtype = 1 \<and> qclass = 1
                             then dns_answer (join ''.'' labels) dmn instance_ips else None) in
               Some (take 2 packet @
                 (if answer \<noteq> None then [CHR 0x84, CHR 0x00] else [CHR 0x84, CHR 0x03]) @
                 be16 1 @ be16 (if answer \<noteq> None then 1 else 0) @ be16 0 @ be16 0 @ question @
                 (case answer of
                    None \<Rightarrow> []
                  | Some a \<Rightarrow> [CHR 0xC0, CHR 0x0C] @ be16 1 @ be16 1 @ be32 1 @ be16 4 @ octets a))))"

subsection \<open>Request targets\<close>

definition CRLF :: string where
  "CRLF = [CHR 0x0D, CHR 0x0A]"

definition trim_cr :: "string \<Rightarrow> string" where
  "trim_cr l = trim_end_matches [CHR 0x0D] l"

definition request_target :: "string \<Rightarrow> string option" where
  "request_target request =
     (let line = hd (split_on (CHR 0x0A) request) in
      if \<not> is_utf8 line then None
      else
        (case split_whitespace (trim_cr line) of
           _ # target # _ \<Rightarrow> Some target
         | _ \<Rightarrow> None))"

function percent_decode_bytes :: "string \<Rightarrow> string" where
  "percent_decode_bytes [] = []"
| "percent_decode_bytes (c # s) =
     (case (if c = CHR ''%'' \<and> 2 \<le> length s \<and> is_utf8 (take 2 s) then parse_hex 255 (take 2 s) else None) of
        Some b \<Rightarrow> char_of b # percent_decode_bytes (drop 2 s)
      | None \<Rightarrow> c # percent_decode_bytes s)"
  by pat_completeness auto
termination
  by (relation "measure length") auto

definition percent_decode :: "string \<Rightarrow> string" where
  "percent_decode value = from_utf8_lossy (percent_decode_bytes value)"

definition pair_key :: "string \<Rightarrow> string" where
  "pair_key pair = (case split_once (CHR ''='') pair of Some (k, _) \<Rightarrow> k | None \<Rightarrow> pair)"

definition pair_value :: "string \<Rightarrow> string" where
  "pair_value pair = (case split_once (CHR ''='') pair of Some (_, v) \<Rightarrow> v | None \<Rightarrow> [])"

definition fork_source_from_request_target :: "string \<Rightarrow> string option" where
  "fork_source_from_request_target target =
     (case split_once (CHR ''?'') target of
        None \<Rightarrow> None
      | Some (_, query) \<Rightarrow>
          map_option (\<lambda>pair. percent_decode (pair_value pair))
            (find (\<lambda>pair. pair_key pair = ''lnx:fork'' \<and> pair_value pair \<noteq> []) (split_on (CHR ''&'') query)))"

definition clean_fork_request_target :: "string \<Rightarrow> string" where
  "clean_fork_request_target target =
     (case split_once (CHR ''?'') target of
        None \<Rightarrow> target
      | Some (path, query) \<Rightarrow>
          let kept = filter (\<lambda>pair. pair \<noteq> [])
                       (filter (\<lambda>pair. pair_key pair \<noteq> ''lnx:fork'') (split_on (CHR ''&'') query)) in
          if kept = [] then path else path @ ''?'' @ join ''&'' kept)"

subsection \<open>Rewriting the Host header\<close>

function rewrite_from :: "string \<Rightarrow> string \<Rightarrow> nat \<Rightarrow> nat \<Rightarrow> string" where
  "rewrite_from request host headers_end line_start =
     (if \<not> line_start < headers_end then request
      else
        (case find_sub CRLF (drop line_start (take headers_end request)) of
           None \<Rightarrow> request
         | Some line_len \<Rightarrow>
             let line_end = line_start + line_len in
             if line_start + 5 \<le> line_end \<and>
                eq_ignore_ascii_case (take 5 (drop line_start request)) ''Host:''
             then take line_start request @ ''Host: '' @ host @ drop line_end request
             else rewrite_from request host headers_end (line_end + 2)))"
  by pat_completeness auto
termination
  by (relation "measure (\<lambda>(request, host, headers_end, line_start). headers_end - line_start)") auto

declare rewrite_from.simps [simp del]

definition rewrite_http_host_header :: "string \<Rightarrow> string \<Rightarrow> string" where
  "rewrite_http_host_header request host =
     (case find_sub (CRLF @ CRLF) request of
        None \<Rightarrow> request
      | Some headers_end \<Rightarrow> rewrite_from request host headers_end 0)"

definition CHROME_DEVTOOLS_PORT :: nat where
  "CHROME_DEVTOOLS_PORT = 9222"

definition rewrite_proxy_request_host :: "string \<Rightarrow> nat \<Rightarrow> string" where
  "rewrite_proxy_request_host request guest_port =
     (if guest_port \<noteq> CHROME_DEVTOOLS_PORT then request
      else rewrite_http_host_header request (''127.0.0.1:'' @ show_nat guest_port))"

subsection \<open>Responses\<close>

definition http_response :: "string \<Rightarrow> string \<Rightarrow> string \<Rightarrow> string" where
  "http_response status content_type body =
     ''HTTP/1.1 '' @ status @ CRLF @ ''Content-Type: '' @ content_type @ CRLF @
     ''Content-Length: '' @ show_nat (length body) @ CRLF @ ''Connection: close'' @ CRLF @ CRLF @ body"

definition redirect_response :: "string \<Rightarrow> string" where
  "redirect_response location =
     ''HTTP/1.1 302 Found'' @ CRLF @ ''Location: '' @ location @ CRLF @
     ''Content-Length: 0'' @ CRLF @ ''Connection: close'' @ CRLF @ CRLF"

subsection \<open>HTTP requests\<close>

text \<open>What a handler asks of the rest of the system: whether the instance directories can be
  resolved at all, whether an instance has state, forking one instance from another, and bringing
  up the broker of an instance.\<close>

record outside =
  home_known :: bool
  instance_has_state :: "string \<Rightarrow> bool"
  fork_instance :: "string \<Rightarrow> string \<Rightarrow> err + unit"
  ensure_instance_broker :: "string \<Rightarrow> err + unit"

datatype http_outcome =
    Closed
  | Failed err
  | Replied string
  | Proxied Route string

definition resolve_layout :: "outside \<Rightarrow> err + unit" where
  "resolve_layout w =
     (if home_known w then Inr () else Inl (Bail ''could not resolve home directory''))"

definition maybe_fork_and_redirect :: "outside \<Rightarrow> string \<Rightarrow> string \<Rightarrow> Config \<Rightarrow> err + string option" where
  "maybe_fork_and_redirect w request host c =
     (case request_target request of
        None \<Rightarrow> Inr None
      | Some target \<Rightarrow>
          (case fork_source_from_request_target target of
             None \<Rightarrow> Inr None
           | Some source \<Rightarrow>
               (case parse_host host (domain c) of
                  Inl _ \<Rightarrow> Inr None
                | Inr route \<Rightarrow>
                    (case resolve_layout w of
                       Inl e \<Rightarrow> Inl e
                     | Inr () \<Rightarrow>
                         (case (if instance_has_state w (route_instance route) then Inr ()
                                else fork_instance w source (route_instance route)) of
                            Inl e \<Rightarrow> Inl e
                          | Inr () \<Rightarrow> Inr (Some (redirect_response (clean_fork_request_target target))))))))"

definition route_http_host :: "outside \<Rightarrow> string \<Rightarrow> Config \<Rightarrow> err + string + Route" where
  "route_http_host w host c =
     (case parse_host host (domain c) of
        Inl _ \<Rightarrow> Inr (Inl (http_response ''404 Not Found'' ''text/plain'' (''not found'' @ [CHR 0x0A])))
      | Inr route \<Rightarrow>
          (case resolve_layout w of
             Inl e \<Rightarrow> Inl e
           | Inr () \<Rightarrow>
               (case ensure_instance_broker w (route_instance route) of
                  Inl e \<Rightarrow> Inl e
                | Inr () \<Rightarrow> Inr (Inr route))))"

text \<open>Reading until the blank line, one mebibyte or the end of the stream.\<close>

fun read_request :: "string \<Rightarrow> (err + string) list \<Rightarrow> err + string option" where
  "read_request request [] =
     (if find_sub (CRLF @ CRLF) request = None \<and> length request < 1024 * 1024
      then Inr None else Inr (Some request))"
| "read_request request (r # rs) =
     (if find_sub (CRLF @ CRLF) request = None \<and> length request < 1024 * 1024
      then
        (case r of
           Inl e \<Rightarrow> Inl e
         | Inr chunk \<Rightarrow> if chunk = [] then Inr None else read_request (request @ chunk) rs)
      else Inr (Some request))"

definition host_line :: "string \<Rightarrow> string option" where
  "host_line line = map_option trim (strip_prefix (trim_cr (from_utf8_lossy line)) ''Host:'')"

fun find_host :: "string list \<Rightarrow> string option" where
  "find_host [] = None"
| "find_host (l # ls) = (case host_line l of Some h \<Rightarrow> Some h | None \<Rightarrow> find_host ls)"

definition serve_request :: "outside \<Rightarrow> string \<Rightarrow> Config \<Rightarrow> http_outcome" where
  "serve_request w request c =
     (case find_host (split_on (CHR 0x0A) request) of
        None \<Rightarrow> Replied (http_response ''400 Bad Request'' ''text/plain'' (''missing Host'' @ [CHR 0x0A]))
      | Some host \<Rightarrow>
          (case maybe_fork_and_redirect w request host c of
             Inl e \<Rightarrow> Failed e
           | Inr (Some response) \<Rightarrow> Replied response
           | Inr None \<Rightarrow>
               (case route_http_host w host c of
                  Inl e \<Rightarrow> Failed e
                | Inr (Inl response) \<Rightarrow> Replied response
                | Inr (Inr route) \<Rightarrow>
                    Proxied route (rewrite_proxy_request_host request (route_port route)))))"

definition handle_http :: "outside \<Rightarrow> (err + string) list \<Rightarrow> Config \<Rightarrow> http_outcome" where
  "handle_http w reads c =
     (case read_request [] reads of
        Inl e \<Rightarrow> Failed e
      | Inr None \<Rightarrow> Closed
      | Inr (Some request) \<Rightarrow> serve_request w request c)"

subsection \<open>The administration socket\<close>

definition valid_instance_name :: "string \<Rightarrow> bool" where
  "valid_instance_name name \<longleftrightarrow>
     name \<noteq> [] \<and> length name \<le> 128 \<and>
     list_all (\<lambda>c. is_ascii_alphanumeric c \<or> c \<in> {CHR ''-'', CHR ''_'', CHR ''.''}) name"

definition attach_instance_from_request :: "string \<Rightarrow> string option" where
  "attach_instance_from_request request =
     (case strip_prefix request ''POST '' of
        None \<Rightarrow> None
      | Some rest \<Rightarrow>
          (case split_whitespace rest of
             [] \<Rightarrow> None
           | t # _ \<Rightarrow>
               (case strip_prefix t ''/network/attach?instance='' of
                  None \<Rightarrow> None
                | Some target \<Rightarrow>
                    if valid_instance_name target then Some (to_ascii_lowercase target) else None)))"

fun json_escape :: "string \<Rightarrow> string" where
  "json_escape [] = []"
| "json_escape (c # s) =
     (if c = CHR 0x5C then [CHR 0x5C, CHR 0x5C] @ json_escape s
      else if c = CHR 0x22 then [CHR 0x5C, CHR 0x22] @ json_escape s
      else if c = CHR 0x0A then CHR 0x5C # ''n'' @ json_escape s
      else if c = CHR 0x0D then CHR 0x5C # ''r'' @ json_escape s
      else if c = CHR 0x09 then CHR 0x5C # ''t'' @ json_escape s
      else if byte c < 32 \<or> byte c = 127 then CHR 0x5C # ''u00'' @ hex2 (byte c) @ json_escape s
      else
        (case s of
           d # s' \<Rightarrow>
             if byte c = 0xC2 \<and> 0x80 \<le> byte d \<and> byte d \<le> 0x9F
             then CHR 0x5C # ''u00'' @ hex2 (byte d) @ json_escape s'
             else c # json_escape s
         | [] \<Rightarrow> [c]))"

definition xml_escape_char :: "char \<Rightarrow> string" where
  "xml_escape_char c =
     (if c = CHR ''&'' then ''&amp;'' else if c = CHR ''<'' then ''&lt;''
      else if c = CHR ''>'' then ''&gt;'' else if c = CHR 0x22 then ''&quot;''
      else if c = CHR 0x27 then ''&apos;'' else [c])"

text \<open>The source replaces one character after the other in the whole text.\<close>

definition replace_char :: "char \<Rightarrow> string \<Rightarrow> string \<Rightarrow> string" where
  "replace_char c r s = concat (map (\<lambda>x. if x = c then r else [x]) s)"

definition xml_escape :: "string \<Rightarrow> string" where
  "xml_escape value =
     replace_char (CHR 0x27) ''&apos;'' (replace_char (CHR 0x22) ''&quot;''
       (replace_char (CHR ''>'') ''&gt;'' (replace_char (CHR ''<'') ''&lt;''
         (replace_char (CHR ''&'') ''&amp;'' value))))"

definition q :: string where
  "q = [CHR 0x22]"

definition status_body :: "Config \<Rightarrow> nat \<Rightarrow> nat \<Rightarrow> string \<Rightarrow> string" where
  "status_body c my_pid protocol binary =
     ''{'' @ q @ ''enabled'' @ q @ '':true,'' @
     q @ ''domain'' @ q @ '':'' @ q @ json_escape (domain c) @ q @ '','' @
     q @ ''dns_addr'' @ q @ '':'' @ q @ json_escape (dns_addr c) @ q @ '','' @
     q @ ''http_addr'' @ q @ '':'' @ q @ json_escape (http_addr c) @ q @ '','' @
     q @ ''https_addr'' @ q @ '':'' @ q @ json_escape (https_addr c) @ q @ '','' @
     q @ ''resolver_path'' @ q @ '':'' @ q @ json_escape (display (resolver_path c)) @ q @ '','' @
     q @ ''network'' @ q @ '':null,'' @
     q @ ''network_error'' @ q @ '':null,'' @
     q @ ''pid'' @ q @ '':'' @ show_nat my_pid @ '','' @
     q @ ''protocol_version'' @ q @ '':'' @ show_nat protocol @ '','' @
     q @ ''binary_path'' @ q @ '':'' @ q @ json_escape binary @ q @ ''}''"

text \<open>Who may attach and stop: root, the user the daemon runs as, and the configured user.\<close>

record admin_env =
  peer_uid :: "nat option"
  self_uid :: nat
  ingress_uid :: "nat option"
  own_pid :: nat
  own_binary :: string

definition peer_authorized :: "admin_env \<Rightarrow> bool" where
  "peer_authorized A =
     (case peer_uid A of
        None \<Rightarrow> False
      | Some uid \<Rightarrow> uid = 0 \<or> uid = self_uid A \<or> ingress_uid A = Some uid)"

definition forbidden :: string where
  "forbidden = http_response ''403 Forbidden'' ''text/plain'' (''forbidden'' @ [CHR 0x0A])"

text \<open>The bytes written back, and the new value of the stop flag.\<close>

definition handle_admin :: "admin_env \<Rightarrow> Config \<Rightarrow> nat \<Rightarrow> string \<Rightarrow> bool \<Rightarrow> string \<times> bool" where
  "handle_admin A c protocol received stop =
     (let request = from_utf8_lossy (take 512 received) in
      if starts_with request ''GET /status '' then
        (http_response ''200 OK'' ''application/json''
           (status_body c (own_pid A) protocol (own_binary A)), stop)
      else if attach_instance_from_request request \<noteq> None then
        if \<not> peer_authorized A then (forbidden, stop)
        else
          (http_response ''503 Service Unavailable'' ''text/plain''
             (''VM network attachments are not used; VM networking uses embedded gvproxy'' @ [CHR 0x0A]), stop)
      else if starts_with request ''POST /stop '' then
        if \<not> peer_authorized A then (forbidden, stop)
        else (http_response ''204 No Content'' ''text/plain'' [], True)
      else (http_response ''404 Not Found'' ''text/plain'' (''not found'' @ [CHR 0x0A]), stop))"

definition json_field :: "string \<Rightarrow> string \<Rightarrow> string option" where
  "json_field body field =
     map_option (\<lambda>rest. hd (split_on (CHR 0x22) rest)) (split_nth1 (q @ field @ q @ '':'' @ q) body)"

definition json_number_field :: "string \<Rightarrow> string \<Rightarrow> string option" where
  "json_number_field body field =
     (case split_nth1 (q @ field @ q @ '':'') body of
        None \<Rightarrow> None
      | Some rest \<Rightarrow>
          (let value = takeWhile is_ascii_digit rest in if value = [] then None else Some value))"

record Status =
  st_domain :: string
  st_dns_addr :: string
  st_http_addr :: string
  st_https_addr :: string
  st_resolver_path :: string
  st_network :: "string option"
  st_network_error :: "string option"
  st_protocol_version :: "nat option"
  st_binary_path :: "string option"

definition or_else :: "'a option \<Rightarrow> 'a \<Rightarrow> 'a" where
  "or_else x d = (case x of Some v \<Rightarrow> v | None \<Rightarrow> d)"

definition parse_status :: "Config \<Rightarrow> string \<Rightarrow> Status" where
  "parse_status c response =
     (let body = or_else (split_nth1 (CRLF @ CRLF) response) [] in
      \<lparr>st_domain = or_else (json_field body ''domain'') (domain c),
       st_dns_addr = or_else (json_field body ''dns_addr'') (dns_addr c),
       st_http_addr = or_else (json_field body ''http_addr'') (http_addr c),
       st_https_addr = or_else (json_field body ''https_addr'') (https_addr c),
       st_resolver_path = or_else (json_field body ''resolver_path'') (display (resolver_path c)),
       st_network = json_field body ''network'',
       st_network_error = json_field body ''network_error'',
       st_protocol_version =
         (case json_number_field body ''protocol_version'' of
            None \<Rightarrow> None
          | Some v \<Rightarrow> parse_uint u16_max v),
       st_binary_path = json_field body ''binary_path''\<rparr>)"

subsection \<open>The system helper\<close>

text \<open>Comparing two files in blocks of 64 KiB; a regular file yields a full block until its end.\<close>

definition BLOCK :: nat where
  "BLOCK = 64 * 1024"

function same_blocks :: "string \<Rightarrow> string \<Rightarrow> bool" where
  "same_blocks left right =
     (let l = take BLOCK left; r = take BLOCK right in
      if length l \<noteq> length r then False
      else if length l = 0 then True
      else if l \<noteq> r then False
      else same_blocks (drop BLOCK left) (drop BLOCK right))"
  by pat_completeness auto
termination
  by (relation "measure (length \<circ> snd)") (auto simp: BLOCK_def)

declare same_blocks.simps [simp del]

definition files_same_contents :: "string \<Rightarrow> string \<Rightarrow> bool" where
  "files_same_contents left right =
     (if length left \<noteq> length right then False else same_blocks left right)"

definition privileged_service_binary_error :: "Config \<Rightarrow> Status \<Rightarrow> path \<Rightarrow> string option" where
  "privileged_service_binary_error c status expected =
     (if \<not> requires_privileged_service c then None
      else
        (case st_binary_path status of
           Some binary \<Rightarrow>
             if path_of_string binary = Some expected then None
             else Some (''ingress is running from '' @ binary @ ''; expected the system helper at '' @ display expected)
         | None \<Rightarrow> Some (''ingress status did not report its binary; expected the system helper at '' @ display expected)))"

text \<open>The helper's and the running program's contents are given, \<open>None\<close> for a helper that does
  not exist.\<close>

definition privileged_service_helper_stale_error ::
  "Config \<Rightarrow> path \<Rightarrow> string \<Rightarrow> path \<Rightarrow> string option \<Rightarrow> string option" where
  "privileged_service_helper_stale_error c current current_bytes helper helper_bytes =
     (if \<not> requires_privileged_service c then None
      else if current = helper \<or> helper_bytes = None then None
      else if files_same_contents current_bytes (the helper_bytes) then None
      else Some (''ingress system helper is stale: '' @ display helper @ '' differs from '' @ display current))"

definition privileged_service_status ::
  "Config \<Rightarrow> Status \<Rightarrow> path \<Rightarrow> string \<Rightarrow> path \<Rightarrow> string option \<Rightarrow> string option" where
  "privileged_service_status c status current current_bytes helper helper_bytes =
     (if \<not> requires_privileged_service c then None
      else
        (case privileged_service_binary_error c status helper of
           Some e \<Rightarrow> Some (''wrong-helper ('' @ e @ '')'')
         | None \<Rightarrow>
             if privileged_service_helper_stale_error c current current_bytes helper helper_bytes \<noteq> None
             then Some ''stale; run `sudo lnx ingress enable` from a terminal''
             else Some ''current''))"

end
