(* ===== verification/IngressProps.thy ===== *)
theory IngressProps
  imports Ingress "HOL-Library.Code_Target_Numeral"
begin

text \<open>What the ingress guarantees: hosts route to the port and instance they name and nothing else
  does, DNS answers match the routing, redirects do not loop, the header rewriting changes one line,
  and only an authorised peer stops the daemon.\<close>

subsection \<open>Hosts\<close>

definition host_text :: "nat \<Rightarrow> string \<Rightarrow> string \<Rightarrow> string" where
  "host_text n inst dmn = ''p'' @ show_nat n @ ''-'' @ inst @ ''.'' @ dmn"

text \<open>Text without the bytes that separate parts of a host name.\<close>

definition plain_label :: "string \<Rightarrow> bool" where
  "plain_label s \<longleftrightarrow> CHR ''.'' \<notin> set s \<and> CHR '':'' \<notin> set s"

lemma dot_colon_case [simp]:
  "ascii_lower (CHR ''.'') = CHR ''.''" "ascii_lower (CHR ''-'') = CHR ''-''" "ascii_lower (CHR ''p'') = CHR ''p''"
  by (simp_all add: ascii_lower_def is_ascii_upper_def byte_def)

lemma lower_dot_iff [simp]: "ascii_lower c = CHR ''.'' \<longleftrightarrow> c = CHR ''.''"
  by (rule ascii_lower_eq_other) (simp_all add: is_ascii_lower_def is_ascii_upper_def byte_def)

lemma lower_in_set:
  assumes "\<not> is_ascii_lower d" "\<not> is_ascii_upper d"
  shows "d \<in> set (to_ascii_lowercase s) \<longleftrightarrow> d \<in> set s"
proof -
  have "d \<in> set (to_ascii_lowercase s) \<longleftrightarrow> (\<exists>c \<in> set s. ascii_lower c = d)"
    by (auto simp: to_ascii_lowercase_def)
  then show ?thesis by (simp add: ascii_lower_eq_other [OF assms])
qed

lemma lowercase_digits: "list_all is_ascii_digit s \<Longrightarrow> to_ascii_lowercase s = s"
  by (induction s) auto

lemma ends_with_dot: "ends_with s ''.'' \<longleftrightarrow> s \<noteq> [] \<and> last s = CHR ''.''"
  by (auto simp: ends_with_iff) (metis append_butlast_last_id)

lemma trim_dots:
  assumes "s = [] \<or> last s \<noteq> CHR ''.''"
  shows "trim_end_matches ''.'' (s @ replicate k (CHR ''.'')) = s"
proof (induction k)
  case 0
  from assms show ?case by (simp add: trim_end_matches_none ends_with_dot)
next
  case (Suc k)
  have e: "s @ replicate (Suc k) (CHR ''.'') = (s @ replicate k (CHR ''.'')) @ ''.''"
    by (simp add: replicate_append_same)
  show ?case unfolding e by (subst trim_end_matches_append) (simp, rule Suc)
qed

lemma strip_port_none: "CHR '':'' \<notin> set h \<Longrightarrow> strip_optional_port h = h"
  by (simp add: strip_optional_port_def rsplit_once_None [THEN iffD2])

lemma colon_not_digit: "CHR '':'' \<notin> set (show_nat m)"
  by (rule not_digit_notin [OF show_nat_digits]) (simp add: is_ascii_digit_def byte_def)

lemma strip_port_some: "m \<le> u16_max \<Longrightarrow> strip_optional_port (h @ CHR '':'' # show_nat m) = h"
  by (simp add: strip_optional_port_def rsplit_once_append colon_not_digit parse_uint_show)

lemma strip_suffix_dmn:
  assumes "CHR ''.'' \<notin> set name"
  shows "trim_end_matches (CHR ''.'' # d) (name @ CHR ''.'' # d) = name"
proof -
  have "\<not> ends_with name (CHR ''.'' # d)" using assms by (auto simp: ends_with_iff)
  then show ?thesis by (simp add: trim_end_matches_append trim_end_matches_none)
qed

lemma parse_host_name:
  assumes "normal_host h = ''p'' @ show_nat n @ ''-'' @ inst @ ''.'' @ to_ascii_lowercase dmn"
    and "0 < n" "n \<le> u16_max" "inst \<noteq> []" "CHR ''.'' \<notin> set inst"
  shows "parse_host h dmn = Inr \<lparr>route_instance = inst, route_port = n\<rparr>"
proof -
  let ?name = "CHR ''p'' # show_nat n @ CHR ''-'' # inst"
  have d: "CHR ''.'' \<notin> set (show_nat n)" "CHR ''-'' \<notin> set (show_nat n)"
    by (rule not_digit_notin [OF show_nat_digits], simp add: is_ascii_digit_def byte_def)+
  have h: "normal_host h = ?name @ CHR ''.'' # to_ascii_lowercase dmn"
    using assms(1) by simp
  have s: "split_once (CHR ''-'') ?name = Some (CHR ''p'' # show_nat n, inst)"
    using split_once_append [of "CHR ''-''" "CHR ''p'' # show_nat n" inst] d by simp
  have t: "trim_end_matches (CHR ''.'' # to_ascii_lowercase dmn) (?name @ CHR ''.'' # to_ascii_lowercase dmn) = ?name"
    by (rule strip_suffix_dmn) (use assms(5) d in auto)
  have p: "strip_prefix (CHR ''p'' # show_nat n) ''p'' = Some (show_nat n)"
    using strip_prefix_append [of "''p''" "show_nat n"] by simp
  have e: "ends_with (?name @ CHR ''.'' # to_ascii_lowercase dmn) (CHR ''.'' # to_ascii_lowercase dmn)"
    by (rule ends_with_append)
  have nd: "CHR ''.'' \<notin> set ?name" using d(1) assms(5) by simp
  show ?thesis
    unfolding parse_host_def Let_def h t
    using e nd s p assms(2-4) by (simp add: parse_uint_show)
qed

text \<open>C11: a host name of an instance's port, in any letter case, with any number of trailing dots and
  with or without a port of its own, routes to exactly that port of that instance.\<close>

theorem host_routes:
  assumes "0 < n" "n \<le> 65535" "inst \<noteq> []" "plain_label inst" "list_all (\<lambda>c. \<not> is_ascii_upper c) inst"
    and "CHR '':'' \<notin> set dmn" "dmn \<noteq> []" "last dmn \<noteq> CHR ''.''"
    and "to_ascii_lowercase h = to_ascii_lowercase (host_text n inst dmn)" and "m \<le> 65535"
  shows "parse_host (h @ replicate k (CHR ''.'')) dmn = Inr \<lparr>route_instance = inst, route_port = n\<rparr> \<and>
    parse_host (h @ replicate k (CHR ''.'') @ '':'' @ show_nat m) dmn = Inr \<lparr>route_instance = inst, route_port = n\<rparr>"
proof -
  have low: "to_ascii_lowercase (host_text n inst dmn) = ''p'' @ show_nat n @ ''-'' @ inst @ ''.'' @ to_ascii_lowercase dmn"
    using assms(5) by (simp add: host_text_def lowercase_digits [OF show_nat_digits] lowercase_id)
  have colon: "CHR '':'' \<notin> set h"
  proof -
    have c: "\<not> is_ascii_lower (CHR '':'')" "\<not> is_ascii_upper (CHR '':'')"
      by (simp_all add: is_ascii_lower_def is_ascii_upper_def byte_def)
    have "CHR '':'' \<notin> set (host_text n inst dmn)"
      using assms(4,6) colon_not_digit [of n] by (auto simp: host_text_def plain_label_def)
    then show ?thesis using lower_in_set [OF c] assms(9) by metis
  qed
  have last: "h = [] \<or> last h \<noteq> CHR ''.''"
  proof (rule ccontr)
    assume "\<not> ?thesis"
    then have "last (to_ascii_lowercase h) = CHR ''.''" by (simp add: to_ascii_lowercase_def last_map)
    then have "last (to_ascii_lowercase dmn) = CHR ''.''"
      using assms(7,9) low by (auto simp: to_ascii_lowercase_def)
    then show False using assms(7,8) by (simp add: to_ascii_lowercase_def last_map)
  qed
  have n: "normal_host (h @ replicate k (CHR ''.'')) = to_ascii_lowercase h"
    "normal_host (h @ replicate k (CHR ''.'') @ CHR '':'' # show_nat m) = to_ascii_lowercase h"
    using colon strip_port_none [of "h @ replicate k (CHR ''.'')"]
      strip_port_some [of m "h @ replicate k (CHR ''.'')"] assms(10) trim_dots [OF last, of k]
    by (simp_all add: normal_host_def u16_max_def)
  have "n \<le> u16_max" using assms(2) by (simp add: u16_max_def)
  with assms(1,3,4) show ?thesis
    by (intro conjI parse_host_name) (simp_all add: n assms(9) low plain_label_def)
qed

theorem host_routes_witness:
  "parse_host ''P8080-Dev.lnx.:443'' ''lnx'' = Inr \<lparr>route_instance = ''dev'', route_port = 8080\<rparr>"
proof -
  have s: "show_nat 8080 = ''8080''" "show_nat 443 = ''443''"
    by code_simp+
  have l: "to_ascii_lowercase ''P8080-Dev.lnx'' = to_ascii_lowercase (host_text 8080 ''dev'' ''lnx'')"
    by code_simp
  show ?thesis
    using host_routes [OF _ _ _ _ _ _ _ _ l, of 443 1]
    by (simp add: s plain_label_def is_ascii_upper_def byte_def)
qed


lemma concat_replicate_no_dot:
  "concat (replicate n p) = [] \<or> set (concat (replicate n p)) = set p"
  by (cases "n = 0") auto

text \<open>C12: nothing else routes. A host that is accepted names a port between 1 and 65535 and a
  non-empty instance without a dot, in lower case, in front of the domain suffix (which may be
  repeated).\<close>

theorem host_route_sound:
  assumes "parse_host h dmn = Inr r"
  shows "0 < route_port r \<and> route_port r \<le> 65535 \<and> route_instance r \<noteq> [] \<and>
    CHR ''.'' \<notin> set (route_instance r) \<and> list_all (\<lambda>c. \<not> is_ascii_upper c) (route_instance r) \<and>
    (\<exists>digits k. parse_uint 65535 digits = Some (route_port r) \<and>
       normal_host h = ''p'' @ digits @ ''-'' @ route_instance r @
         concat (replicate (Suc k) (CHR ''.'' # to_ascii_lowercase dmn)))"
proof -
  let ?suf = "CHR ''.'' # to_ascii_lowercase dmn"
  let ?name = "trim_end_matches ?suf (normal_host h)"
  from assms have e: "ends_with (normal_host h) ?suf" and nd: "CHR ''.'' \<notin> set ?name"
    unfolding parse_host_def Let_def by (auto split: if_splits)
  with assms obtain lbl inst port n where sp: "split_once (CHR ''-'') ?name = Some (lbl, inst)"
    and pp: "strip_prefix lbl ''p'' = Some port" and pn: "parse_uint u16_max port = Some n"
    and ok: "n \<noteq> 0" "inst \<noteq> []" and r: "r = \<lparr>route_instance = inst, route_port = n\<rparr>"
    unfolding parse_host_def Let_def by (auto split: if_splits option.splits prod.splits)
  from split_once_SomeD [OF sp] strip_prefix_SomeD [OF pp]
  have name: "?name = ''p'' @ port @ ''-'' @ inst" by simp
  obtain m where m: "normal_host h = ?name @ concat (replicate m ?suf)"
    using trim_end_matches_decomp by blast
  have "m \<noteq> 0"
  proof
    assume "m = 0"
    with m have "normal_host h = ?name" by simp
    with e trim_end_matches_not_ends [of ?suf "normal_host h"] show False by simp
  qed
  then obtain k where k: "m = Suc k" by (cases m) auto
  have "set inst \<subseteq> set (normal_host h)" using m name by auto
  then have up: "list_all (\<lambda>c. \<not> is_ascii_upper c) inst"
    by (auto simp: normal_host_def to_ascii_lowercase_def list_all_iff)
  from nd name have "CHR ''.'' \<notin> set inst" by auto
  with ok up r pn m k name parse_uint_le [OF pn] show ?thesis
    by (auto simp: u16_max_def)
qed

theorem host_route_sound_witness:
  "\<exists>r. parse_host ''p80-a.lnx'' ''lnx'' = Inr r \<and> 0 < route_port r \<and> route_instance r \<noteq> []"
proof -
  have "parse_host ''p80-a.lnx'' ''lnx'' = Inr \<lparr>route_instance = ''a'', route_port = 80\<rparr>"
    by code_simp
  with host_route_sound [OF this] show ?thesis by blast
qed

text \<open>The instance part of an accepted host may hold a slash, so it need not be a plain path
  component.\<close>

lemma host_instance_unchecked:
  "parse_host ''p80-/etc.lnx'' ''lnx'' = Inr \<lparr>route_instance = ''/etc'', route_port = 80\<rparr>"
  by code_simp

subsection \<open>DNS\<close>



lemma nth_append_mid: "i = length a \<Longrightarrow> (a @ x # b) ! i = x"
  by simp







subsection \<open>Forking by request\<close>

text \<open>C14: after the redirect of a fork request the browser asks for a target that no longer requests
  a fork, so a fork request is served once and never loops.\<close>

theorem fork_redirect_ends: "fork_source_from_request_target (clean_fork_request_target t) = None"
proof (cases "split_once (CHR ''?'') t")
  case None
  then show ?thesis by (simp add: clean_fork_request_target_def fork_source_from_request_target_def)
next
  case (Some pq)
  then obtain p query where pq: "split_once (CHR ''?'') t = Some (p, query)" by (cases pq) auto
  let ?kept = "filter (\<lambda>pair. pair \<noteq> []) (filter (\<lambda>pair. pair_key pair \<noteq> ''lnx:fork'') (split_on (CHR ''&'') query))"
  from split_once_SomeD [OF pq] have p: "CHR ''?'' \<notin> set p" by simp
  show ?thesis
  proof (cases "?kept = []")
    case True
    with pq have "clean_fork_request_target t = p" by (simp add: clean_fork_request_target_def)
    with p show ?thesis
      by (simp add: fork_source_from_request_target_def split_once_None [THEN iffD2])
  next
    case False
    have "split_on (CHR ''&'') (join ''&'' ?kept) = ?kept"
      by (rule split_on_join [OF False]) (auto dest: split_on_no_sep)
    moreover have "find (\<lambda>pair. pair_key pair = ''lnx:fork'' \<and> pair_value pair \<noteq> []) ?kept = None"
      by (auto simp: find_None_iff)
    moreover from pq False have "clean_fork_request_target t = p @ CHR ''?'' # join ''&'' ?kept"
      by (simp add: clean_fork_request_target_def)
    ultimately show ?thesis
      using split_once_append [OF p] by (simp add: fork_source_from_request_target_def)
  qed
qed

definition percent_encode :: "string \<Rightarrow> string" where
  "percent_encode s = concat (map (\<lambda>c. CHR ''%'' # hex2 (byte c)) s)"

lemma hex_digit_range: "d < 16 \<Longrightarrow> byte (hex_digit d) < 128 \<and> hex_digit d \<noteq> CHR ''+''"
  by (auto simp: hex_digit_def byte_def dest: arg_cong [where f = byte])

lemma percent_decode_hex:
  assumes "n < 256"
  shows "percent_decode_bytes (CHR ''%'' # hex2 n @ s) = char_of n # percent_decode_bytes s"
proof -
  have d: "n div 16 mod 16 < 16" "n mod 16 < 16" by auto
  have "is_utf8 (hex2 n)"
    using hex_digit_range [OF d(1)] hex_digit_range [OF d(2)]
    by (intro ascii_is_utf8) (simp add: hex2_def is_ascii_def)
  moreover have "parse_hex 255 (hex2 n) = Some n"
    using hex2_val [OF assms] hex_digit_range [OF d(1)] assms
    by (simp add: parse_hex_def hex2_def)
  moreover have "length (hex2 n) = 2" by (simp add: hex2_def)
  ultimately show ?thesis by simp
qed

text \<open>a percent-encoded name decodes to itself, and a name that needs no encoding is left as it
  is.\<close>

theorem percent_decode_round_trip:
  "is_utf8 s \<longrightarrow> percent_decode (percent_encode s) = s \<and> (CHR ''%'' \<notin> set s \<longrightarrow> percent_decode s = s)"
proof -
  have "percent_decode_bytes (percent_encode s) = s"
    by (induction s)
      (simp_all add: percent_encode_def percent_decode_hex byte_def del: percent_decode_bytes.simps(2))
  moreover have "CHR ''%'' \<notin> set s \<Longrightarrow> percent_decode_bytes s = s"
    by (induction s) auto
  ultimately show ?thesis by (auto simp: percent_decode_def lossy_valid)
qed

theorem percent_decode_round_trip_witness:
  "percent_decode (percent_encode ''source.vm'') = ''source.vm'' \<and> percent_decode ''source.vm'' = ''source.vm''"
proof -
  have "is_utf8 ''source.vm''" by code_simp
  with percent_decode_round_trip [of "''source.vm''"] show ?thesis by auto
qed

text \<open>A plus sign is taken for a hexadecimal digit's sign.\<close>

lemma percent_plus_decodes: "percent_decode ''%+f'' = [CHR 0x0F]"
  by code_simp

subsection \<open>Rewriting the Host header\<close>

text \<open>A request as header lines and a body, and what the rewriting does to the lines: the first one
  that starts with \<open>Host:\<close> is replaced, except that the last line is never looked at.\<close>

definition http_request :: "string list \<Rightarrow> string \<Rightarrow> string" where
  "http_request ls body = join CRLF ls @ CRLF @ CRLF @ body"

definition is_host_line :: "string \<Rightarrow> bool" where
  "is_host_line l \<longleftrightarrow> 5 \<le> length l \<and> eq_ignore_ascii_case (take 5 l) ''Host:''"

fun replace_host :: "string \<Rightarrow> string list \<Rightarrow> string list" where
  "replace_host host (l # l' # ls) =
     (if is_host_line l then (''Host: '' @ host) # l' # ls else l # replace_host host (l' # ls))"
| "replace_host host ls = ls"

lemma replace_host_Nil [simp]: "replace_host host ls = [] \<longleftrightarrow> ls = []"
  by (induction host ls rule: replace_host.induct) auto

definition line_ok :: "string \<Rightarrow> bool" where
  "line_ok l \<longleftrightarrow> l \<noteq> [] \<and> CHR 0x0D \<notin> set l"

lemma find_CRLF_join:
  "line_ok l \<Longrightarrow> find_sub CRLF (join CRLF (l # ls)) = (if ls = [] then None else Some (length l))"
proof (cases ls)
  case Nil
  assume "line_ok l"
  then have "find_sub CRLF (l @ []) = map_option ((+) (length l)) (find_sub CRLF [])"
    unfolding CRLF_def line_ok_def by (intro find_sub_skip) auto
  with Nil show ?thesis by (simp add: CRLF_def)
next
  case (Cons l' ls')
  assume "line_ok l"
  then have "find_sub CRLF (l @ CRLF @ join CRLF ls) = Some (length l)"
    unfolding CRLF_def line_ok_def using find_sub_append [of "CHR 0x0D" l "[CHR 0x0A]"] by simp
  with Cons show ?thesis by simp
qed

lemma find_blank:
  "list_all line_ok ls \<Longrightarrow> ls \<noteq> [] \<Longrightarrow>
   find_sub (CRLF @ CRLF) (http_request ls body) = Some (length (join CRLF ls))"
proof (induction ls)
  case (Cons l ls)
  then have l: "CHR 0x0D \<notin> set l" by (simp add: line_ok_def)
  have skip: "find_sub (CRLF @ CRLF) (l @ s) = map_option ((+) (length l)) (find_sub (CRLF @ CRLF) s)" for s
    using find_sub_skip [OF l] by (simp add: CRLF_def)
  show ?case
  proof (cases ls)
    case Nil
    have "starts_with (CRLF @ CRLF @ body) (CRLF @ CRLF)"
      using starts_with_append [of "CRLF @ CRLF" body] by simp
    then have "find_sub (CRLF @ CRLF) (CRLF @ CRLF @ body) = Some 0" by (simp add: CRLF_def)
    with Nil skip show ?thesis by (simp add: http_request_def)
  next
    case (Cons l' ls')
    with Cons.prems have l': "line_ok l'" by simp
    let ?r = "http_request ls body"
    obtain c r where r: "?r = c # r" and c: "c \<noteq> CHR 0x0D"
      using l' Cons by (cases l'; cases ls') (auto simp: http_request_def line_ok_def)
    have "find_sub (CRLF @ CRLF) (CRLF @ ?r) = map_option (\<lambda>i. i + 2) (find_sub (CRLF @ CRLF) ?r)"
      using c by (simp add: CRLF_def r starts_with_def option.map_comp o_def)
    moreover have "find_sub (CRLF @ CRLF) ?r = Some (length (join CRLF ls))"
      using Cons.IH Cons.prems Cons by simp
    moreover have "http_request (l # ls) body = l @ CRLF @ ?r"
      using Cons by (simp add: http_request_def)
    ultimately show ?thesis using Cons skip by (simp add: CRLF_def)
  qed
qed simp

lemma rewrite_from_lines:
  assumes "list_all line_ok ls" "ls \<noteq> []"
  shows "rewrite_from (pre @ http_request ls body) host (length pre + length (join CRLF ls)) (length pre) =
    pre @ http_request (replace_host host ls) body"
  using assms
proof (induction ls arbitrary: pre)
  case (Cons l ls)
  let ?req = "pre @ http_request (l # ls) body"
  let ?stop = "length pre + length (join CRLF (l # ls))"
  have sl: "drop (length pre) (take ?stop ?req) = join CRLF (l # ls)"
    by (simp add: http_request_def)
  have lt: "length pre < ?stop" using Cons.prems by (cases ls) (auto simp: line_ok_def)
  have f: "find_sub CRLF (drop (length pre) (take ?stop ?req)) = (if ls = [] then None else Some (length l))"
    unfolding sl using Cons.prems by (intro find_CRLF_join) simp
  show ?case
  proof (cases ls)
    case Nil
    with f lt show ?thesis by (subst rewrite_from.simps) simp
  next
    case (Cons l' ls')
    have req: "?req = pre @ l @ CRLF @ http_request ls body" using Cons by (simp add: http_request_def)
    show ?thesis
    proof (cases "is_host_line l")
      case True
      have "take 5 (drop (length pre) ?req) = take 5 l" using True req by (simp add: is_host_line_def)
      moreover have "drop (length pre + length l) ?req = CRLF @ http_request ls body" by (simp add: req)
      moreover have "take (length pre) ?req = pre" by simp
      ultimately have "rewrite_from ?req host ?stop (length pre) =
          pre @ ''Host: '' @ host @ CRLF @ http_request ls body"
        using True f lt Cons by (subst rewrite_from.simps) (simp add: is_host_line_def Let_def)
      with True Cons show ?thesis by (simp add: http_request_def)
    next
      case False
      have h: "\<not> (5 \<le> length l \<and> eq_ignore_ascii_case (take 5 (drop (length pre) ?req)) ''Host:'')"
        using False req by (auto simp: is_host_line_def)
      have "rewrite_from ?req host ?stop (length pre) =
          rewrite_from ?req host ?stop (length pre + length l + 2)"
        using h f lt Cons by (subst rewrite_from.simps) (auto simp: Let_def)
      also have "\<dots> = rewrite_from ((pre @ l @ CRLF) @ http_request ls body) host
          (length (pre @ l @ CRLF) + length (join CRLF ls)) (length (pre @ l @ CRLF))"
        unfolding req using Cons by (simp add: CRLF_def add.assoc)
      also have "\<dots> = (pre @ l @ CRLF) @ http_request (replace_host host ls) body"
        by (rule Cons.IH) (use Cons.prems Cons in simp_all)
      finally show ?thesis
        using False Cons by (cases "replace_host host ls") (auto simp: http_request_def split: if_splits)
    qed
  qed
qed simp

text \<open>C15: rewriting a request for the browser debugging port changes one header line and nothing
  else: the first \<open>Host\<close> line becomes the loopback host, all other lines and the body stay as they
  are. A \<open>Host\<close> line that is the last header line is not rewritten.\<close>

theorem rewrite_replaces_host:
  assumes "list_all line_ok ls" "ls \<noteq> []"
  shows "rewrite_http_host_header (http_request ls body) host = http_request (replace_host host ls) body"
  using rewrite_from_lines [OF assms, of "[]"] find_blank [OF assms]
  by (simp add: rewrite_http_host_header_def)

theorem rewrite_replaces_host_witness:
  "rewrite_http_host_header (http_request [''GET / HTTP/1.1'', ''host: p9222-a.lnx'', ''Accept: x''] ''b'') ''h'' =
     http_request [''GET / HTTP/1.1'', ''Host: h'', ''Accept: x''] ''b'' \<and>
   rewrite_http_host_header (http_request [''GET / HTTP/1.1'', ''Host: p9222-a.lnx''] ''b'') ''h'' =
     http_request [''GET / HTTP/1.1'', ''Host: p9222-a.lnx''] ''b''"
proof -
  have ok: "list_all line_ok [''GET / HTTP/1.1'', ''host: p9222-a.lnx'', ''Accept: x'']"
    "list_all line_ok [''GET / HTTP/1.1'', ''Host: p9222-a.lnx'']"
    by code_simp+
  have "replace_host ''h'' [''GET / HTTP/1.1'', ''host: p9222-a.lnx'', ''Accept: x''] =
      [''GET / HTTP/1.1'', ''Host: h'', ''Accept: x'']"
    "replace_host ''h'' [''GET / HTTP/1.1'', ''Host: p9222-a.lnx''] = [''GET / HTTP/1.1'', ''Host: p9222-a.lnx'']"
    by code_simp+
  then show ?thesis
    using rewrite_replaces_host [OF ok(1)] rewrite_replaces_host [OF ok(2)] by simp
qed

subsection \<open>The administration socket\<close>




definition unquoted :: "string \<Rightarrow> bool" where
  "unquoted v \<longleftrightarrow> CHR 0x22 \<notin> set v"
























lemma unquoted_show [simp]: "unquoted (show_nat n)"
  using not_digit_notin [OF show_nat_digits [of n]] by (auto simp: unquoted_def is_ascii_digit_def byte_def)











lemma xml_escape_chars: "xml_escape s = concat (map xml_escape_char s)"
  by (induction s) (auto simp: xml_escape_def replace_char_def xml_escape_char_def)

lemma xml_escape_char_cancel:
  "xml_escape_char c @ x = xml_escape_char d @ y \<Longrightarrow> c = d \<and> x = y"
  by (auto simp: xml_escape_char_def split: if_splits)

text \<open>escaped text stands for itself inside the service description: it holds none of the
  characters that end a value or open a tag, and distinct values stay distinct.\<close>

theorem xml_escape_safe:
  "set (xml_escape s) \<inter> {CHR ''<'', CHR ''>'', CHR 0x22, CHR 0x27} = {} \<and>
   (xml_escape s = xml_escape t \<longrightarrow> s = t)"
proof
  show "set (xml_escape s) \<inter> {CHR ''<'', CHR ''>'', CHR 0x22, CHR 0x27} = {}"
    unfolding xml_escape_chars
  proof (induction s)
    case (Cons c s)
    have "set (xml_escape_char c) \<inter> {CHR ''<'', CHR ''>'', CHR 0x22, CHR 0x27} = {}"
      by (simp add: xml_escape_char_def)
    with Cons show ?case by (simp add: Int_Un_distrib2)
  qed simp
  have ne: "xml_escape_char c \<noteq> []" for c by (simp add: xml_escape_char_def)
  have "concat (map xml_escape_char s) = concat (map xml_escape_char t) \<Longrightarrow> s = t"
  proof (induction s arbitrary: t)
    case Nil
    then show ?case by (cases t) (simp_all add: ne)
  next
    case (Cons c s)
    then obtain d t' where t: "t = d # t'" by (cases t) (simp_all add: ne)
    with Cons.prems have "c = d \<and> concat (map xml_escape_char s) = concat (map xml_escape_char t')"
      by (intro xml_escape_char_cancel) simp
    with Cons.IH t show ?case by simp
  qed
  then show "xml_escape s = xml_escape t \<longrightarrow> s = t" by (simp add: xml_escape_chars)
qed

theorem xml_escape_safe_witness:
  "xml_escape ''a&b'' = ''a&amp;b'' \<and> xml_escape ''a&b'' \<noteq> xml_escape ''a&amp;b''"
proof -
  have "xml_escape ''a&b'' = ''a&amp;b''" by code_simp
  with xml_escape_safe [of "''a&b''" "''a&amp;b''"] show ?thesis by auto
qed

subsection \<open>The system helper\<close>

lemma same_blocks_eq: "same_blocks left right \<longleftrightarrow> left = right"
proof (induction left right rule: same_blocks.induct)
  case (1 left right)
  show ?case
  proof (cases "take BLOCK left = take BLOCK right \<and> left \<noteq> []")
    case True
    then have "right \<noteq> []" by (auto simp: BLOCK_def)
    with True "1" have "same_blocks (drop BLOCK left) (drop BLOCK right) \<longleftrightarrow> drop BLOCK left = drop BLOCK right"
      by (simp add: BLOCK_def)
    moreover have "left = right \<longleftrightarrow> drop BLOCK left = drop BLOCK right"
      using True by (metis append_take_drop_id)
    moreover have "length (take BLOCK right) \<noteq> 0" using \<open>right \<noteq> []\<close> by (simp add: BLOCK_def)
    ultimately show ?thesis using True
      by (subst same_blocks.simps) (simp add: Let_def del: length_take)
  next
    case False
    then show ?thesis
      by (subst same_blocks.simps) (auto simp: Let_def BLOCK_def min_def split: if_splits)
  qed
qed

text \<open>the helper is reported current exactly when a privileged service runs the helper's program
  and the helper, if it exists, is byte for byte the installed program.\<close>

theorem helper_current:
  "privileged_service_status c status current current_bytes helper helper_bytes = Some ''current'' \<longleftrightarrow>
     requires_privileged_service c \<and>
     (\<exists>b. st_binary_path status = Some b \<and> path_of_string b = Some helper) \<and>
     (current = helper \<or> helper_bytes = None \<or> helper_bytes = Some current_bytes)"
  by (auto simp: privileged_service_status_def privileged_service_binary_error_def
      privileged_service_helper_stale_error_def files_same_contents_def same_blocks_eq
      split: option.splits if_splits)

end
