(* ===== verification/Protocol.thy ===== *)
theory Protocol
  imports Text
begin

text \<open>
  The protocol between clients, the VM owner and the guest agent (\<open>src/lnx-protocol/src/lib.rs\<close>,
  \<open>src/src/runner/protocol_io.rs\<close>): messages, protocol versions, and frames on a byte stream. A
  message is encoded by \<open>postcard\<close>, which is not part of the program: the encoding is the parameter
  \<open>wire\<close>, and \<open>wire_ok\<close> says that decoding inverts encoding.
\<close>

datatype Message =
    Hello nat
  | OpenExec nat "string list" string bool string string nat nat nat nat string "(string \<times> string) list"
  | OpenTcp nat string nat
  | CheckpointRequested nat string
  | CheckpointCreated nat
  | Data nat string
  | Stderr nat string
  | ExecStarted nat
  | Eof nat
  | WindowResize nat nat nat
  | ExitStatus nat int
  | Close nat
  | Error nat string
  | RestoreSync nat string
  | RestoreSynced nat
  | SnapshotExitRequested nat
  | OpenUrl nat string
  | OpenUrlResult nat bool
  | PortListeners "nat list"
  | SnapshotReady
  | AddForward nat string nat string nat
  | ForwardAdded nat
  | SetClock nat
  | KeepRunning nat
  | KeepingRunning nat

subsection \<open>Versions\<close>

definition PROTOCOL_VERSION :: nat where
  "PROTOCOL_VERSION = 12"

definition OLDEST_AGENT_PROTOCOL :: nat where
  "OLDEST_AGENT_PROTOCOL = 11"

definition agent_protocol_supported :: "nat \<Rightarrow> bool" where
  "agent_protocol_supported version \<longleftrightarrow> OLDEST_AGENT_PROTOCOL \<le> version \<and> version \<le> PROTOCOL_VERSION"

fun min_protocol :: "Message \<Rightarrow> nat" where
  "min_protocol (SetClock _) = 12"
| "min_protocol (KeepRunning _) = 12"
| "min_protocol (KeepingRunning _) = 12"
| "min_protocol _ = OLDEST_AGENT_PROTOCOL"

definition agent_understands :: "Message \<Rightarrow> nat \<Rightarrow> bool" where
  "agent_understands message agent_protocol \<longleftrightarrow> min_protocol message \<le> agent_protocol"

text \<open>What the writer thread passes on to an agent out of the owner's queue.\<close>

definition agent_writer :: "nat \<Rightarrow> Message list \<Rightarrow> Message list" where
  "agent_writer agent_protocol queue = filter (\<lambda>m. agent_understands m agent_protocol) queue"

text \<open>The clock in nanoseconds, cut to 64 bits; 0 for a clock before the epoch.\<close>

definition set_clock_now :: "nat option \<Rightarrow> Message" where
  "set_clock_now unix_nanos = SetClock (case unix_nanos of None \<Rightarrow> 0 | Some n \<Rightarrow> n mod 2 ^ 64)"

subsection \<open>Frames\<close>

definition MAX_MESSAGE_SIZE :: nat where
  "MAX_MESSAGE_SIZE = 16 * 1024 * 1024"

record wire =
  to_bytes :: "Message \<Rightarrow> string"
  from_bytes :: "string \<Rightarrow> Message option"

definition wire_ok :: "wire \<Rightarrow> bool" where
  "wire_ok W \<longleftrightarrow> (\<forall>m. from_bytes W (to_bytes W m) = Some m)"

text \<open>Writing appends to the stream; reading takes from its front and fails, without a message, when
  the stream ends inside a frame.\<close>

definition write_message :: "wire \<Rightarrow> string \<Rightarrow> Message \<Rightarrow> err + string" where
  "write_message W stream message =
     (let bytes = to_bytes W message in
      if length bytes > MAX_MESSAGE_SIZE then Inl (Bail ''protocol message too large'')
      else Inr (stream @ be32 (length bytes mod 2 ^ 32) @ bytes))"

definition read_exact :: "nat \<Rightarrow> string \<Rightarrow> err + string \<times> string" where
  "read_exact n stream =
     (if n \<le> length stream then Inr (take n stream, drop n stream) else Inl (Io OtherIo))"

definition read_u32 :: "string \<Rightarrow> err + nat \<times> string" where
  "read_u32 stream =
     (case read_exact 4 stream of Inl e \<Rightarrow> Inl e | Inr (buf, rest) \<Rightarrow> Inr (from_be buf, rest))"

definition read_message :: "wire \<Rightarrow> string \<Rightarrow> err + Message \<times> string" where
  "read_message W stream =
     (case read_u32 stream of
        Inl e \<Rightarrow> Inl e
      | Inr (len, rest) \<Rightarrow>
          if len > MAX_MESSAGE_SIZE then Inl (Bail ''protocol message too large'')
          else
            (case read_exact len rest of
               Inl e \<Rightarrow> Inl e
             | Inr (bytes, rest') \<Rightarrow>
                 (case from_bytes W bytes of None \<Rightarrow> Inl Parse | Some m \<Rightarrow> Inr (m, rest'))))"

subsection \<open>Waiting for a message\<close>

text \<open>What one turn of a waiting loop sees: whether a signal arrived, whether the deadline passed,
  and what polling the stream for a while answers.\<close>

datatype poll = Readable | Quiet | PollInterrupted | PollFailed

record turn =
  signalled :: bool
  deadline_passed :: bool
  polled :: poll

datatype interruptible = Received Message | Interrupted | DeadlinePassed

definition wait_readable :: "poll \<Rightarrow> err + bool" where
  "wait_readable p =
     (case p of
        Readable \<Rightarrow> Inr True
      | Quiet \<Rightarrow> Inr False
      | PollInterrupted \<Rightarrow> Inr False
      | PollFailed \<Rightarrow> Inl (Io OtherIo))"

text \<open>The result and the stream afterwards; \<open>None\<close> when the turns seen so far decide nothing.\<close>

fun read_message_interruptible :: "wire \<Rightarrow> string \<Rightarrow> turn list \<Rightarrow> (err + interruptible \<times> string) option" where
  "read_message_interruptible W stream [] = None"
| "read_message_interruptible W stream (t # ts) =
     (if signalled t then Some (Inr (Interrupted, stream))
      else if deadline_passed t then Some (Inr (DeadlinePassed, stream))
      else
        (case wait_readable (polled t) of
           Inl e \<Rightarrow> Some (Inl e)
         | Inr True \<Rightarrow>
             Some (case read_message W stream of
                     Inl e \<Rightarrow> Inl e
                   | Inr (m, rest) \<Rightarrow> Inr (Received m, rest))
         | Inr False \<Rightarrow> read_message_interruptible W stream ts))"

definition read_message_within :: "wire \<Rightarrow> string \<Rightarrow> poll \<Rightarrow> err + Message option \<times> string" where
  "read_message_within W stream p =
     (case wait_readable p of
        Inl e \<Rightarrow> Inl e
      | Inr False \<Rightarrow> Inr (None, stream)
      | Inr True \<Rightarrow>
          (case read_message W stream of Inl e \<Rightarrow> Inl e | Inr (m, rest) \<Rightarrow> Inr (Some m, rest)))"

subsection \<open>Connecting\<close>

datatype hello_error = BrokerHelloFailed | BrokerProtocolMismatch nat nat | BadBrokerHello | WriteFailed err

text \<open>\<open>connect_broker\<close>: the client says hello and takes the broker's answer out of the stream.\<close>

definition connect_broker :: "wire \<Rightarrow> string \<Rightarrow> hello_error + string \<times> string" where
  "connect_broker W answer =
     (case write_message W [] (Hello PROTOCOL_VERSION) of
        Inl e \<Rightarrow> Inl (WriteFailed e)
      | Inr sent \<Rightarrow>
          (case read_message W answer of
             Inl _ \<Rightarrow> Inl BrokerHelloFailed
           | Inr (Hello version, rest) \<Rightarrow>
               if version = PROTOCOL_VERSION then Inr (sent, rest)
               else Inl (BrokerProtocolMismatch PROTOCOL_VERSION version)
           | Inr _ \<Rightarrow> Inl BadBrokerHello))"

subsection \<open>The client's relay\<close>

definition OWNER_STOPPING :: string where
  "OWNER_STOPPING = ''VM owner is stopping after a final snapshot''"

definition OWNER_STOPPING_NOT_STARTED :: string where
  "OWNER_STOPPING_NOT_STARTED =
     ''VM owner is stopping after a final snapshot; the command was not started''"

definition EXIT_TIMED_OUT :: int where
  "EXIT_TIMED_OUT = 124"

datatype client_error = CommandNotStarted | ClientError err

record relayed =
  out :: string
  err_out :: string
  sent :: "Message list"

text \<open>Relaying a channel's output: the messages that arrive, and why the loop ends. \<open>signal\<close> is the
  number of the signal that interrupted the client.\<close>

fun relay_channel_output ::
  "nat \<Rightarrow> int \<Rightarrow> (err + interruptible) list \<Rightarrow> relayed \<Rightarrow> (client_error + int) option \<times> relayed" where
  "relay_channel_output channel_id signal [] r = (None, r)"
| "relay_channel_output channel_id signal (x # xs) r =
     (case x of
        Inl e \<Rightarrow> (Some (Inl (ClientError e)), r)
      | Inr DeadlinePassed \<Rightarrow>
          (Some (Inr EXIT_TIMED_OUT), r\<lparr>sent := sent r @ [Eof channel_id, Close channel_id]\<rparr>)
      | Inr Interrupted \<Rightarrow>
          (Some (Inr (128 + signal)), r\<lparr>sent := sent r @ [Eof channel_id, Close channel_id]\<rparr>)
      | Inr (Received (Data i bytes)) \<Rightarrow>
          relay_channel_output channel_id signal xs (if i = channel_id then r\<lparr>out := out r @ bytes\<rparr> else r)
      | Inr (Received (Stderr i bytes)) \<Rightarrow>
          relay_channel_output channel_id signal xs (if i = channel_id then r\<lparr>err_out := err_out r @ bytes\<rparr> else r)
      | Inr (Received (ExitStatus i status)) \<Rightarrow>
          if i = channel_id then (Some (Inr status), r) else relay_channel_output channel_id signal xs r
      | Inr (Received (Error i message)) \<Rightarrow>
          if i = channel_id
          then (Some (Inl (if message = OWNER_STOPPING_NOT_STARTED then CommandNotStarted
                           else ClientError (Bail message))), r)
          else relay_channel_output channel_id signal xs r
      | Inr (Received _) \<Rightarrow> relay_channel_output channel_id signal xs r)"

text \<open>\<open>run\<close>: a command that reached an owner just as it stopped is offered again, three times in all.\<close>

definition NOT_STARTED_ATTEMPTS :: nat where
  "NOT_STARTED_ATTEMPTS = 3"

function run_attempts :: "(nat \<Rightarrow> client_error + int) \<Rightarrow> nat \<Rightarrow> (client_error + int) \<times> nat" where
  "run_attempts run_once attempt =
     (if run_once attempt = Inl CommandNotStarted \<and> attempt < NOT_STARTED_ATTEMPTS
      then run_attempts run_once (attempt + 1)
      else (run_once attempt, attempt))"
  by pat_completeness auto
termination
  by (relation "measure (\<lambda>(_, attempt). NOT_STARTED_ATTEMPTS - attempt)") auto

declare run_attempts.simps [simp del]

definition run :: "(nat \<Rightarrow> client_error + int) \<Rightarrow> (client_error + int) \<times> nat" where
  "run run_once = run_attempts run_once 1"

subsection \<open>Frames on a stream\<close>

definition frame :: "wire \<Rightarrow> Message \<Rightarrow> string" where
  "frame W m = be32 (length (to_bytes W m)) @ to_bytes W m"

definition fits :: "wire \<Rightarrow> Message \<Rightarrow> bool" where
  "fits W m \<longleftrightarrow> length (to_bytes W m) \<le> MAX_MESSAGE_SIZE"

lemma write_message_frame: "fits W m \<Longrightarrow> write_message W stream m = Inr (stream @ frame W m)"
  by (simp add: write_message_def fits_def frame_def MAX_MESSAGE_SIZE_def Let_def)

lemma read_message_frame:
  assumes "wire_ok W" "fits W m"
  shows "read_message W (frame W m @ rest) = Inr (m, rest)"
proof -
  let ?b = "to_bytes W m"
  have l: "length ?b < 2 ^ 32" "\<not> MAX_MESSAGE_SIZE < length ?b"
    using assms(2) by (simp_all add: fits_def MAX_MESSAGE_SIZE_def)
  have "read_u32 (frame W m @ rest) = Inr (length ?b, ?b @ rest)"
    using from_be32 [OF l(1)] by (simp add: read_u32_def read_exact_def frame_def)
  with l assms(1) show ?thesis
    by (simp add: read_message_def read_exact_def wire_ok_def)
qed

fun write_frames :: "wire \<Rightarrow> string \<Rightarrow> Message list \<Rightarrow> err + string" where
  "write_frames W stream [] = Inr stream"
| "write_frames W stream (m # ms) =
     (case write_message W stream m of Inl e \<Rightarrow> Inl e | Inr s \<Rightarrow> write_frames W s ms)"

fun read_frames :: "wire \<Rightarrow> nat \<Rightarrow> string \<Rightarrow> (err + Message list \<times> string)" where
  "read_frames W 0 stream = Inr ([], stream)"
| "read_frames W (Suc n) stream =
     (case read_message W stream of
        Inl e \<Rightarrow> Inl e
      | Inr (m, rest) \<Rightarrow>
          (case read_frames W n rest of Inl e \<Rightarrow> Inl e | Inr (ms, r) \<Rightarrow> Inr (m # ms, r)))"

lemma read_frames_stream:
  "wire_ok W \<Longrightarrow> list_all (fits W) ms \<Longrightarrow>
   read_frames W (length ms) (concat (map (frame W) ms) @ rest) = Inr (ms, rest)"
  by (induction ms) (simp_all add: read_message_frame)

lemma write_frames_stream:
  "list_all (fits W) ms \<Longrightarrow> write_frames W stream ms = Inr (stream @ concat (map (frame W) ms))"
  by (induction ms arbitrary: stream) (simp_all add: write_message_frame)

end
