(* ===== verification/ProtocolProps.thy ===== *)
theory ProtocolProps
  imports Protocol Sample
begin

text \<open>What the protocol guarantees: frames survive the stream, waiting never splits one, the client
  relays its channel's output in order and offers a command again only if it never started; with a
  concrete wire format that shows that a decoder can invert the encoder.\<close>

subsection \<open>A wire format\<close>

definition show_bool :: "bool \<Rightarrow> string" where
  "show_bool b = (if b then ''1'' else ''0'')"

fun pairs_text :: "(string \<times> string) list \<Rightarrow> string list" where
  "pairs_text [] = []"
| "pairs_text ((a, b) # ps) = a # b # pairs_text ps"

fun text_pairs :: "string list \<Rightarrow> (string \<times> string) list" where
  "text_pairs (a # b # xs) = (a, b) # text_pairs xs"
| "text_pairs _ = []"

lemma text_pairs_text [simp]: "text_pairs (pairs_text ps) = ps"
  by (induction ps rule: pairs_text.induct) auto

abbreviation packed :: "string list \<Rightarrow> string" where
  "packed xs \<equiv> pack xs @ [nl]"

definition unpacked :: "string \<Rightarrow> string list" where
  "unpacked s = (case unpack s of None \<Rightarrow> [] | Some xs \<Rightarrow> xs)"

lemma unpacked_packed [simp]: "unpacked (packed xs) = xs"
  by (simp add: unpacked_def)

fun message_fields :: "Message \<Rightarrow> string list" where
  "message_fields (Hello v) = [''hello'', show_nat v]"
| "message_fields (OpenExec i argv cwd pty term colorterm rows cols uid gid grp envs) =
     [''exec'', show_nat i, packed argv, cwd, show_bool pty, term, colorterm, show_nat rows,
      show_nat cols, show_nat uid, show_nat gid, grp, packed (pairs_text envs)]"
| "message_fields (OpenTcp i h p) = [''tcp'', show_nat i, h, show_nat p]"
| "message_fields (CheckpointRequested i r) = [''checkpoint'', show_nat i, r]"
| "message_fields (CheckpointCreated i) = [''created'', show_nat i]"
| "message_fields (Data i b) = [''data'', show_nat i, b]"
| "message_fields (Stderr i b) = [''stderr'', show_nat i, b]"
| "message_fields (ExecStarted i) = [''started'', show_nat i]"
| "message_fields (Eof i) = [''eof'', show_nat i]"
| "message_fields (WindowResize i r c) = [''resize'', show_nat i, show_nat r, show_nat c]"
| "message_fields (ExitStatus i s) = [''exit'', show_nat i, enc_int s]"
| "message_fields (Close i) = [''close'', show_nat i]"
| "message_fields (Error i m) = [''error'', show_nat i, m]"
| "message_fields (RestoreSync i b) = [''sync'', show_nat i, b]"
| "message_fields (RestoreSynced i) = [''synced'', show_nat i]"
| "message_fields (SnapshotExitRequested i) = [''snapshot-exit'', show_nat i]"
| "message_fields (OpenUrl i u) = [''url'', show_nat i, u]"
| "message_fields (OpenUrlResult i b) = [''url-result'', show_nat i, show_bool b]"
| "message_fields (PortListeners ps) = [''ports'', packed (map show_nat ps)]"
| "message_fields SnapshotReady = [''ready'']"
| "message_fields (AddForward i lh lp gh gp) = [''forward'', show_nat i, lh, show_nat lp, gh, show_nat gp]"
| "message_fields (ForwardAdded i) = [''forwarded'', show_nat i]"
| "message_fields (SetClock n) = [''clock'', show_nat n]"
| "message_fields (KeepRunning i) = [''keep'', show_nat i]"
| "message_fields (KeepingRunning i) = [''keeping'', show_nat i]"

definition one_field :: "string \<Rightarrow> (nat \<Rightarrow> Message) option" where
  "one_field t = map_of [(''hello'', Hello), (''created'', CheckpointCreated), (''started'', ExecStarted),
     (''eof'', Eof), (''close'', Close), (''synced'', RestoreSynced), (''snapshot-exit'', SnapshotExitRequested),
     (''forwarded'', ForwardAdded), (''clock'', SetClock), (''keep'', KeepRunning), (''keeping'', KeepingRunning)] t"

definition two_fields :: "string \<Rightarrow> (nat \<Rightarrow> string \<Rightarrow> Message) option" where
  "two_fields t = map_of [(''checkpoint'', CheckpointRequested), (''data'', Data), (''stderr'', Stderr),
     (''exit'', \<lambda>i s. ExitStatus i (dec_int s)), (''error'', Error), (''sync'', RestoreSync),
     (''url'', OpenUrl), (''url-result'', \<lambda>i b. OpenUrlResult i (b = ''1''))] t"

fun fields_message :: "string list \<Rightarrow> Message option" where
  "fields_message [t] = (if t = ''ready'' then Some SnapshotReady else None)"
| "fields_message [t, a] =
     (if t = ''ports'' then Some (PortListeners (map digits_val (unpacked a)))
      else (case one_field t of None \<Rightarrow> None | Some c \<Rightarrow> Some (c (digits_val a))))"
| "fields_message [t, a, b] =
     (case two_fields t of None \<Rightarrow> None | Some c \<Rightarrow> Some (c (digits_val a) b))"
| "fields_message [t, a, b, c] =
     (if t = ''tcp'' then Some (OpenTcp (digits_val a) b (digits_val c))
      else Some (WindowResize (digits_val a) (digits_val b) (digits_val c)))"
| "fields_message [t, a, b, c, d, e] = Some (AddForward (digits_val a) b (digits_val c) d (digits_val e))"
| "fields_message [t, i, argv, cwd, pty, term, colorterm, rows, cols, uid, gid, grp, envs] =
     Some (OpenExec (digits_val i) (unpacked argv) cwd (pty = ''1'') term colorterm (digits_val rows)
       (digits_val cols) (digits_val uid) (digits_val gid) grp (text_pairs (unpacked envs)))"
| "fields_message _ = None"

definition sample_wire :: wire where
  "sample_wire =
     \<lparr>to_bytes = (\<lambda>m. packed (message_fields m)),
      from_bytes = (\<lambda>b. case unpack b of None \<Rightarrow> None | Some xs \<Rightarrow> fields_message xs)\<rparr>"

lemma map_digits_show [simp]: "map (digits_val \<circ> show_nat) ns = ns"
  by (induction ns) auto

lemma sample_wire_ok: "wire_ok sample_wire"
proof -
  have "fields_message (message_fields m) = Some m" for m
    by (cases m) (simp_all add: one_field_def two_fields_def show_bool_def)
  then show ?thesis by (simp add: wire_ok_def sample_wire_def)
qed

subsection \<open>Frames\<close>

text \<open>C23: messages written one after the other are read back in the same order, whatever else
  follows in the stream; a message over the size limit is refused by the writer, and a reader
  refuses a frame that announces more than the limit before it reads any of it.\<close>

theorem frames_round_trip:
  assumes "wire_ok W" "list_all (fits W) ms"
  shows "\<exists>stream. write_frames W [] ms = Inr stream \<and> read_frames W (length ms) (stream @ rest) = Inr (ms, rest) \<and>
    (\<not> fits W m \<longrightarrow> write_message W stream m = Inl (Bail ''protocol message too large'')) \<and>
    (MAX_MESSAGE_SIZE < n \<and> n < 2 ^ 32 \<longrightarrow>
       read_message W (be32 n @ rest) = Inl (Bail ''protocol message too large''))"
proof -
  have "MAX_MESSAGE_SIZE < n \<and> n < 2 ^ 32 \<longrightarrow>
      read_message W (be32 n @ rest) = Inl (Bail ''protocol message too large'')"
    using from_be32 [of n] by (simp add: read_message_def read_u32_def read_exact_def)
  moreover have "\<not> fits W m \<longrightarrow> write_message W s m = Inl (Bail ''protocol message too large'')" for s
    by (simp add: fits_def write_message_def Let_def)
  ultimately show ?thesis
    using read_frames_stream [OF assms] write_frames_stream [OF assms(2), of "[]"] by simp
qed

theorem frames_round_trip_witness:
  "\<exists>stream. write_frames sample_wire [] [Data 7 ''hi'', Eof 7] = Inr stream \<and>
     read_frames sample_wire 2 (stream @ ''x'') = Inr ([Data 7 ''hi'', Eof 7], ''x'')"
proof -
  have "list_all (fits sample_wire) [Data 7 ''hi'', Eof 7]" by code_simp
  from frames_round_trip [OF sample_wire_ok this, of "''x''" "Eof 7" 0] show ?thesis
    by (auto simp: numeral_2_eq_2)
qed

subsection \<open>Waiting\<close>

text \<open>C24: giving up never splits a frame. A wait that a signal or the deadline ends leaves every byte
  in the stream, a message comes out only as one whole frame, and the wait ends at the first turn
  that sees a signal, the deadline or readable bytes.\<close>

theorem wait_whole_frames:
  shows "(\<forall>r rest. read_message_interruptible W stream ts = Some (Inr (r, rest)) \<longrightarrow>
      (case r of Received m \<Rightarrow> read_message W stream = Inr (m, rest) | _ \<Rightarrow> rest = stream)) \<and>
    (read_message_interruptible W stream ts = None \<longleftrightarrow>
      (\<forall>t \<in> set ts. \<not> signalled t \<and> \<not> deadline_passed t \<and> polled t \<in> {Quiet, PollInterrupted}))"
proof (induction ts)
  case (Cons t ts)
  show ?case
  proof (cases "signalled t \<or> deadline_passed t")
    case True
    then show ?thesis by auto
  next
    case False
    then show ?thesis using Cons
      by (cases "polled t") (auto simp: wait_readable_def split: sum.splits)
  qed
qed simp

definition quiet_turn :: turn where
  "quiet_turn = \<lparr>signalled = False, deadline_passed = False, polled = Quiet\<rparr>"

theorem wait_whole_frames_witness:
  "read_message_interruptible sample_wire ''xyz'' [quiet_turn, quiet_turn\<lparr>signalled := True\<rparr>] =
     Some (Inr (Interrupted, ''xyz'')) \<and>
   read_message_interruptible sample_wire ''xyz'' [quiet_turn] = None"
  using wait_whole_frames [of sample_wire "''xyz''" "[quiet_turn, quiet_turn\<lparr>signalled := True\<rparr>]"]
    wait_whole_frames [of sample_wire "''xyz''" "[quiet_turn]"]
  by (auto simp: quiet_turn_def wait_readable_def)

subsection \<open>The client\<close>

fun ends_channel :: "nat \<Rightarrow> Message \<Rightarrow> bool" where
  "ends_channel c (ExitStatus i _) \<longleftrightarrow> i = c"
| "ends_channel c (Error i _) \<longleftrightarrow> i = c"
| "ends_channel c _ \<longleftrightarrow> False"

fun data_for :: "nat \<Rightarrow> Message \<Rightarrow> string" where
  "data_for c (Data i b) = (if i = c then b else [])"
| "data_for c _ = []"

fun stderr_for :: "nat \<Rightarrow> Message \<Rightarrow> string" where
  "stderr_for c (Stderr i b) = (if i = c then b else [])"
| "stderr_for c _ = []"

lemma relay_step:
  assumes "\<not> ends_channel c m"
  shows "relay_channel_output c sig (Inr (Received m) # xs) r =
    relay_channel_output c sig xs (r\<lparr>out := out r @ data_for c m, err_out := err_out r @ stderr_for c m\<rparr>)"
  using assms by (cases m) auto

lemma relay_steps:
  "\<forall>m \<in> set ms. \<not> ends_channel c m \<Longrightarrow>
   relay_channel_output c sig (map (Inr \<circ> Received) ms @ xs) r =
     relay_channel_output c sig xs (r\<lparr>out := out r @ concat (map (data_for c) ms),
       err_out := err_out r @ concat (map (stderr_for c) ms)\<rparr>)"
  by (induction ms arbitrary: r) (simp_all add: relay_step del: relay_channel_output.simps)

text \<open>C25: the client prints exactly its own channel's output, in order, up to the command's exit, and
  returns the command's status; and a command that did not start is reported as such only on the
  owner's word, after the same output.\<close>

theorem relay_is_faithful:
  assumes "\<forall>m \<in> set ms. \<not> ends_channel c m"
  shows "relay_channel_output c sig (map (Inr \<circ> Received) (ms @ [ExitStatus c status]) @ later) r =
      (Some (Inr status), r\<lparr>out := out r @ concat (map (data_for c) ms),
         err_out := err_out r @ concat (map (stderr_for c) ms)\<rparr>) \<and>
    fst (relay_channel_output c sig (map (Inr \<circ> Received) (ms @ [Error c text]) @ later) r) =
      Some (Inl (if text = OWNER_STOPPING_NOT_STARTED then CommandNotStarted else ClientError (Bail text)))"
  using relay_steps [OF assms] by (simp del: map_map)

theorem relay_is_faithful_witness:
  "relay_channel_output 1 0 (map (Inr \<circ> Received) [Data 1 ''a'', Data 2 ''x'', Stderr 1 ''e'', Data 1 ''b'', ExitStatus 1 3])
     \<lparr>out = [], err_out = [], sent = []\<rparr> = (Some (Inr 3), \<lparr>out = ''ab'', err_out = ''e'', sent = []\<rparr>)"
  using relay_is_faithful [of "[Data 1 ''a'', Data 2 ''x'', Stderr 1 ''e'', Data 1 ''b'']" 1 0 3 "[]"
      "\<lparr>out = [], err_out = [], sent = []\<rparr>" "''''"]
  by simp

lemma run_attempts_result:
  assumes "attempt \<le> NOT_STARTED_ATTEMPTS"
  shows "\<exists>n. run_attempts f attempt = (f n, n) \<and> attempt \<le> n \<and> n \<le> NOT_STARTED_ATTEMPTS \<and>
    (\<forall>k. attempt \<le> k \<and> k < n \<longrightarrow> f k = Inl CommandNotStarted) \<and>
    (f n = Inl CommandNotStarted \<longrightarrow> n = NOT_STARTED_ATTEMPTS)"
  using assms
proof (induction f attempt rule: run_attempts.induct)
  case (1 f a)
  show ?case
  proof (cases "f a = Inl CommandNotStarted \<and> a < NOT_STARTED_ATTEMPTS")
    case True
    with "1" obtain n where n: "run_attempts f (a + 1) = (f n, n)" "a + 1 \<le> n" "n \<le> NOT_STARTED_ATTEMPTS"
      "\<forall>k. a + 1 \<le> k \<and> k < n \<longrightarrow> f k = Inl CommandNotStarted"
      "f n = Inl CommandNotStarted \<longrightarrow> n = NOT_STARTED_ATTEMPTS" by auto
    have "f k = Inl CommandNotStarted" if "a \<le> k" "k < n" for k
      using that n(4) True by (cases "k = a") auto
    with True n show ?thesis by (intro exI [of _ n], subst run_attempts.simps) simp
  next
    case False
    with "1.prems" show ?thesis by (intro exI [of _ a], subst run_attempts.simps) auto
  qed
qed

text \<open>C26: running a command ends after at most three attempts; an attempt is repeated only when the
  previous one never started, and the result is that of the last attempt.\<close>

theorem run_retries_only_unstarted:
  "\<exists>n. run f = (f n, n) \<and> 1 \<le> n \<and> n \<le> 3 \<and> (\<forall>k. 1 \<le> k \<and> k < n \<longrightarrow> f k = Inl CommandNotStarted) \<and>
     (f n = Inl CommandNotStarted \<longrightarrow> n = 3)"
  using run_attempts_result [of 1 f] by (simp add: run_def NOT_STARTED_ATTEMPTS_def)

definition second_works :: "nat \<Rightarrow> client_error + int" where
  "second_works n = (if n = 1 then Inl CommandNotStarted else Inr 0)"

theorem run_retries_only_unstarted_witness: "run second_works = (Inr 0, 2)"
proof -
  have f: "second_works 1 = Inl CommandNotStarted" "second_works 2 = Inr 0"
    by (simp_all add: second_works_def)
  obtain n where n: "run second_works = (second_works n, n)" "1 \<le> n" "n \<le> 3"
    "\<forall>k. 1 \<le> k \<and> k < n \<longrightarrow> second_works k = Inl CommandNotStarted"
    "second_works n = Inl CommandNotStarted \<longrightarrow> n = 3"
    using run_retries_only_unstarted [of second_works] by (elim exE conjE) (rule that)
  have "n \<noteq> 3" using n(4) [rule_format, of 2] f(2) by auto
  moreover have "n \<noteq> 1" using n(5) f(1) by auto
  ultimately have "n = 2" using n(2,3) by simp
  with n(1) f show ?thesis by simp
qed

end
