(* ===== verification/Forward.thy ===== *)
theory Forward
  imports Prelude
begin

text \<open>A forwarded port (\<open>PortForward\<close> of \<open>src/runner.rs\<close>): where the host listens and where the guest is
  reached. The launch configuration names forwards and the broker serves them.\<close>

record PortForward =
  listen_host :: string
  listen_port :: nat
  guest_host :: string
  guest_port :: nat

end
