(* ===== verification/Broker.thy ===== *)
theory Broker
  imports Protocol World Machine Forward
begin

text \<open>
  The VM owner's broker (\<open>src/src/runner/broker.rs\<close>) and the owner's loop around it
  (\<open>run_broker_owner\<close> in \<open>src/src/runner.rs\<close>). The state shared by the owner's threads is one
  record; every method is one step of it, except where the source gives up the channel table's lock
  in the middle: closing a channel takes it out of the table first and releases its share of activity
  afterwards, and delivering a message looks the channel up first and sends afterwards.

  The check for a stopping owner in front of a new forward is not under that lock either.

  A channel table is an association list in no particular order. The counters are 64-bit and wrap
  around. A message sent to a client thread is recorded with the sender's identity, a message to the
  guest agent in the order of the agent's queue. No step panics, so no lock is ever poisoned.
\<close>

subsection \<open>State\<close>

record BrokerChannel =
  tx :: nat
  counts_as_active :: bool

datatype ChannelAdmission = Opened | Stopping | Collision

record IdleStatus =
  idle_busy :: bool
  idle_pending :: bool
  idle_seen_active :: bool

datatype CaptureJob = CheckpointJob string | SnapshotExitJob nat | Finish

record BrokerState =
  channels :: "(nat \<times> BrokerChannel) list"
  stopping :: bool
  active :: nat
  pending :: nat
  seen_active :: bool
  kept_running :: bool
  awake_until :: "nat option"
  first_client_deadline :: "nat option"
  auto_forward_ports :: "(string \<times> nat) set"
  user_forwards :: "(string \<times> nat) \<Rightarrow> (string \<times> nat) option"
  agent_queue :: "Message list"
  agent_alive :: bool
  inbox :: "(nat \<times> Message) list"
  listeners :: "PortForward list"
  capture_jobs :: "CaptureJob list"
  capture_worker_alive :: bool

definition U64 :: nat where
  "U64 = 2 ^ 64"

definition fetch_add :: "nat \<Rightarrow> nat \<Rightarrow> nat" where
  "fetch_add a n = (a + n) mod U64"

definition fetch_sub :: "nat \<Rightarrow> nat \<Rightarrow> nat" where
  "fetch_sub a n = (a + (U64 - n mod U64)) mod U64"

definition FORWARD_LINGER :: nat where
  "FORWARD_LINGER = 60 * 10 ^ 9"

definition FIRST_CLIENT_GRACE :: nat where
  "FIRST_CLIENT_GRACE = 10 * 10 ^ 9"

definition new_broker :: "bool \<Rightarrow> nat \<Rightarrow> BrokerState" where
  "new_broker starts_idle now =
     \<lparr>channels = [], stopping = False, active = 0, pending = 0, seen_active = starts_idle,
      kept_running = False, awake_until = None, first_client_deadline = Some (now + FIRST_CLIENT_GRACE),
      auto_forward_ports = {}, user_forwards = (\<lambda>_. None), agent_queue = [], agent_alive = True,
      inbox = [], listeners = [], capture_jobs = [], capture_worker_alive = True\<rparr>"

subsection \<open>Sending to the agent\<close>

definition agent_send :: "Message \<Rightarrow> BrokerState \<Rightarrow> bool \<times> BrokerState" where
  "agent_send message b =
     (if agent_alive b then (True, b\<lparr>agent_queue := agent_queue b @ [message]\<rparr>) else (False, b))"

definition unless_stopping :: "(BrokerState \<Rightarrow> 'a \<times> BrokerState) \<Rightarrow> BrokerState \<Rightarrow> 'a option \<times> BrokerState" where
  "unless_stopping action b =
     (if stopping b then (None, b) else (case action b of (x, b') \<Rightarrow> (Some x, b')))"

definition send_to_agent :: "Message \<Rightarrow> BrokerState \<Rightarrow> (err + bool) \<times> BrokerState" where
  "send_to_agent message b =
     (case unless_stopping (agent_send message) b of
        (Some True, b') \<Rightarrow> (Inr True, b')
      | (Some False, b') \<Rightarrow> (Inl (Bail ''guest agent writer has stopped''), b')
      | (None, b') \<Rightarrow> (Inr False, b'))"

definition contains_channel :: "nat \<Rightarrow> BrokerState \<Rightarrow> bool" where
  "contains_channel channel_id b \<longleftrightarrow> map_of (channels b) channel_id \<noteq> None"

definition send_to_agent_on :: "nat \<Rightarrow> Message \<Rightarrow> BrokerState \<Rightarrow> bool \<times> BrokerState" where
  "send_to_agent_on channel_id message b =
     (if \<not> stopping b \<and> contains_channel channel_id b then agent_send message b else (False, b))"

subsection \<open>Channels\<close>

text \<open>\<open>prepare\<close> and \<open>before_dispatch\<close> work on the disk of the owner; they may fail, and the owner may
  die in them.\<close>

definition open_channel ::
  "unit M \<Rightarrow> unit M \<Rightarrow> nat \<Rightarrow> BrokerChannel \<Rightarrow> Message \<Rightarrow> BrokerState \<Rightarrow> env \<Rightarrow> sys \<Rightarrow>
   ChannelAdmission res \<times> BrokerState \<times> sys" where
  "open_channel prepare before_dispatch channel_id channel open_message b e s =
     (if stopping b then (Ok Stopping, b, s)
      else if contains_channel channel_id b then (Ok Collision, b, s)
      else
        (case bind prepare (\<lambda>_. before_dispatch) e s of
           (Killed, s') \<Rightarrow> (Killed, b, s')
         | (Err x, s') \<Rightarrow> (Err x, b, s')
         | (Ok _, s') \<Rightarrow>
             let b1 = b\<lparr>active := (if counts_as_active channel then fetch_add (active b) 1 else active b),
                        seen_active := True, first_client_deadline := None,
                        channels := (channel_id, channel) # channels b\<rparr> in
             (case agent_send open_message b1 of
                (True, b2) \<Rightarrow> (Ok Opened, b2, s')
              | (False, b2) \<Rightarrow>
                  (Err (Bail ''send channel open to agent''),
                   b2\<lparr>channels := AList.delete channel_id (channels b2),
                      active := (if counts_as_active channel then fetch_sub (active b2) 1 else active b2)\<rparr>,
                   s'))))"

definition remove_channel :: "nat \<Rightarrow> BrokerState \<Rightarrow> BrokerChannel option \<times> BrokerState" where
  "remove_channel channel_id b =
     (map_of (channels b) channel_id, b\<lparr>channels := AList.delete channel_id (channels b)\<rparr>)"

definition release :: "nat \<Rightarrow> BrokerState \<Rightarrow> BrokerState" where
  "release n b = b\<lparr>active := fetch_sub (active b) n\<rparr>"

definition close_channel :: "nat \<Rightarrow> BrokerState \<Rightarrow> BrokerState" where
  "close_channel channel_id b =
     (case remove_channel channel_id b of
        (Some channel, b') \<Rightarrow> if counts_as_active channel then release 1 b' else b'
      | (None, b') \<Rightarrow> b')"

definition tell :: "nat \<Rightarrow> Message \<Rightarrow> BrokerState \<Rightarrow> BrokerState" where
  "tell to message b = b\<lparr>inbox := inbox b @ [(to, message)]\<rparr>"

fun closes :: "Message \<Rightarrow> bool" where
  "closes (Close _) \<longleftrightarrow> True"
| "closes _ \<longleftrightarrow> False"

definition deliver_to_client :: "nat \<Rightarrow> Message \<Rightarrow> BrokerState \<Rightarrow> BrokerState" where
  "deliver_to_client channel_id message b =
     (let b' = (case map_of (channels b) channel_id of
                  Some channel \<Rightarrow> tell (tx channel) message b
                | None \<Rightarrow> b)
      in if closes message then close_channel channel_id b' else b')"

definition counted :: "(nat \<times> BrokerChannel) list \<Rightarrow> nat" where
  "counted cs = length (filter (\<lambda>(_, channel). counts_as_active channel) cs)"

definition drain_locked :: "string option \<Rightarrow> BrokerState \<Rightarrow> nat \<times> BrokerState" where
  "drain_locked message b =
     (let drained = channels b;
          released = counted drained;
          errors = (case message of
                      None \<Rightarrow> []
                    | Some m \<Rightarrow> map (\<lambda>(channel_id, channel). (tx channel, Error channel_id m)) drained);
          b' = b\<lparr>channels := [], inbox := inbox b @ errors\<rparr> in
      (released, if released > 0 then release released b' else b'))"

definition drain :: "string option \<Rightarrow> BrokerState \<Rightarrow> nat \<times> BrokerState" where
  "drain message b = drain_locked message b"

fun send_closes :: "nat list \<Rightarrow> BrokerState \<Rightarrow> BrokerState" where
  "send_closes [] b = b"
| "send_closes (channel_id # cs) b = send_closes cs (snd (agent_send (Close channel_id) b))"

definition begin_shutdown :: "string \<Rightarrow> BrokerState \<Rightarrow> nat \<times> BrokerState" where
  "begin_shutdown message b =
     drain_locked (Some message) (send_closes (map fst (channels b)) (b\<lparr>stopping := True\<rparr>))"

subsection \<open>Activity\<close>

definition hold_awake :: "BrokerState \<Rightarrow> BrokerState" where
  "hold_awake b = b\<lparr>active := fetch_add (active b) 1, seen_active := True\<rparr>"

definition drop_activity_guard :: "BrokerState \<Rightarrow> BrokerState" where
  "drop_activity_guard b = b\<lparr>active := fetch_sub (active b) 1\<rparr>"

definition pending_connection :: "BrokerState \<Rightarrow> BrokerState" where
  "pending_connection b = b\<lparr>pending := fetch_add (pending b) 1\<rparr>"

definition drop_pending_connection :: "BrokerState \<Rightarrow> BrokerState" where
  "drop_pending_connection b = b\<lparr>pending := fetch_sub (pending b) 1\<rparr>"

definition keep_running :: "BrokerState \<Rightarrow> BrokerState" where
  "keep_running b = b\<lparr>seen_active := True, kept_running := True\<rparr>"

definition keep_awake_for :: "nat \<Rightarrow> nat \<Rightarrow> BrokerState \<Rightarrow> BrokerState" where
  "keep_awake_for now duration b =
     b\<lparr>awake_until := Some (case awake_until b of
          None \<Rightarrow> now + duration | Some current \<Rightarrow> max current (now + duration))\<rparr>"

definition passed :: "nat \<Rightarrow> nat option \<Rightarrow> bool" where
  "passed now t = (case t of None \<Rightarrow> True | Some u \<Rightarrow> u \<le> now)"

definition busy_now :: "nat \<Rightarrow> BrokerState \<Rightarrow> bool" where
  "busy_now now b \<longleftrightarrow> active b > 0 \<or> \<not> passed now (awake_until b) \<or> kept_running b"

definition pending_now :: "nat \<Rightarrow> BrokerState \<Rightarrow> BrokerState \<Rightarrow> bool" where
  "pending_now now b1 b2 \<longleftrightarrow> pending b2 > 0 \<or> \<not> passed now (first_client_deadline b1)"

text \<open>The fields of the status are read one after the other: what makes the owner busy in the state
  \<open>b1\<close>, the pending connections in the possibly later state \<open>b2\<close>.\<close>

definition idle_status_between :: "nat \<Rightarrow> BrokerState \<Rightarrow> BrokerState \<Rightarrow> IdleStatus" where
  "idle_status_between now b1 b2 =
     \<lparr>idle_busy = busy_now now b1, idle_pending = pending_now now b1 b2, idle_seen_active = seen_active b2\<rparr>"

definition idle_status :: "nat \<Rightarrow> BrokerState \<Rightarrow> IdleStatus" where
  "idle_status now b = idle_status_between now b b"

subsection \<open>Forwarded ports\<close>

definition host_addr :: "PortForward \<Rightarrow> string \<times> nat" where
  "host_addr f = (listen_host f, listen_port f)"

definition guest_addr :: "PortForward \<Rightarrow> string \<times> nat" where
  "guest_addr f = (guest_host f, guest_port f)"

text \<open>Binding fails when the system says so or when this owner listens there already.\<close>

definition start_forward_listener ::
  "(string \<times> nat \<Rightarrow> bool) \<Rightarrow> PortForward \<Rightarrow> BrokerState \<Rightarrow> (err + unit) \<times> BrokerState" where
  "start_forward_listener can_bind f b =
     (if can_bind (host_addr f) \<and> host_addr f \<notin> host_addr ` set (listeners b)
      then (Inr (), b\<lparr>listeners := f # listeners b\<rparr>)
      else (Inl (Bail ''listen on the host port''), b))"

definition ensure_auto_forward_port ::
  "(string \<times> nat \<Rightarrow> bool) \<Rightarrow> string \<Rightarrow> nat \<Rightarrow> BrokerState \<Rightarrow> (err + bool) \<times> BrokerState" where
  "ensure_auto_forward_port can_bind host port b =
     (if port \<le> 1024 \<or> stopping b then (Inr False, b)
      else if (host, port) \<in> auto_forward_ports b then (Inr False, b)
      else
        let b1 = b\<lparr>auto_forward_ports := insert (host, port) (auto_forward_ports b)\<rparr>;
            f = \<lparr>listen_host = host, listen_port = port, guest_host = host, guest_port = port\<rparr> in
        (case start_forward_listener can_bind f b1 of
           (Inl e, b2) \<Rightarrow> (Inl e, b2\<lparr>auto_forward_ports := auto_forward_ports b2 - {(host, port)}\<rparr>)
         | (Inr _, b2) \<Rightarrow> (Inr True, b2)))"

definition reserve_forward_port :: "PortForward \<Rightarrow> BrokerState \<Rightarrow> BrokerState" where
  "reserve_forward_port f b =
     (if listen_host f = ''127.0.0.1'' \<and> listen_port f > 1024
      then b\<lparr>auto_forward_ports := insert (host_addr f) (auto_forward_ports b)\<rparr> else b)"

definition add_user_forward ::
  "(string \<times> nat \<Rightarrow> bool) \<Rightarrow> PortForward \<Rightarrow> BrokerState \<Rightarrow> (err + unit) \<times> BrokerState" where
  "add_user_forward can_bind f b =
     (if stopping b then (Inl (Bail OWNER_STOPPING_NOT_STARTED), b)
      else
        (case user_forwards b (host_addr f) of
           Some existing \<Rightarrow>
             if existing = guest_addr f then (Inr (), b)
             else (Inl (Bail ''already forwarded elsewhere''), b)
         | None \<Rightarrow>
             if host_addr f \<in> auto_forward_ports b then
               if guest_port f \<noteq> listen_port f \<or> guest_host f \<noteq> listen_host f
               then (Inl (Bail ''already forwarded: the guest listens there''), b)
               else (Inr (), b\<lparr>user_forwards := (user_forwards b)(host_addr f \<mapsto> guest_addr f)\<rparr>)
             else
               (case start_forward_listener can_bind f (reserve_forward_port f b) of
                  (Inl e, b2) \<Rightarrow> (Inl e, b2)
                | (Inr _, b2) \<Rightarrow>
                    (Inr (), b2\<lparr>user_forwards := (user_forwards b2)(host_addr f \<mapsto> guest_addr f)\<rparr>))))"

subsection \<open>Serving a client\<close>

definition queue_capture :: "CaptureJob \<Rightarrow> BrokerState \<Rightarrow> bool \<times> BrokerState" where
  "queue_capture job b =
     (if capture_worker_alive b then (True, b\<lparr>capture_jobs := capture_jobs b @ [job]\<rparr>) else (False, b))"

text \<open>The handshake: the stream a client sent in, and the first request with what the broker answered
  so far. A client of another protocol is let go without an error.\<close>

datatype handshake = FirstMessage Message string string | OtherProtocol nat

definition client_handshake :: "wire \<Rightarrow> string \<Rightarrow> err + handshake" where
  "client_handshake W stream =
     (case read_message W stream of
        Inl e \<Rightarrow> Inl e
      | Inr (m, rest) \<Rightarrow>
          (case m of
             Hello v \<Rightarrow>
               if v = PROTOCOL_VERSION then
                 (case write_message W [] (Hello PROTOCOL_VERSION) of
                    Inl e \<Rightarrow> Inl e
                  | Inr hello \<Rightarrow>
                      (case read_message W rest of
                         Inl e \<Rightarrow> Inl e
                       | Inr (first, rest') \<Rightarrow> Inr (FirstMessage first rest' hello)))
               else Inr (OtherProtocol v)
           | _ \<Rightarrow> Inl (Bail ''bad client hello'')))"

text \<open>What the first message of a client leads to. \<open>answer\<close> is what a queued checkpoint comes back
  with, \<open>parses\<close> whether a checkpoint request is readable.\<close>

datatype first_outcome =
    Answered Message
  | Serving nat
  | Refused err

definition forward_of :: "string \<Rightarrow> nat \<Rightarrow> string \<Rightarrow> nat \<Rightarrow> PortForward" where
  "forward_of lh lp gh gp =
     \<lparr>listen_host = lh, listen_port = lp, guest_host = gh, guest_port = gp\<rparr>"

definition open_client_channel ::
  "unit M \<Rightarrow> unit M \<Rightarrow> nat \<Rightarrow> nat \<Rightarrow> Message \<Rightarrow> BrokerState \<Rightarrow> env \<Rightarrow> sys \<Rightarrow> first_outcome res \<times> BrokerState \<times> sys" where
  "open_client_channel prepare before_dispatch my_tx channel_id message b e s =
     (case open_channel prepare before_dispatch channel_id \<lparr>tx = my_tx, counts_as_active = True\<rparr> message b e s of
        (Ok Opened, b', s') \<Rightarrow> (Ok (Serving channel_id), b', s')
      | (Ok Stopping, b', s') \<Rightarrow> (Ok (Answered (Error channel_id OWNER_STOPPING_NOT_STARTED)), b', s')
      | (Ok Collision, b', s') \<Rightarrow> (Ok (Answered (Error channel_id ''channel id collision'')), b', s')
      | (Err x, b', s') \<Rightarrow> (Err x, b', s')
      | (Killed, b', s') \<Rightarrow> (Killed, b', s'))"

definition serve_first_message ::
  "(string \<times> nat \<Rightarrow> bool) \<Rightarrow> unit M \<Rightarrow> unit M \<Rightarrow> bool \<Rightarrow> (string + unit) option \<Rightarrow> nat \<Rightarrow> Message \<Rightarrow>
   BrokerState \<Rightarrow> env \<Rightarrow> sys \<Rightarrow> first_outcome res \<times> BrokerState \<times> sys" where
  "serve_first_message can_bind prepare before_dispatch parses answer my_tx first b e s =
     (case first of
        AddForward channel_id lh lp gh gp \<Rightarrow>
          (case add_user_forward can_bind (forward_of lh lp gh gp) b of
             (Inr _, b') \<Rightarrow> (Ok (Answered (ForwardAdded channel_id)), b', s)
           | (Inl (Bail m), b') \<Rightarrow> (Ok (Answered (Error channel_id m)), b', s)
           | (Inl _, b') \<Rightarrow> (Ok (Answered (Error channel_id ''error'')), b', s))
      | KeepRunning channel_id \<Rightarrow>
          (case unless_stopping (\<lambda>b. ((), keep_running b)) b of
             (Some _, b') \<Rightarrow> (Ok (Answered (KeepingRunning channel_id)), b', s)
           | (None, b') \<Rightarrow> (Ok (Answered (Error channel_id OWNER_STOPPING_NOT_STARTED)), b', s))
      | CheckpointRequested channel_id request \<Rightarrow>
          if \<not> parses then (Err (Bail ''parse checkpoint request''), b, s)
          else
            (case unless_stopping (queue_capture (CheckpointJob request)) b of
               (None, b') \<Rightarrow> (Ok (Answered (Error channel_id OWNER_STOPPING)), b', s)
             | (Some False, b') \<Rightarrow> (Err (Bail ''queue checkpoint capture''), b', s)
             | (Some True, b') \<Rightarrow>
                 (case answer of
                    None \<Rightarrow> (Err (Bail ''receive checkpoint result''), b', s)
                  | Some (Inr _) \<Rightarrow> (Ok (Answered (CheckpointCreated channel_id)), b', s)
                  | Some (Inl m) \<Rightarrow> (Ok (Answered (Error channel_id m)), b', s)))
      | OpenExec channel_id _ _ _ _ _ _ _ _ _ _ _ \<Rightarrow>
          open_client_channel prepare before_dispatch my_tx channel_id first b e s
      | OpenTcp channel_id _ _ \<Rightarrow>
          open_client_channel (ret ()) before_dispatch my_tx channel_id first b e s
      | _ \<Rightarrow> (Err (Bail ''client did not open a channel''), b, s))"

text \<open>One message of a client whose channel is open: whether the connection goes on. \<open>None\<close> stands
  for a client that is gone.\<close>

definition serve_next_message :: "nat \<Rightarrow> Message option \<Rightarrow> BrokerState \<Rightarrow> bool \<times> BrokerState" where
  "serve_next_message channel_id received b =
     (case received of
        None \<Rightarrow> (False, snd (send_to_agent_on channel_id (Close channel_id) b))
      | Some message \<Rightarrow>
          (case send_to_agent message b of
             (Inr True, b') \<Rightarrow> (True, b')
           | (Inr False, b') \<Rightarrow> (False, b')
           | (Inl _, b') \<Rightarrow> (False, close_channel channel_id b')))"

text \<open>A forwarded connection holds the VM awake for its whole life, and a while longer.\<close>

definition forward_connection_opens ::
  "unit M \<Rightarrow> nat \<Rightarrow> nat \<Rightarrow> PortForward \<Rightarrow> BrokerState \<Rightarrow> env \<Rightarrow> sys \<Rightarrow> bool res \<times> BrokerState \<times> sys" where
  "forward_connection_opens before_dispatch my_tx channel_id f b e s =
     (if stopping b then (Ok False, b, s)
      else
        (case open_channel (ret ()) before_dispatch channel_id \<lparr>tx = my_tx, counts_as_active = False\<rparr>
                (OpenTcp channel_id (guest_host f) (guest_port f)) (hold_awake b) e s of
           (Ok Opened, b', s') \<Rightarrow> (Ok True, b', s')
         | (Ok _, b', s') \<Rightarrow> (Ok False, drop_activity_guard b', s')
         | (Err x, b', s') \<Rightarrow> (Err x, drop_activity_guard b', s')
         | (Killed, b', s') \<Rightarrow> (Killed, b', s')))"

text \<open>What reading the local end of a forwarded connection comes to, and the copying of it to the
  guest; \<open>None\<close> when the reads seen so far do not end it.\<close>

datatype local_read = LocalEof | LocalBytes string | LocalInterrupted | LocalWouldBlock | LocalError

fun forward_input :: "nat \<Rightarrow> local_read list \<Rightarrow> BrokerState \<Rightarrow> BrokerState option" where
  "forward_input channel_id [] b = None"
| "forward_input channel_id (r # rs) b =
     (if stopping b then Some b
      else
        (case r of
           LocalEof \<Rightarrow> Some (snd (send_to_agent_on channel_id (Eof channel_id) b))
         | LocalBytes bytes \<Rightarrow>
             (case send_to_agent_on channel_id (Data channel_id bytes) b of
                (True, b') \<Rightarrow> forward_input channel_id rs b'
              | (False, b') \<Rightarrow> Some b')
         | LocalInterrupted \<Rightarrow> forward_input channel_id rs b
         | LocalWouldBlock \<Rightarrow> forward_input channel_id rs b
         | LocalError \<Rightarrow> Some (snd (send_to_agent_on channel_id (Close channel_id) b))))"

text \<open>The other direction: the bytes written to the local end, whether its write side was shut, and
  the result. \<open>room\<close> is how many writes succeed before one fails.\<close>

record local_end =
  local_written :: string
  local_shut :: bool

fun forward_output :: "nat \<Rightarrow> nat \<Rightarrow> Message list \<Rightarrow> local_end \<Rightarrow> (err + unit) \<times> local_end" where
  "forward_output channel_id room [] l = (Inr (), l)"
| "forward_output channel_id room (m # ms) l =
     (case m of
        Data i bytes \<Rightarrow>
          if i = channel_id then
            if room = 0 then (Inr (), l)
            else forward_output channel_id (room - 1) ms (l\<lparr>local_written := local_written l @ bytes\<rparr>)
          else forward_output channel_id room ms l
      | Eof i \<Rightarrow>
          if i = channel_id then forward_output channel_id room ms (l\<lparr>local_shut := True\<rparr>)
          else forward_output channel_id room ms l
      | Close i \<Rightarrow> if i = channel_id then (Inr (), l) else forward_output channel_id room ms l
      | Error i t \<Rightarrow> if i = channel_id then (Inl (Bail t), l) else forward_output channel_id room ms l
      | _ \<Rightarrow> forward_output channel_id room ms l)"

definition forward_connection_ends :: "nat \<Rightarrow> nat \<Rightarrow> BrokerState \<Rightarrow> BrokerState" where
  "forward_connection_ends channel_id now b =
     drop_activity_guard (keep_awake_for now FORWARD_LINGER
       (close_channel channel_id (snd (send_to_agent_on channel_id (Close channel_id) b))))"

subsection \<open>Messages of the guest agent\<close>

fun agent_channel :: "Message \<Rightarrow> nat option" where
  "agent_channel (Data i _) = Some i"
| "agent_channel (Stderr i _) = Some i"
| "agent_channel (Eof i) = Some i"
| "agent_channel (ExitStatus i _) = Some i"
| "agent_channel (Close i) = Some i"
| "agent_channel (Error i _) = Some i"
| "agent_channel _ = None"

fun forward_listeners :: "(string \<times> nat \<Rightarrow> bool) \<Rightarrow> nat list \<Rightarrow> BrokerState \<Rightarrow> BrokerState" where
  "forward_listeners can_bind [] b = b"
| "forward_listeners can_bind (port # ports) b =
     forward_listeners can_bind ports
       (if port > 1024 then snd (ensure_auto_forward_port can_bind ''127.0.0.1'' port b) else b)"

text \<open>\<open>target\<close> is the local port a URL names, if it does, and \<open>opened\<close> whether the host's browser
  opened it.\<close>

definition route_agent_message ::
  "(string \<times> nat \<Rightarrow> bool) \<Rightarrow> (string \<times> nat) option \<Rightarrow> bool \<Rightarrow> Message \<Rightarrow> BrokerState \<Rightarrow> BrokerState" where
  "route_agent_message can_bind target opened message b =
     (case message of
        SnapshotExitRequested channel_id \<Rightarrow> snd (queue_capture (SnapshotExitJob channel_id) b)
      | OpenUrl channel_id _ \<Rightarrow>
          if stopping b then b
          else
            let b1 = (case target of
                        Some (host, port) \<Rightarrow> snd (ensure_auto_forward_port can_bind host port b)
                      | None \<Rightarrow> b)
            in snd (send_to_agent (OpenUrlResult channel_id opened) b1)
      | PortListeners ports \<Rightarrow> if stopping b then b else forward_listeners can_bind ports b
      | _ \<Rightarrow>
          (case agent_channel message of
             None \<Rightarrow> b
           | Some channel_id \<Rightarrow> deliver_to_client channel_id message b))"

text \<open>The end of the agent's connection: channels fail with an error unless the final snapshot has
  begun. The second component says that the agent failed before it.\<close>

definition agent_reader_ends :: "bool \<Rightarrow> string \<Rightarrow> BrokerState \<Rightarrow> bool \<times> BrokerState" where
  "agent_reader_ends snapshot_started text b =
     (\<not> snapshot_started,
      snd (drain (if snapshot_started then None
                  else Some (''guest agent disconnected before command completed: '' @ text)) b))"

definition localhost_url_forward :: "string \<Rightarrow> (string \<times> nat) option" where
  "localhost_url_forward url =
     (case find_sub ''://'' url of
        None \<Rightarrow> None
      | Some i \<Rightarrow>
          let scheme = take i url; rest = drop (i + 3) url;
              authority = takeWhile (\<lambda>c. c \<notin> {CHR ''/'', CHR ''?'', CHR ''#''}) rest in
          if scheme \<noteq> ''http'' \<and> scheme \<noteq> ''https'' then None
          else if CHR ''@'' \<in> set authority then None
          else
            (case strip_prefix authority ''['' of
               Some rest' \<Rightarrow>
                 (case split_once (CHR '']'') rest' of
                    None \<Rightarrow> None
                  | Some (host, tail) \<Rightarrow>
                      if host \<noteq> ''::1'' then None
                      else
                        (case strip_prefix tail '':'' of
                           None \<Rightarrow> None
                         | Some port \<Rightarrow> map_option (\<lambda>n. (''::1'', n)) (parse_uint 65535 port)))
             | None \<Rightarrow>
                 (case rsplit_once (CHR '':'') authority of
                    None \<Rightarrow> None
                  | Some (host, port) \<Rightarrow>
                      if CHR '':'' \<in> set host \<or> host \<notin> {''localhost'', ''127.0.0.1''} then None
                      else map_option (\<lambda>n. (''127.0.0.1'', n)) (parse_uint 65535 port))))"

subsection \<open>The owner's loop\<close>

datatype accepted = Client | WouldBlock | AcceptFailed

datatype decision = Continue | Break

text \<open>One turn of the loop: the decision and the new deadline for idling out.\<close>

definition owner_turn ::
  "bool \<Rightarrow> accepted \<Rightarrow> bool \<Rightarrow> IdleStatus \<Rightarrow> nat \<Rightarrow> nat \<Rightarrow> nat option \<Rightarrow> decision \<times> nat option" where
  "owner_turn shutdown_requested accept agent_failed status now ttl idle_deadline =
     (if shutdown_requested then (Break, idle_deadline)
      else
        (case accept of
           Client \<Rightarrow> (Continue, idle_deadline)
         | AcceptFailed \<Rightarrow> (Break, idle_deadline)
         | WouldBlock \<Rightarrow>
             if agent_failed then (Break, idle_deadline)
             else if idle_busy status then (Continue, None)
             else if idle_seen_active status then
               let deadline = (case idle_deadline of Some d \<Rightarrow> d | None \<Rightarrow> now + ttl) in
               if deadline \<le> now \<and> \<not> idle_pending status then (Break, Some deadline)
               else (Continue, Some deadline)
             else (Continue, idle_deadline)))"

text \<open>The loop over the turns it takes, up to the one that breaks it.\<close>

record turn_view =
  t_shutdown :: bool
  t_accept :: accepted
  t_agent_failed :: bool
  t_status :: IdleStatus
  t_now :: nat

definition turn_of :: "nat \<Rightarrow> nat option \<Rightarrow> turn_view \<Rightarrow> decision \<times> nat option" where
  "turn_of ttl idle_deadline t =
     owner_turn (t_shutdown t) (t_accept t) (t_agent_failed t) (t_status t) (t_now t) ttl idle_deadline"

fun owner_loop :: "nat \<Rightarrow> nat option \<Rightarrow> turn_view list \<Rightarrow> turn_view option" where
  "owner_loop ttl idle_deadline [] = None"
| "owner_loop ttl idle_deadline (t # ts) =
     (case turn_of ttl idle_deadline t of
        (Break, _) \<Rightarrow> Some t
      | (Continue, idle_deadline') \<Rightarrow> owner_loop ttl idle_deadline' ts)"

definition DEFAULT_OWNER_IDLE_TTL_MS :: nat where
  "DEFAULT_OWNER_IDLE_TTL_MS = 5000"

definition MIN_OWNER_IDLE_TTL_MS :: nat where
  "MIN_OWNER_IDLE_TTL_MS = 250"

definition owner_idle_ttl_from_env :: "string option \<Rightarrow> nat" where
  "owner_idle_ttl_from_env value =
     max MIN_OWNER_IDLE_TTL_MS
       (case value of
          None \<Rightarrow> DEFAULT_OWNER_IDLE_TTL_MS
        | Some v \<Rightarrow>
            (case parse_uint (2 ^ 64 - 1) v of None \<Rightarrow> DEFAULT_OWNER_IDLE_TTL_MS | Some n \<Rightarrow> n))"

end
