(* ===== verification/BrokerProps.thy ===== *)
theory BrokerProps
  imports Broker
begin

text \<open>The broker as a machine: the steps of all the owner's threads in any order, the bookkeeping of
  activity they keep, the barrier before the final snapshot, and when the owner stops.\<close>

subsection \<open>Threads\<close>

text \<open>What the threads hold between their steps: activity guards, connections that have not opened a
  channel, closed channels whose share of activity is not released yet, and messages looked up but not
  yet sent.\<close>

record owner =
  broker :: BrokerState
  guards :: nat
  conns :: nat
  owed :: nat
  inflight :: "(nat \<times> Message) list"

fun from_capture :: "Message \<Rightarrow> bool" where
  "from_capture (SetClock _) \<longleftrightarrow> True"
| "from_capture (CheckpointCreated _) \<longleftrightarrow> True"
| "from_capture (Error _ _) \<longleftrightarrow> True"
| "from_capture SnapshotReady \<longleftrightarrow> True"
| "from_capture _ \<longleftrightarrow> False"

fun asks_checkpoint :: "CaptureJob \<Rightarrow> bool" where
  "asks_checkpoint (CheckpointJob _) \<longleftrightarrow> True"
| "asks_checkpoint _ \<longleftrightarrow> False"

text \<open>An operation whose check for a stopping owner was made earlier.\<close>

definition checked_early :: "(BrokerState \<Rightarrow> 'a \<times> BrokerState) \<Rightarrow> BrokerState \<Rightarrow> BrokerState" where
  "checked_early act b = (snd (act (b\<lparr>stopping := False\<rparr>)))\<lparr>stopping := stopping b\<rparr>"

definition share :: "BrokerChannel option \<Rightarrow> nat" where
  "share c = (case c of Some channel \<Rightarrow> if counts_as_active channel then 1 else 0 | None \<Rightarrow> 0)"

inductive broker_step :: "owner \<Rightarrow> owner \<Rightarrow> bool" where
  opens: "open_channel prepare dispatch i c m (broker w) e s = (r, b', s') \<Longrightarrow>
    broker_step w (w\<lparr>broker := b'\<rparr>)"
| removes: "remove_channel i (broker w) = (c, b') \<Longrightarrow>
    broker_step w (w\<lparr>broker := b', owed := owed w + share c\<rparr>)"
| releases: "0 < owed w \<Longrightarrow> broker_step w (w\<lparr>broker := release 1 (broker w), owed := owed w - 1\<rparr>)"
| looks_up: "map_of (channels (broker w)) i = Some c \<Longrightarrow>
    broker_step w (w\<lparr>inflight := (tx c, m) # inflight w\<rparr>)"
| delivers: "(t, m) \<in> set (inflight w) \<Longrightarrow>
    broker_step w (w\<lparr>broker := tell t m (broker w), inflight := remove1 (t, m) (inflight w)\<rparr>)"
| drains: "broker_step w (w\<lparr>broker := snd (drain text (broker w))\<rparr>)"
| shuts_down: "broker_step w (w\<lparr>broker := snd (begin_shutdown text (broker w))\<rparr>)"
| holds: "broker_step w (w\<lparr>broker := hold_awake (broker w), guards := guards w + 1\<rparr>)"
| drops_guard: "0 < guards w \<Longrightarrow>
    broker_step w (w\<lparr>broker := drop_activity_guard (broker w), guards := guards w - 1\<rparr>)"
| connects: "broker_step w (w\<lparr>broker := pending_connection (broker w), conns := conns w + 1\<rparr>)"
| drops_connection: "0 < conns w \<Longrightarrow>
    broker_step w (w\<lparr>broker := drop_pending_connection (broker w), conns := conns w - 1\<rparr>)"
| keeps_running: "broker_step w (w\<lparr>broker := snd (unless_stopping (\<lambda>b. ((), keep_running b)) (broker w))\<rparr>)"
| keeps_awake: "broker_step w (w\<lparr>broker := keep_awake_for now d (broker w)\<rparr>)"
| sends: "broker_step w (w\<lparr>broker := snd (send_to_agent m (broker w))\<rparr>)"
| sends_on: "broker_step w (w\<lparr>broker := snd (send_to_agent_on i m (broker w))\<rparr>)"
| captures: "from_capture m \<Longrightarrow> broker_step w (w\<lparr>broker := snd (agent_send m (broker w))\<rparr>)"
| agent_dies: "broker_step w (w\<lparr>broker := (broker w)\<lparr>agent_alive := False\<rparr>\<rparr>)"
| user_forwards: "broker_step w (w\<lparr>broker := checked_early (add_user_forward can_bind f) (broker w)\<rparr>)"
| auto_forwards: "broker_step w (w\<lparr>broker := checked_early (ensure_auto_forward_port can_bind h p) (broker w)\<rparr>)"
| asks_checkpoint: "broker_step w (w\<lparr>broker := snd (unless_stopping (queue_capture (CheckpointJob r)) (broker w))\<rparr>)"
| asks_snapshot: "broker_step w (w\<lparr>broker := snd (queue_capture (SnapshotExitJob i) (broker w))\<rparr>)"
| finishes: "stopping (broker w) \<Longrightarrow> broker_step w (w\<lparr>broker := snd (queue_capture Finish (broker w))\<rparr>)"

definition start_owner :: "bool \<Rightarrow> nat \<Rightarrow> owner" where
  "start_owner starts_idle now =
     \<lparr>broker = new_broker starts_idle now, guards = 0, conns = 0, owed = 0, inflight = []\<rparr>"

subsection \<open>Counting\<close>

lemma fetch_sub_mod: "fetch_sub ((y + n) mod U64) n = y mod U64"
proof -
  have "n mod U64 < U64" by (simp add: U64_def)
  then have "n mod U64 + (U64 - n mod U64) = U64" by simp
  moreover have "n = n mod U64 + U64 * (n div U64)" by simp
  ultimately have e: "y + n + (U64 - n mod U64) = y + U64 * (n div U64 + 1)"
    by (metis add.assoc add.commute distrib_left nat_mult_1_right)
  have "fetch_sub ((y + n) mod U64) n = (y + n + (U64 - n mod U64)) mod U64"
    unfolding fetch_sub_def by (rule mod_add_left_eq)
  also have "\<dots> = y mod U64" unfolding e by (rule mod_mult_self2)
  finally show ?thesis .
qed

lemma fetch_add_mod: "fetch_add (y mod U64) n = (y + n) mod U64"
  unfolding fetch_add_def by (rule mod_add_left_eq)

lemma counted_Nil [simp]: "counted [] = 0"
  by (simp add: counted_def)

lemma counted_Cons [simp]: "counted ((i, c) # cs) = (if counts_as_active c then 1 else 0) + counted cs"
  by (simp add: counted_def)

lemma counted_delete:
  "distinct (map fst cs) \<Longrightarrow> counted cs = counted (AList.delete i cs) + share (map_of cs i)"
proof (induction cs)
  case (Cons p cs)
  obtain j c where p: "p = (j, c)" by (cases p)
  show ?case
  proof (cases "j = i")
    case True
    with Cons.prems p have "i \<notin> fst ` set cs" by auto
    then have "AList.delete i cs = cs" by (simp add: delete_id)
    with True p show ?thesis by (simp add: share_def)
  next
    case False
    with Cons p show ?thesis by simp
  qed
qed (simp add: share_def)

definition broker_inv :: "owner \<Rightarrow> bool" where
  "broker_inv w \<longleftrightarrow>
     distinct (map fst (channels (broker w))) \<and>
     active (broker w) = (counted (channels (broker w)) + guards w + owed w) mod U64 \<and>
     pending (broker w) = conns w mod U64 \<and>
     (stopping (broker w) \<longrightarrow> channels (broker w) = [])"

lemma broker_invI:
  assumes "distinct (map fst (channels (broker w)))"
    "active (broker w) = (counted (channels (broker w)) + guards w + owed w) mod U64"
    "pending (broker w) = conns w mod U64" "stopping (broker w) \<Longrightarrow> channels (broker w) = []"
  shows "broker_inv w"
  using assms by (simp add: broker_inv_def)

text \<open>Most steps leave what the invariant talks about alone.\<close>

definition same_books :: "BrokerState \<Rightarrow> BrokerState \<Rightarrow> bool" where
  "same_books b b' \<longleftrightarrow>
     channels b' = channels b \<and> active b' = active b \<and> pending b' = pending b \<and> stopping b' = stopping b"

lemma same_books_refl [simp]: "same_books b b"
  by (simp add: same_books_def)

lemma same_books_inv:
  "same_books (broker w) b' \<Longrightarrow> broker_inv w \<Longrightarrow> broker_inv (w\<lparr>broker := b'\<rparr>)"
  by (simp add: same_books_def broker_inv_def)

lemma agent_send_books: "same_books b (snd (agent_send m b))"
  by (simp add: agent_send_def same_books_def)

lemma start_listener_books: "same_books b (snd (start_forward_listener can_bind f b))"
  by (simp add: start_forward_listener_def same_books_def)

lemma send_books: "same_books b (snd (send_to_agent m b))" "same_books b (snd (send_to_agent_on i m b))"
  using agent_send_books [of b m]
  by (auto simp: send_to_agent_def unless_stopping_def send_to_agent_on_def
      split: prod.splits option.splits bool.splits)

lemma keep_running_books: "same_books b (snd (unless_stopping (\<lambda>b. ((), keep_running b)) b))"
  by (simp add: unless_stopping_def keep_running_def same_books_def)

lemma keep_awake_books: "same_books b (keep_awake_for now d b)"
  by (simp add: keep_awake_for_def same_books_def)

lemma tell_books: "same_books b (tell t m b)"
  by (simp add: tell_def same_books_def)

lemma auto_forward_books: "same_books b (snd (ensure_auto_forward_port can_bind h p b))"
  by (auto simp: ensure_auto_forward_port_def same_books_def Let_def start_forward_listener_def)

lemma user_forward_books: "same_books b (snd (add_user_forward can_bind f b))"
  by (auto simp: add_user_forward_def same_books_def start_forward_listener_def reserve_forward_port_def
      split: option.splits)

lemma checked_early_books:
  assumes "\<And>b. same_books b (snd (act b))"
  shows "same_books b (checked_early act b)"
  using assms [of "b\<lparr>stopping := False\<rparr>"] by (simp add: checked_early_def same_books_def)

lemma early_forward_books:
  "same_books b (checked_early (add_user_forward can_bind f) b)"
  "same_books b (checked_early (ensure_auto_forward_port can_bind h p) b)"
  by (rule checked_early_books, rule user_forward_books, rule checked_early_books, rule auto_forward_books)

lemma queue_books: "same_books b (snd (queue_capture job b))"
  "same_books b (snd (unless_stopping (queue_capture job) b))"
  by (simp_all add: queue_capture_def unless_stopping_def same_books_def)

lemma send_closes_books: "same_books b (send_closes cs b)"
proof (induction cs arbitrary: b)
  case (Cons i cs)
  from Cons [of "snd (agent_send (Close i) b)"] agent_send_books [of b "Close i"] show ?case
    by (simp add: same_books_def)
qed simp

lemma fetch_sub_books:
  assumes "active b = (y + n) mod U64"
  shows "fetch_sub (active b) n = y mod U64"
  by (simp only: assms fetch_sub_mod)

lemma broker_inv_active:
  assumes "broker_inv w"
  shows "active (broker w) = (guards w + owed w + counted (channels (broker w))) mod U64"
proof -
  have "counted (channels (broker w)) + guards w + owed w = guards w + owed w + counted (channels (broker w))"
    by simp
  with assms show ?thesis unfolding broker_inv_def by simp
qed

lemma drained_inv:
  assumes "active b = (guards w + owed w + counted (channels b)) mod U64" "pending b = conns w mod U64"
  shows "broker_inv (w\<lparr>broker := snd (drain_locked text b)\<rparr>)"
proof (rule broker_invI)
  show "active (broker (w\<lparr>broker := snd (drain_locked text b)\<rparr>)) =
      (counted (channels (broker (w\<lparr>broker := snd (drain_locked text b)\<rparr>))) +
       guards (w\<lparr>broker := snd (drain_locked text b)\<rparr>) + owed (w\<lparr>broker := snd (drain_locked text b)\<rparr>)) mod U64"
    using fetch_sub_books [OF assms(1)] assms(1) by (simp add: drain_locked_def Let_def release_def)
qed (use assms(2) in \<open>simp_all add: drain_locked_def Let_def release_def\<close>)

lemma drain_inv: "broker_inv w \<Longrightarrow> broker_inv (w\<lparr>broker := snd (drain text (broker w))\<rparr>)"
  unfolding drain_def by (rule drained_inv, erule broker_inv_active, simp only: broker_inv_def)

lemma shutdown_inv:
  assumes "broker_inv w"
  shows "broker_inv (w\<lparr>broker := snd (begin_shutdown text (broker w))\<rparr>)"
proof -
  let ?b = "broker w"
  let ?c = "send_closes (map fst (channels ?b)) (?b\<lparr>stopping := True\<rparr>)"
  have "channels ?c = channels ?b" "active ?c = active ?b" "pending ?c = pending ?b"
    using send_closes_books [of "?b\<lparr>stopping := True\<rparr>" "map fst (channels ?b)"]
    by (simp_all add: same_books_def)
  with broker_inv_active [OF assms] assms show ?thesis
    unfolding begin_shutdown_def by (intro drained_inv) (simp, simp add: broker_inv_def)
qed

lemma open_channel_inv:
  assumes "broker_inv w" "open_channel prepare dispatch i c m (broker w) e s = (r, b', s')"
  shows "broker_inv (w\<lparr>broker := b'\<rparr>)"
proof (cases "b' = broker w")
  case True
  with assms show ?thesis by simp
next
  case False
  let ?b = "broker w"
  let ?n = "if counts_as_active c then 1 else 0 :: nat"
  let ?b1 = "?b\<lparr>active := (if counts_as_active c then fetch_add (active ?b) 1 else active ?b),
      seen_active := True, first_client_deadline := None, channels := (i, c) # channels ?b\<rparr>"
  from assms(2) False have ns: "\<not> stopping ?b" and new: "map_of (channels ?b) i = None"
    by (auto simp: open_channel_def contains_channel_def split: if_splits)
  have b': "b' = snd (agent_send m ?b1) \<or>
      b' = (snd (agent_send m ?b1))\<lparr>channels := AList.delete i (channels (snd (agent_send m ?b1))),
        active := (if counts_as_active c then fetch_sub (active (snd (agent_send m ?b1))) 1
                   else active (snd (agent_send m ?b1)))\<rparr>"
    using assms(2) False ns new
    by (auto simp: open_channel_def contains_channel_def Let_def split: if_splits prod.splits res.splits bool.splits)
  have act: "active ?b1 = (counted (channels ?b) + guards w + owed w + ?n) mod U64"
    using assms(1) by (simp add: broker_inv_def fetch_add_mod)
  have fresh: "i \<notin> fst ` set (channels ?b)" using new by (simp add: map_of_eq_None_iff)
  have one: "broker_inv (w\<lparr>broker := ?b1\<rparr>)"
    using assms(1) act fresh ns by (auto simp: broker_inv_def add.commute add.left_commute)
  then have two: "broker_inv (w\<lparr>broker := snd (agent_send m ?b1)\<rparr>)"
    using same_books_inv [of "w\<lparr>broker := ?b1\<rparr>"] agent_send_books [of ?b1 m] by simp
  from b' show ?thesis
  proof
    assume "b' = snd (agent_send m ?b1)"
    with two show ?thesis by simp
  next
    assume eq: "b' = (snd (agent_send m ?b1))\<lparr>channels := AList.delete i (channels (snd (agent_send m ?b1))),
        active := (if counts_as_active c then fetch_sub (active (snd (agent_send m ?b1))) 1
                   else active (snd (agent_send m ?b1)))\<rparr>"
    have books: "channels (snd (agent_send m ?b1)) = (i, c) # channels ?b"
      "active (snd (agent_send m ?b1)) = active ?b1" "pending (snd (agent_send m ?b1)) = pending ?b"
      "stopping (snd (agent_send m ?b1)) = stopping ?b"
      using agent_send_books [of ?b1 m] by (simp_all add: same_books_def)
    have d: "AList.delete i ((i, c) # channels ?b) = channels ?b" using fresh by (simp add: delete_id)
    have "fetch_sub (active ?b1) 1 = (counted (channels ?b) + guards w + owed w) mod U64" if "counts_as_active c"
      using fetch_sub_books [of ?b1 "counted (channels ?b) + guards w + owed w" 1] act that by simp
    with eq books d act assms(1) show ?thesis by (auto simp: broker_inv_def)
  qed
qed

lemma remove_inv:
  assumes "broker_inv w" "remove_channel i (broker w) = (c, b')"
  shows "broker_inv (w\<lparr>broker := b', owed := owed w + share c\<rparr>)"
proof -
  have "distinct (map fst (channels (broker w)))" using assms(1) by (simp add: broker_inv_def)
  from counted_delete [OF this, of i] assms show ?thesis
    by (auto simp: broker_inv_def remove_channel_def distinct_delete add.commute add.left_commute)
qed

lemma release_inv:
  assumes "broker_inv w" "0 < owed w"
  shows "broker_inv (w\<lparr>broker := release 1 (broker w), owed := owed w - 1\<rparr>)"
proof -
  have "counted (channels (broker w)) + guards w + owed w = counted (channels (broker w)) + guards w + (owed w - 1) + 1"
    using assms(2) by simp
  then have "active (broker w) = (counted (channels (broker w)) + guards w + (owed w - 1) + 1) mod U64"
    using assms(1) unfolding broker_inv_def by metis
  from fetch_sub_books [OF this] show ?thesis
    using assms(1) by (intro broker_invI) (simp_all add: broker_inv_def release_def)
qed

lemma drop_guard_inv:
  assumes "broker_inv w" "0 < guards w"
  shows "broker_inv (w\<lparr>broker := drop_activity_guard (broker w), guards := guards w - 1\<rparr>)"
proof -
  have "counted (channels (broker w)) + guards w + owed w = counted (channels (broker w)) + (guards w - 1) + owed w + 1"
    using assms(2) by simp
  then have "active (broker w) = (counted (channels (broker w)) + (guards w - 1) + owed w + 1) mod U64"
    using assms(1) unfolding broker_inv_def by metis
  from fetch_sub_books [OF this] show ?thesis
    using assms(1) by (intro broker_invI) (simp_all add: broker_inv_def drop_activity_guard_def)
qed

lemma drop_connection_inv:
  assumes "broker_inv w" "0 < conns w"
  shows "broker_inv (w\<lparr>broker := drop_pending_connection (broker w), conns := conns w - 1\<rparr>)"
proof -
  have "pending (broker w) = ((conns w - 1) + 1) mod U64"
    using assms by (simp add: broker_inv_def)
  then have "fetch_sub (pending (broker w)) 1 = (conns w - 1) mod U64" by (simp only: fetch_sub_mod)
  then show ?thesis
    using assms(1) by (intro broker_invI) (simp_all add: broker_inv_def drop_pending_connection_def)
qed

lemma hold_inv:
  assumes "broker_inv w"
  shows "broker_inv (w\<lparr>broker := hold_awake (broker w), guards := guards w + 1\<rparr>)"
proof -
  have "active (broker w) = (counted (channels (broker w)) + guards w + owed w) mod U64"
    using assms by (simp add: broker_inv_def)
  then have "fetch_add (active (broker w)) 1 = (counted (channels (broker w)) + guards w + owed w + 1) mod U64"
    by (simp only: fetch_add_mod)
  then show ?thesis
    using assms by (intro broker_invI) (simp_all add: broker_inv_def hold_awake_def)
qed

lemma connect_inv:
  assumes "broker_inv w"
  shows "broker_inv (w\<lparr>broker := pending_connection (broker w), conns := conns w + 1\<rparr>)"
  using assms by (intro broker_invI) (simp_all add: broker_inv_def pending_connection_def fetch_add_mod)

lemma same_books_thread_inv:
  "broker_inv (w\<lparr>broker := b'\<rparr>) \<Longrightarrow> broker_inv (w\<lparr>broker := b', inflight := x\<rparr>)"
  by (simp add: broker_inv_def)

lemmas step_invs =
  open_channel_inv remove_inv release_inv drop_guard_inv drop_connection_inv hold_inv connect_inv
  drain_inv shutdown_inv
  same_books_inv [OF agent_send_books] same_books_inv [OF send_books(1)] same_books_inv [OF send_books(2)]
  same_books_inv [OF keep_running_books] same_books_inv [OF keep_awake_books]
  same_books_inv [OF early_forward_books(1)]
  same_books_inv [OF early_forward_books(2)]
  same_books_inv [OF queue_books(1)] same_books_inv [OF queue_books(2)]
  same_books_thread_inv [OF same_books_inv [OF tell_books]]

lemma broker_step_inv:
  assumes "broker_step w w'" "broker_inv w"
  shows "broker_inv w'"
  using assms(1)
proof cases
  case (looks_up i c m)
  with assms(2) show ?thesis by (simp add: broker_inv_def)
next
  case agent_dies
  with assms(2) show ?thesis by (simp add: broker_inv_def)
qed (use assms(2) in \<open>simp only:, blast intro: step_invs\<close>)+

interpretation broker_machine: machine broker_step broker_inv
  by unfold_locales (rule broker_step_inv)

lemma start_owner_inv: "broker_inv (start_owner starts_idle now)"
  by (simp add: broker_inv_def start_owner_def new_broker_def)

text \<open>C19: the owner's bookkeeping of activity is exact in every interleaving of its threads: the
  counter is the number of open channels that count, of activity guards, and of closed channels not
  released yet (it never runs below zero), the pending counter is the number of connections without a
  channel; and a state that reads as not busy has no open client channel and no forwarded connection.\<close>

theorem activity_accounting:
  assumes "broker_step\<^sup>*\<^sup>* (start_owner starts_idle t0) w"
  shows "active (broker w) = (counted (channels (broker w)) + guards w + owed w) mod U64 \<and>
    pending (broker w) = conns w mod U64 \<and> distinct (map fst (channels (broker w))) \<and>
    (counted (channels (broker w)) + guards w + owed w < U64 \<and> \<not> idle_busy (idle_status now (broker w)) \<longrightarrow>
       counted (channels (broker w)) = 0 \<and> guards w = 0)"
proof -
  have "broker_inv w" using broker_machine.reach_good [OF assms start_owner_inv] .
  then show ?thesis
    by (auto simp: broker_inv_def idle_status_def idle_status_between_def busy_now_def)
qed

definition one_client :: owner where
  "one_client =
     (let (r, b, s) = open_channel (ret ()) (ret ()) 7 \<lparr>tx = 1, counts_as_active = True\<rparr> (OpenTcp 7 ''h'' 80)
        (new_broker True 0) undefined undefined
      in (start_owner True 0)\<lparr>broker := b\<rparr>)"

lemma one_client_opened:
  "open_channel (ret ()) (ret ()) 7 \<lparr>tx = 1, counts_as_active = True\<rparr> (OpenTcp 7 ''h'' 80) (broker (start_owner True 0)) e s =
   (Ok Opened, broker one_client, s)"
  by (simp add: one_client_def open_channel_def new_broker_def contains_channel_def bind_def ret_def
      agent_send_def start_owner_def)

lemma one_client_reached: "broker_step\<^sup>*\<^sup>* (start_owner True 0) one_client"
proof -
  have "broker_step (start_owner True 0) ((start_owner True 0)\<lparr>broker := broker one_client\<rparr>)"
    by (rule opens [OF one_client_opened])
  moreover have "(start_owner True 0)\<lparr>broker := broker one_client\<rparr> = one_client"
    by (simp add: one_client_def Let_def split: prod.splits)
  ultimately show ?thesis by simp
qed

theorem activity_accounting_witness:
  "channels (broker one_client) \<noteq> [] \<and> active (broker one_client) = 1 mod U64 \<and>
   pending (broker one_client) = 0 mod U64"
proof -
  have "channels (broker one_client) = [(7, \<lparr>tx = 1, counts_as_active = True\<rparr>)]"
    "guards one_client = 0" "owed one_client = 0" "conns one_client = 0"
    by (simp_all add: one_client_def open_channel_def new_broker_def contains_channel_def bind_def ret_def
        agent_send_def start_owner_def)
  with activity_accounting [OF one_client_reached, of 0] show ?thesis by simp
qed

subsection \<open>The barrier\<close>

definition sealed_since :: "owner \<Rightarrow> owner \<Rightarrow> bool" where
  "sealed_since w0 w \<longleftrightarrow>
     stopping (broker w) \<and> channels (broker w) = [] \<and>
     (\<exists>x. list_all from_capture x \<and> agent_queue (broker w) = agent_queue (broker w0) @ x) \<and>
     (\<exists>y. \<not> list_ex asks_checkpoint y \<and> capture_jobs (broker w) = capture_jobs (broker w0) @ y)"

definition same_queues :: "BrokerState \<Rightarrow> BrokerState \<Rightarrow> bool" where
  "same_queues b b' \<longleftrightarrow> agent_queue b' = agent_queue b \<and> capture_jobs b' = capture_jobs b"

lemma checked_early_queues:
  "same_queues b (checked_early (add_user_forward can_bind f) b)"
  "same_queues b (checked_early (ensure_auto_forward_port can_bind h p) b)"
  by (auto simp: checked_early_def same_queues_def add_user_forward_def ensure_auto_forward_port_def Let_def
      start_forward_listener_def reserve_forward_port_def split: option.splits)

lemma sealed_same:
  assumes "sealed_since w0 w" "same_books (broker w) b'" "same_queues (broker w) b'"
  shows "sealed_since w0 (w\<lparr>broker := b'\<rparr>)"
  using assms by (simp add: sealed_since_def same_books_def same_queues_def)

lemma sealed_queue:
  assumes "sealed_since w0 w" "\<not> asks_checkpoint job"
  shows "sealed_since w0 (w\<lparr>broker := snd (queue_capture job (broker w))\<rparr>)"
proof -
  from assms(1) obtain y where "\<not> list_ex asks_checkpoint y" "capture_jobs (broker w) = capture_jobs (broker w0) @ y"
    by (auto simp: sealed_since_def)
  then have "\<not> list_ex asks_checkpoint (y @ [job])"
    "capture_jobs (broker w) @ [job] = capture_jobs (broker w0) @ y @ [job]"
    using assms(2) by auto
  with assms(1) show ?thesis unfolding sealed_since_def queue_capture_def by auto
qed

lemma sealed_quiet:
  assumes "stopping b"
  shows "snd (send_to_agent m b) = b" "snd (send_to_agent_on i m b) = b"
    "snd (unless_stopping act b) = b"
    "open_channel prepare dispatch i c m b e s = (Ok Stopping, b, s)"
  using assms
  by (simp_all add: send_to_agent_def unless_stopping_def send_to_agent_on_def open_channel_def)

lemma sealed_step:
  assumes "broker_step w w'" "sealed_since w0 w"
  shows "sealed_since w0 w'"
proof -
  from assms(2) have st: "stopping (broker w)" and ch: "channels (broker w) = []"
    by (simp_all add: sealed_since_def)
  have shut: "snd (begin_shutdown msg (broker w)) = broker w" "snd (drain msg' (broker w)) = broker w" for msg msg'
    using st ch by (simp_all add: begin_shutdown_def drain_def drain_locked_def Let_def split: option.splits)
  from assms(1) show ?thesis
  proof cases
    case (opens prepare dispatch i c m e s r b' s')
    with sealed_quiet(4) [OF st] have "b' = broker w" by simp
    with opens assms(2) show ?thesis by (simp add: sealed_since_def)
  next
    case (captures m)
    from assms(2) obtain x where "list_all from_capture x" "agent_queue (broker w) = agent_queue (broker w0) @ x"
      by (auto simp: sealed_since_def)
    then have "list_all from_capture (x @ [m])" "agent_queue (broker w) @ [m] = agent_queue (broker w0) @ x @ [m]"
      using captures by auto
    with captures assms(2) show ?thesis
      unfolding sealed_since_def by (auto simp: agent_send_def)
  next
    case (user_forwards can_bind f)
    show ?thesis unfolding user_forwards
      by (rule sealed_same [OF assms(2) early_forward_books(1) checked_early_queues(1)])
  next
    case (auto_forwards can_bind h p)
    show ?thesis unfolding auto_forwards
      by (rule sealed_same [OF assms(2) early_forward_books(2) checked_early_queues(2)])
  next
    case (asks_snapshot i)
    then show ?thesis by (simp add: sealed_queue [OF assms(2)])
  next
    case finishes
    then show ?thesis by (simp add: sealed_queue [OF assms(2)])
  qed (use assms(2) st ch in \<open>simp_all add: sealed_since_def sealed_quiet shut remove_channel_def release_def
      tell_def hold_awake_def drop_activity_guard_def pending_connection_def drop_pending_connection_def
      keep_awake_for_def\<close>)
qed

interpretation barrier_machine: machine broker_step "sealed_since w0" for w0
  by unfold_locales (rule sealed_step)

text \<open>C18: the barrier before the final snapshot. Once an owner is stopping, in whatever order its
  threads go on, it stays so, no channel is ever open again, nothing reaches the guest but what
  captures send, and no checkpoint is queued any more.\<close>

theorem stopping_barrier:
  assumes "broker_step\<^sup>*\<^sup>* (start_owner starts_idle t0) w" "stopping (broker w)" "broker_step\<^sup>*\<^sup>* w w'"
  shows "stopping (broker w') \<and> channels (broker w') = [] \<and>
    (\<exists>x. list_all from_capture x \<and> agent_queue (broker w') = agent_queue (broker w) @ x) \<and>
    (\<exists>y. \<not> list_ex asks_checkpoint y \<and> capture_jobs (broker w') = capture_jobs (broker w) @ y)"
proof -
  have "broker_inv w" using broker_machine.reach_good [OF assms(1) start_owner_inv] .
  with assms(2) have "channels (broker w) = []" by (simp add: broker_inv_def)
  with assms(2) have "sealed_since w w" by (simp add: sealed_since_def)
  from barrier_machine.reach_good [OF assms(3) this] show ?thesis by (simp add: sealed_since_def)
qed

definition stopped_client :: owner where
  "stopped_client = one_client\<lparr>broker := snd (begin_shutdown OWNER_STOPPING (broker one_client))\<rparr>"

theorem stopping_barrier_witness:
  "\<exists>w'. broker_step stopped_client w' \<and> channels (broker w') = [] \<and> stopping (broker w') \<and>
     (\<exists>x. agent_queue (broker w') = agent_queue (broker stopped_client) @ x)"
proof -
  have r: "broker_step\<^sup>*\<^sup>* (start_owner True 0) stopped_client"
    using one_client_reached shuts_down [of one_client OWNER_STOPPING]
    by (simp add: stopped_client_def)
  have st: "stopping (broker stopped_client)"
    using send_closes_books [of "(broker one_client)\<lparr>stopping := True\<rparr>" "map fst (channels (broker one_client))"]
    by (simp add: stopped_client_def begin_shutdown_def drain_locked_def Let_def release_def same_books_def)
  have "broker_step stopped_client (stopped_client\<lparr>broker := snd (send_to_agent (Data 7 ''x'') (broker stopped_client))\<rparr>)"
    by (rule sends)
  with stopping_barrier [OF r st] show ?thesis by blast
qed




text \<open>Closing a channel and delivering a message are sequences of these steps.\<close>

lemma close_channel_steps:
  "broker_step\<^sup>*\<^sup>* w (w\<lparr>broker := close_channel i (broker w)\<rparr>)"
proof -
  obtain c b' where r: "remove_channel i (broker w) = (c, b')" by (cases "remove_channel i (broker w)")
  let ?w = "w\<lparr>broker := b', owed := owed w + share c\<rparr>"
  have one: "broker_step w ?w" by (rule removes [OF r])
  show ?thesis
  proof (cases "share c = 0")
    case True
    with r have "close_channel i (broker w) = b'"
      by (auto simp: close_channel_def share_def split: option.splits if_splits)
    with one True show ?thesis by (simp add: r_into_rtranclp)
  next
    case False
    then have s: "share c = 1" by (auto simp: share_def split: option.splits if_splits)
    with r have "close_channel i (broker w) = release 1 b'"
      by (auto simp: close_channel_def share_def split: option.splits if_splits)
    moreover have "broker_step ?w (?w\<lparr>broker := release 1 (broker ?w), owed := owed ?w - 1\<rparr>)"
      by (rule releases) (simp add: s)
    ultimately show ?thesis using one s by (simp add: converse_rtranclp_into_rtranclp r_into_rtranclp)
  qed
qed

subsection \<open>When the owner stops\<close>

lemma owner_turn_idle:
  assumes "turn_of ttl dl t = (Break, dl')" "\<not> t_shutdown t" "t_accept t \<noteq> AcceptFailed"
    "\<not> (t_accept t = WouldBlock \<and> t_agent_failed t)"
  shows "t_accept t = WouldBlock \<and> \<not> idle_busy (t_status t) \<and> \<not> idle_pending (t_status t) \<and>
    (case dl of Some d \<Rightarrow> d | None \<Rightarrow> t_now t + ttl) \<le> t_now t"
  using assms by (cases "t_accept t") (auto simp: turn_of_def owner_turn_def Let_def split: if_splits)

lemma owner_turn_continue:
  assumes "turn_of ttl dl t = (Continue, Some d)"
  shows "(dl = Some d \<or> dl = None \<and> d = t_now t + ttl) \<and>
    (t_accept t = WouldBlock \<longrightarrow> \<not> idle_busy (t_status t))"
  using assms
  by (cases "t_accept t"; cases dl) (auto simp: turn_of_def owner_turn_def Let_def split: if_splits)

definition not_busy :: "turn_view \<Rightarrow> bool" where
  "not_busy t \<longleftrightarrow> (t_accept t = WouldBlock \<longrightarrow> \<not> idle_busy (t_status t))"

lemma owner_loop_idle:
  assumes "owner_loop ttl dl ts = Some t" "\<not> t_shutdown t" "t_accept t \<noteq> AcceptFailed"
    "\<not> (t_accept t = WouldBlock \<and> t_agent_failed t)"
  shows "\<not> idle_pending (t_status t) \<and> (\<exists>pre post. ts = pre @ t # post \<and>
    ((\<exists>d. dl = Some d \<and> d \<le> t_now t \<and> list_all not_busy (pre @ [t])) \<or>
     (\<exists>p u c. pre @ [t] = p @ u # c \<and> t_now u + ttl \<le> t_now t \<and> list_all not_busy (u # c))))"
  using assms
proof (induction ts arbitrary: dl)
  case (Cons x xs)
  show ?case
  proof (cases "turn_of ttl dl x")
    case (Pair a dl')
    show ?thesis
    proof (cases a)
      case Break
      with Cons.prems Pair have t: "t = x" by simp
      note i = owner_turn_idle [OF Pair [unfolded Break] Cons.prems(2-4) [unfolded t]]
      then have nb: "not_busy x" by (simp add: not_busy_def)
      show ?thesis
      proof (cases dl)
        case (Some d)
        have "x # xs = [] @ t # xs" using t by simp
        moreover have "dl = Some d \<and> d \<le> t_now t \<and> list_all not_busy ([] @ [t])" using Some i nb t by simp
        ultimately show ?thesis using i t by blast
      next
        case None
        have "x # xs = [] @ t # xs" using t by simp
        moreover have "[] @ [t] = [] @ x # [] \<and> t_now x + ttl \<le> t_now t \<and> list_all not_busy (x # [])"
          using None i nb t by simp
        ultimately show ?thesis using i t by blast
      qed
    next
      case Continue
      with Cons.prems(1) Pair have r: "owner_loop ttl dl' xs = Some t" by simp
      from Cons.IH [OF r Cons.prems(2-4)] obtain pre post where
        np: "\<not> idle_pending (t_status t)" and xs: "xs = pre @ t # post" and
        c: "(\<exists>d. dl' = Some d \<and> d \<le> t_now t \<and> list_all not_busy (pre @ [t])) \<or>
            (\<exists>p u c. pre @ [t] = p @ u # c \<and> t_now u + ttl \<le> t_now t \<and> list_all not_busy (u # c))"
        by blast
      have xs': "x # xs = (x # pre) @ t # post" using xs by simp
      from c show ?thesis
      proof
        assume "\<exists>d. dl' = Some d \<and> d \<le> t_now t \<and> list_all not_busy (pre @ [t])"
        then obtain d where d: "dl' = Some d" "d \<le> t_now t" "list_all not_busy (pre @ [t])" by blast
        from owner_turn_continue [OF Pair [unfolded Continue d(1)]]
        have o: "dl = Some d \<or> dl = None \<and> d = t_now x + ttl" and nb: "not_busy x"
          by (auto simp: not_busy_def)
        from o show ?thesis
        proof
          assume "dl = Some d"
          with d nb np xs' show ?thesis by (intro conjI exI [of _ "x # pre"] exI [of _ post]) auto
        next
          assume "dl = None \<and> d = t_now x + ttl"
          then have "(x # pre) @ [t] = [] @ x # (pre @ [t]) \<and> t_now x + ttl \<le> t_now t \<and> list_all not_busy (x # (pre @ [t]))"
            using d nb by simp
          with np xs' show ?thesis by blast
        qed
      next
        assume "\<exists>p u c. pre @ [t] = p @ u # c \<and> t_now u + ttl \<le> t_now t \<and> list_all not_busy (u # c)"
        then obtain p u c where "pre @ [t] = p @ u # c" "t_now u + ttl \<le> t_now t" "list_all not_busy (u # c)" by blast
        then have "(x # pre) @ [t] = (x # p) @ u # c \<and> t_now u + ttl \<le> t_now t \<and> list_all not_busy (u # c)" by simp
        with np xs' show ?thesis by blast
      qed
    qed
  qed
qed simp

text \<open>C21: the owner stops for one of four reasons: it was asked to, its listener failed, the guest
  agent failed, or it was idle, which means that at every poll for at least the idle time nothing was
  busy, and that at the last poll nothing was pending.\<close>

theorem owner_stops_for_a_reason:
  assumes "owner_loop ttl None ts = Some t"
  shows "t_shutdown t \<or> t_accept t = AcceptFailed \<or> t_accept t = WouldBlock \<and> t_agent_failed t \<or>
    \<not> idle_pending (t_status t) \<and> (\<exists>pre post p u c. ts = pre @ t # post \<and> pre @ [t] = p @ u # c \<and>
       t_now u + ttl \<le> t_now t \<and> list_all not_busy (u # c))"
  using owner_loop_idle [OF assms] by auto

definition idle_view :: "nat \<Rightarrow> turn_view" where
  "idle_view n = \<lparr>t_shutdown = False, t_accept = WouldBlock, t_agent_failed = False,
     t_status = \<lparr>idle_busy = False, idle_pending = False, idle_seen_active = True\<rparr>, t_now = n\<rparr>"

theorem owner_stops_for_a_reason_witness:
  "owner_loop 5 None [idle_view 0, idle_view 3, idle_view 6] = Some (idle_view 6) \<and>
   (\<exists>u \<in> {idle_view 0, idle_view 3, idle_view 6}. t_now u + 5 \<le> 6)"
proof -
  have l: "owner_loop 5 None [idle_view 0, idle_view 3, idle_view 6] = Some (idle_view 6)"
    by (simp add: idle_view_def turn_of_def owner_turn_def Let_def)
  from owner_stops_for_a_reason [OF l] obtain pre post p u c where
    "[idle_view 0, idle_view 3, idle_view 6] = pre @ idle_view 6 # post" "pre @ [idle_view 6] = p @ u # c"
    "t_now u + 5 \<le> t_now (idle_view 6)"
    by (auto simp: idle_view_def)
  moreover from this have "u \<in> set (pre @ [idle_view 6])" by simp
  ultimately have "u \<in> set [idle_view 0, idle_view 3, idle_view 6]"
    by (metis Un_iff list.set_intros(1) set_append set_ConsD empty_iff empty_set)
  with \<open>t_now u + 5 \<le> t_now (idle_view 6)\<close> l show ?thesis by (auto simp: idle_view_def)
qed

text \<open>The status is not read at one instant: the owner can read that nothing is active, then a client
  opens its channel and gives up its pending connection, and then the owner reads that nothing is
  pending; so it stops although a command has just been dispatched.\<close>

lemma idle_status_torn:
  "let b0 = pending_connection (new_broker True 0);
       (r, b1, s) = open_channel (ret ()) (ret ()) 7 \<lparr>tx = 1, counts_as_active = True\<rparr> (OpenTcp 7 ''h'' 80) b0 e s0;
       b2 = drop_pending_connection b1
   in r = Ok Opened \<and>
      owner_turn False WouldBlock False (idle_status_between (20 * 10 ^ 9) b0 b2) (20 * 10 ^ 9) 0 None =
        (Break, Some (20 * 10 ^ 9)) \<and>
      channels b2 \<noteq> []"
  by (simp add: pending_connection_def new_broker_def open_channel_def contains_channel_def bind_def ret_def
      agent_send_def drop_pending_connection_def idle_status_between_def busy_now_def pending_now_def
      passed_def owner_turn_def fetch_add_def fetch_sub_def U64_def FIRST_CLIENT_GRACE_def)

subsection \<open>Forwards\<close>

text \<open>C22: a forward a user is granted is served: on a host port this owner does not serve yet and has
  not reserved, success means that a listener for exactly that forward runs, and failure that none was
  added; and asking for a forward again changes nothing.\<close>

theorem granted_forward_listens:
  assumes "add_user_forward can_bind f b = (r, b')"
    and "user_forwards b (host_addr f) = None" "host_addr f \<notin> auto_forward_ports b"
  shows "(case r of
      Inr _ \<Rightarrow> listeners b' = f # listeners b \<and> user_forwards b' (host_addr f) = Some (guest_addr f) \<and>
        add_user_forward can_bind f b' = (Inr (), b')
    | Inl _ \<Rightarrow> listeners b' = listeners b \<and> user_forwards b' = user_forwards b)"
  using assms
  by (auto simp: add_user_forward_def start_forward_listener_def reserve_forward_port_def
      split: if_splits)

definition sample_forward :: PortForward where
  "sample_forward = \<lparr>listen_host = ''127.0.0.1'', listen_port = 8080, guest_host = ''127.0.0.1'', guest_port = 8080\<rparr>"

theorem granted_forward_listens_witness:
  "listeners (snd (add_user_forward (\<lambda>_. True) sample_forward (new_broker True 0))) = [sample_forward]"
proof -
  have "add_user_forward (\<lambda>_. True) sample_forward (new_broker True 0) =
      (Inr (), snd (add_user_forward (\<lambda>_. True) sample_forward (new_broker True 0)))"
    by (simp add: add_user_forward_def start_forward_listener_def reserve_forward_port_def new_broker_def)
  from granted_forward_listens [OF this] show ?thesis by (simp add: new_broker_def)
qed

text \<open>When the port cannot be bound, the reservation stays behind, and asking again is granted although
  nothing listens.\<close>

lemma failed_forward_granted_later:
  "let (r1, b1) = add_user_forward (\<lambda>_. False) sample_forward (new_broker True 0);
       (r2, b2) = add_user_forward (\<lambda>_. False) sample_forward b1
   in (\<exists>x. r1 = Inl x) \<and> r2 = Inr () \<and> listeners b2 = []"
  by (simp add: add_user_forward_def start_forward_listener_def reserve_forward_port_def new_broker_def
      sample_forward_def host_addr_def)

end
