(* ===== verification/Launch.thy ===== *)
theory Launch
  imports Paths Forward
begin

text \<open>
  How a VM is configured (\<open>RunConfig\<close> of \<open>src/runner.rs\<close>), the arguments that start its owner
  process, and the launch metadata a snapshot carries (\<open>src/runner/launch_meta.rs\<close>): the host
  directories and devices the guest has mounted, which a resumed guest keeps. The command-line
  parsers of \<open>src/cli.rs\<close> that read such arguments back are here too.

  A \<open>PathBuf\<close> that comes from the command line or from JSON as text stays text here; \<open>==\<close> on
  such paths compares their components, as Rust does.
\<close>

subsection \<open>Configuration\<close>

record VhostUserFsMount =
  v_tag :: string
  mountpoint :: string
  v_socket :: string
  v_read_only :: bool

record DeterministicConfig =
  seed :: string

record ExecOptions =
  run_as_root :: bool
  x_env :: "(string \<times> string) list"
  workdir :: "string option"
  x_timeout_nanos :: "nat option"
  detach :: bool
  keep_running :: bool

record RunConfig =
  layout :: Layout
  command :: "string list"
  cwd :: path
  cpus :: nat
  memory_mib :: nat
  nested_kvm :: bool
  restore_snapshot :: "path option"
  forwards :: "PortForward list"
  exec :: ExecOptions
  no_host_shares :: bool
  vhost_user_fs :: "VhostUserFsMount list"
  reuse_owner :: bool
  deterministic :: "DeterministicConfig option"
  trace_events :: bool

text \<open>The home directory the host reports is an argument.\<close>

definition host_home_for_cwd :: "path option \<Rightarrow> path \<Rightarrow> err + path" where
  "host_home_for_cwd home_dir d =
     (case d of
        u # user # _ \<Rightarrow>
          if u = ''Users'' then Inr [''Users'', user]
          else (case home_dir of Some h \<Rightarrow> Inr h | None \<Rightarrow> Inl (Bail ''host home directory''))
      | _ \<Rightarrow> (case home_dir of Some h \<Rightarrow> Inr h | None \<Rightarrow> Inl (Bail ''host home directory'')))"

subsection \<open>Arguments of the owner process\<close>

definition forward_spec :: "PortForward \<Rightarrow> string" where
  "forward_spec f =
     listen_host f @ '':'' @ show_nat (listen_port f) @ '':'' @ guest_host f @ '':'' @
     show_nat (guest_port f)"

definition vhost_user_fs_arg :: "VhostUserFsMount \<Rightarrow> string" where
  "vhost_user_fs_arg m =
     ''tag='' @ v_tag m @ '',mount='' @ mountpoint m @ '',socket='' @ v_socket m @
     (if v_read_only m then '',ro'' else '''')"

definition vhost_user_fs_guest_env :: "VhostUserFsMount list \<Rightarrow> string" where
  "vhost_user_fs_guest_env ms =
     join '';'' (map (\<lambda>m. v_tag m @ '':'' @ mountpoint m @ '':'' @
                        (if v_read_only m then ''ro'' else ''rw'')) ms)"

definition owner_restart_args :: "RunConfig \<Rightarrow> string list" where
  "owner_restart_args c =
     [''--instance'', l_instance (layout c), ''--kernel'', os_str (kernel (layout c)),
      ''--cpus'', show_nat (cpus c), ''--memory-mib'', show_nat (memory_mib c)] @
     (if nested_kvm c then [''--nested-kvm''] else []) @
     (if no_host_shares c then [''--no-host-shares''] else []) @
     (case deterministic c of Some d \<Rightarrow> [''--deterministic'', seed d] | None \<Rightarrow> []) @
     (if trace_events c then [''--trace-events''] else []) @
     concat (map (\<lambda>f. [''--forward'', forward_spec f]) (forwards c)) @
     concat (map (\<lambda>m. [''--vhost-user-fs'', vhost_user_fs_arg m]) (vhost_user_fs c)) @
     [''_vm-owner'', ''--cwd'', os_str (cwd c)] @
     (case restore_snapshot c of Some p \<Rightarrow> [''--restore'', os_str p] | None \<Rightarrow> [])"

subsection \<open>Reading arguments back\<close>

definition parse_port :: "string \<Rightarrow> err + nat" where
  "parse_port v =
     (case parse_uint 65535 v of Some n \<Rightarrow> Inr n | None \<Rightarrow> Inl (Bail (''invalid port: '' @ v)))"

text \<open>\<open>?\<close> on results.\<close>

definition and_then :: "err + 'a \<Rightarrow> ('a \<Rightarrow> err + 'b) \<Rightarrow> err + 'b" where
  "and_then r f = (case r of Inl x \<Rightarrow> Inl x | Inr x \<Rightarrow> f x)"

lemma and_then_simps [simp]: "and_then (Inl x) f = Inl x" "and_then (Inr y) f = f y"
  by (simp_all add: and_then_def)

lemma and_then_InrD: "and_then r f = Inr y \<Longrightarrow> \<exists>x. r = Inr x \<and> f x = Inr y"
  by (cases r) auto

definition parse_port_forward :: "string \<Rightarrow> err + PortForward" where
  "parse_port_forward v =
     (case split_on (CHR '':'') v of
        [lp, gp] \<Rightarrow>
          and_then (parse_port lp) (\<lambda>l. and_then (parse_port gp) (\<lambda>g.
          Inr \<lparr>listen_host = ''127.0.0.1'', listen_port = l, guest_host = ''127.0.0.1'', guest_port = g\<rparr>))
      | [lh, lp, gh, gp] \<Rightarrow>
          and_then (parse_port lp) (\<lambda>l. and_then (parse_port gp) (\<lambda>g.
          Inr \<lparr>listen_host = lh, listen_port = l, guest_host = gh, guest_port = g\<rparr>))
      | _ \<Rightarrow> Inl (Bail ''expected HOSTPORT:GUESTPORT or LISTEN_HOST:HOSTPORT:GUEST_HOST:GUESTPORT''))"

definition tag_byte :: "char \<Rightarrow> bool" where
  "tag_byte c \<longleftrightarrow> is_ascii_alphanumeric c \<or> c \<in> {CHR ''.'', CHR ''_'', CHR ''-''}"

definition validate_vhost_user_fs_mount :: "VhostUserFsMount \<Rightarrow> err + unit" where
  "validate_vhost_user_fs_mount m =
     (if \<not> v_read_only m then Inl (Bail ''vhost-user fs mounts are read-only only'')
      else if v_tag m = [] \<or> 36 < length (v_tag m) then Inl (Bail ''vhost-user fs tag must be 1-36 bytes'')
      else if \<not> list_all tag_byte (v_tag m) then
        Inl (Bail (''vhost-user fs tag may only contain letters, numbers, '.', '_', or '-'' @ [CHR 0x27]))
      else if v_tag m \<in> {''home'', ''cwd''} then Inl (Bail (''vhost-user fs tag is reserved: '' @ v_tag m))
      else if \<not> starts_with (mountpoint m) ''/'' \<or> CHR '':'' \<in> set (mountpoint m) \<or>
              CHR '';'' \<in> set (mountpoint m) \<or> CHR '','' \<in> set (mountpoint m) then
        Inl (Bail (''vhost-user fs mount must be an absolute guest path without ':', ';', or ','' @ [CHR 0x27]))
      else if \<not> starts_with (v_socket m) ''/'' \<or> CHR '','' \<in> set (v_socket m) \<or>
              CHR '';'' \<in> set (v_socket m) then
        Inl (Bail (''vhost-user fs socket must be an absolute host path without ',' or ';'' @ [CHR 0x27]))
      else Inr ())"

type_synonym mount_opts = "string option \<times> string option \<times> string option"

text \<open>One option of the list; the texts of the errors quote the option with Rust's \<open>{:?}\<close>, which is
  left out of the message here.\<close>

fun mount_part :: "mount_opts \<Rightarrow> string \<Rightarrow> err + mount_opts" where
  "mount_part (t, m, s) part =
     (if part = ''ro'' \<or> part = ''readonly'' then Inr (t, m, s)
      else if part = ''rw'' then Inl (Bail ''vhost-user fs mounts are read-only only'')
      else
        (case split_once (CHR ''='') part of
           None \<Rightarrow> Inl (Bail ''invalid vhost-user fs option'')
         | Some (k, raw) \<Rightarrow>
             if k = ''tag'' then Inr (Some raw, m, s)
             else if k = ''mount'' then Inr (t, Some raw, s)
             else if k = ''socket'' then Inr (t, m, Some raw)
             else Inl (Bail ''invalid vhost-user fs key'')))"

fun mount_parts :: "mount_opts \<Rightarrow> string list \<Rightarrow> err + mount_opts" where
  "mount_parts acc [] = Inr acc"
| "mount_parts acc (p # ps) = and_then (mount_part acc p) (\<lambda>acc'. mount_parts acc' ps)"

definition ok_or :: "string \<Rightarrow> 'a option \<Rightarrow> err + 'a" where
  "ok_or msg x = (case x of Some y \<Rightarrow> Inr y | None \<Rightarrow> Inl (Bail msg))"

definition parse_vhost_user_fs_mount :: "string \<Rightarrow> err + VhostUserFsMount" where
  "parse_vhost_user_fs_mount v =
     and_then (mount_parts (None, None, None) (filter (\<lambda>p. p \<noteq> []) (split_on (CHR '','') v))) (\<lambda>(t, m, s).
     and_then (ok_or ''missing vhost-user fs tag=NAME'' t) (\<lambda>t.
     and_then (ok_or ''missing vhost-user fs mount=/GUEST/PATH'' m) (\<lambda>m.
     and_then (ok_or ''missing vhost-user fs socket=/HOST/SOCK'' s) (\<lambda>s.
     let mount = \<lparr>v_tag = t, mountpoint = m, v_socket = s, v_read_only = True\<rparr> in
     and_then (validate_vhost_user_fs_mount mount) (\<lambda>_. Inr mount)))))"

fun distinct_tags :: "string list \<Rightarrow> VhostUserFsMount list \<Rightarrow> err + unit" where
  "distinct_tags seen [] = Inr ()"
| "distinct_tags seen (m # ms) =
     and_then (validate_vhost_user_fs_mount m) (\<lambda>_.
     if v_tag m \<in> set seen then Inl (Bail (''duplicate vhost-user fs tag: '' @ v_tag m))
     else distinct_tags (v_tag m # seen) ms)"

definition validate_vhost_user_fs_mounts :: "VhostUserFsMount list \<Rightarrow> err + unit" where
  "validate_vhost_user_fs_mounts ms = distinct_tags [] ms"

text \<open>On Linux (the first flag) nested virtualization is refused too.\<close>

definition validate_deterministic_args ::
  "bool \<Rightarrow> bool \<Rightarrow> PortForward list \<Rightarrow> VhostUserFsMount list \<Rightarrow> DeterministicConfig option \<Rightarrow> bool \<Rightarrow> err + unit" where
  "validate_deterministic_args linux nested fwds mounts det trace =
     (if trace \<and> det = None then Inl (Bail ''--trace-events requires --deterministic'')
      else if det = None then Inr ()
      else if linux \<and> nested then Inl (Bail ''--deterministic cannot be combined with --nested-kvm yet'')
      else if fwds \<noteq> [] then Inl (Bail ''--deterministic cannot be combined with --forward yet'')
      else if mounts \<noteq> [] then Inl (Bail ''--deterministic cannot be combined with --vhost-user-fs yet'')
      else Inr ())"

definition effective_cpus :: "nat \<Rightarrow> DeterministicConfig option \<Rightarrow> nat" where
  "effective_cpus configured det = (if det \<noteq> None then 1 else configured)"

definition parse_env_var :: "string \<Rightarrow> err + string \<times> string" where
  "parse_env_var v =
     (case split_once (CHR ''='') v of
        Some (k, x) \<Rightarrow>
          if k \<noteq> [] \<and> CHR 0x00 \<notin> set k \<and> CHR 0x00 \<notin> set x then Inr (k, x)
          else Inl (Bail ''expected KEY=VALUE'')
      | None \<Rightarrow> Inl (Bail ''expected KEY=VALUE''))"

subsection \<open>Arguments for a nested process\<close>

definition exec_option_args :: "ExecOptions \<Rightarrow> string list" where
  "exec_option_args x =
     (if run_as_root x then [''--root''] else []) @
     concat (map (\<lambda>(k, v). [''--env'', k @ ''='' @ v]) (x_env x)) @
     (case workdir x of Some w \<Rightarrow> [''--workdir'', w] | None \<Rightarrow> []) @
     (case x_timeout_nanos x of Some n \<Rightarrow> [''--timeout'', show_nat (n div 1000000) @ ''ms''] | None \<Rightarrow> []) @
     (if detach x then [''--detach''] else [])"

definition nested_deterministic_inner_args ::
  "Layout \<Rightarrow> nat \<Rightarrow> nat \<Rightarrow> path option \<Rightarrow> DeterministicConfig \<Rightarrow> bool \<Rightarrow> ExecOptions \<Rightarrow> string list \<Rightarrow>
   string list \<Rightarrow> string list" where
  "nested_deterministic_inner_args l n mib snap det trace x guest sub =
     [''--instance'', l_instance l, ''--kernel'', os_str (kernel l), ''--cpus'', show_nat n,
      ''--memory-mib'', show_nat mib, ''--no-host-shares'', ''--deterministic'', seed det] @
     (case snap of Some p \<Rightarrow> [''--snapshot'', os_str p] | None \<Rightarrow> []) @
     (if trace then [''--trace-events''] else []) @
     exec_option_args x @ sub @
     (if guest \<noteq> [] then ''--'' # guest else [])"

definition nested_deterministic_outer_instance :: "string \<Rightarrow> string" where
  "nested_deterministic_outer_instance name = name @ ''-deterministic-outer''"

definition quote_char :: char where
  "quote_char = CHR 0x27"

definition shell_quote :: "string \<Rightarrow> string" where
  "shell_quote v =
     (if v = [] then [quote_char, quote_char]
      else quote_char #
        concat (map (\<lambda>c. if c = quote_char then [quote_char, CHR 0x5C, quote_char, quote_char] else [c]) v) @
        [quote_char])"

definition nested_deterministic_script ::
  "path \<Rightarrow> path \<Rightarrow> path option \<Rightarrow> string list \<Rightarrow> string" where
  "nested_deterministic_script linux_lnx bas run_base inner_args =
     join [CHR 0x0A]
       ([''set -euo pipefail'',
         ''test -c /dev/kvm'',
         ''test -r /dev/kvm'',
         ''nested_tools=/tmp/lnx-deterministic-tools'',
         ''rm -rf \"$nested_tools\"'',
         ''mkdir -p \"$nested_tools\"'',
         ''cp '' @ shell_quote (os_str linux_lnx) @ '' \"$nested_tools/lnx\"'',
         ''chmod +x \"$nested_tools\"/*'',
         ''export LNX_BIN=\"$nested_tools/lnx\"'',
         ''export LNX_BASE='' @ shell_quote (os_str bas)] @
        (case run_base of
           Some b \<Rightarrow> [''export LNX_RUN_BASE='' @ shell_quote (os_str b)]
         | None \<Rightarrow> []) @
        [''exec \"$LNX_BIN\" '' @ join '' '' (map shell_quote inner_args)])"

subsection \<open>Launch metadata\<close>

record LaunchShares =
  ls_no_host_shares :: bool
  ls_host_home :: "path option"
  ls_outside_home_cwd :: "path option"

record LaunchVhostUserFsMount =
  lv_tag :: string
  lv_mount :: string
  lv_socket :: string
  lv_read_only :: bool

record LaunchMetadata =
  lm_version :: nat
  owner_args :: "string list"
  dax :: bool
  shares :: LaunchShares
  lm_vhost_user_fs :: "LaunchVhostUserFsMount list"

definition LAUNCH_METADATA_VERSION :: nat where
  "LAUNCH_METADATA_VERSION = 2"

definition LAUNCH_METADATA :: string where
  "LAUNCH_METADATA = ''launch.json''"

text \<open>\<open>serde_json\<close>, a parameter: the encoding and what decodes it.\<close>

record launch_codec =
  enc_launch :: "LaunchMetadata \<Rightarrow> string"
  dec_launch :: "string \<Rightarrow> LaunchMetadata option"

definition launch_codec_ok :: "launch_codec \<Rightarrow> bool" where
  "launch_codec_ok c \<longleftrightarrow> (\<forall>m. dec_launch c (enc_launch c m) = Some m)"

definition host_share_cache_metadata :: bool where
  "host_share_cache_metadata = True"

definition launch_shares :: "bool \<Rightarrow> path \<Rightarrow> path option \<Rightarrow> LaunchShares" where
  "launch_shares nhs home outside =
     \<lparr>ls_no_host_shares = nhs, ls_host_home = (if nhs then None else Some home),
      ls_outside_home_cwd = (if nhs then None else outside)\<rparr>"

definition launch_metadata_for_parts ::
  "RunConfig \<Rightarrow> path \<Rightarrow> path option \<Rightarrow> bool \<Rightarrow> bool \<Rightarrow> LaunchMetadata" where
  "launch_metadata_for_parts c home outside nhs cache =
     \<lparr>lm_version = LAUNCH_METADATA_VERSION, owner_args = owner_restart_args c, dax = cache,
      shares = launch_shares nhs home outside,
      lm_vhost_user_fs =
        map (\<lambda>m. \<lparr>lv_tag = v_tag m, lv_mount = mountpoint m, lv_socket = v_socket m,
                  lv_read_only = v_read_only m\<rparr>) (vhost_user_fs c)\<rparr>"

definition outside_home :: "path \<Rightarrow> path \<Rightarrow> path option" where
  "outside_home d home = (if starts_with d home then None else Some d)"

definition launch_metadata_for_config :: "path option \<Rightarrow> RunConfig \<Rightarrow> err + LaunchMetadata" where
  "launch_metadata_for_config home_dir c =
     and_then (host_home_for_cwd home_dir (cwd c)) (\<lambda>home.
     Inr (launch_metadata_for_parts c home (outside_home (cwd c) home) (no_host_shares c)
            host_share_cache_metadata))"

text \<open>The components of a path as text: what \<open>==\<close> and \<open>cmp\<close> on paths compare. Empty pieces and
  \<open>.\<close> are dropped, except a leading \<open>.\<close>; the root is the component \<open>/\<close>.\<close>

definition components :: "string \<Rightarrow> string list" where
  "components p =
     (let pieces = split_on (CHR ''/'') p in
      (if starts_with p ''/'' then [''/''] else if hd pieces = ''.'' then [''.''] else []) @
      filter (\<lambda>x. x \<noteq> [] \<and> x \<noteq> ''.'') pieces)"

definition mount_key :: "LaunchVhostUserFsMount \<Rightarrow> string list list" where
  "mount_key m =
     [[lv_tag m], [lv_mount m], components (lv_socket m), if lv_read_only m then [[]] else []]"

definition normalized_vhost_user_fs :: "LaunchVhostUserFsMount list \<Rightarrow> LaunchVhostUserFsMount list" where
  "normalized_vhost_user_fs ms = sort_key mount_key ms"

definition vhost_user_fs_launch_value :: "LaunchVhostUserFsMount list \<Rightarrow> string" where
  "vhost_user_fs_launch_value ms =
     join '';''
       (map (\<lambda>m. lv_tag m @ '':'' @ lv_mount m @ '':'' @ lv_socket m @ '':'' @
                 (if lv_read_only m then ''ro'' else ''rw''))
          (normalized_vhost_user_fs ms))"

text \<open>\<open>==\<close> of two lists of mounts.\<close>

definition same_mounts :: "LaunchVhostUserFsMount list \<Rightarrow> LaunchVhostUserFsMount list \<Rightarrow> bool" where
  "same_mounts a b \<longleftrightarrow> map mount_key a = map mount_key b"

definition launch_metadata_matches_ignoring_cwd :: "LaunchMetadata \<Rightarrow> LaunchMetadata \<Rightarrow> bool" where
  "launch_metadata_matches_ignoring_cwd snap cur \<longleftrightarrow>
     lm_version snap = lm_version cur \<and> dax snap = dax cur \<and>
     (shares snap)\<lparr>ls_outside_home_cwd := None\<rparr> = (shares cur)\<lparr>ls_outside_home_cwd := None\<rparr> \<and>
     same_mounts (lm_vhost_user_fs snap) (lm_vhost_user_fs cur)"

definition optional_path_display :: "path option \<Rightarrow> string" where
  "optional_path_display p = (case p of Some q \<Rightarrow> os_str q | None \<Rightarrow> ''<absent>'')"

definition describe_host_share_cache :: "bool \<Rightarrow> string" where
  "describe_host_share_cache d = (if d then ''dax'' else ''nodax'')"

definition shares_word :: "bool \<Rightarrow> string" where
  "shares_word nhs = (if nhs then ''disabled'' else ''enabled'')"

definition launch_mismatches :: "LaunchMetadata \<Rightarrow> LaunchMetadata \<Rightarrow> string list" where
  "launch_mismatches snap cur =
     (if ls_no_host_shares (shares snap) \<noteq> ls_no_host_shares (shares cur)
      then [''host-shares: snapshot='' @ shares_word (ls_no_host_shares (shares snap)) @
            '' current='' @ shares_word (ls_no_host_shares (shares cur))] else []) @
     (if dax snap \<noteq> dax cur
      then [''host-share-cache: snapshot='' @ describe_host_share_cache (dax snap) @
            '' current='' @ describe_host_share_cache (dax cur)] else []) @
     (if ls_host_home (shares snap) \<noteq> ls_host_home (shares cur)
      then [''home: snapshot='' @ optional_path_display (ls_host_home (shares snap)) @
            '' current='' @ optional_path_display (ls_host_home (shares cur))] else []) @
     (if \<not> same_mounts (normalized_vhost_user_fs (lm_vhost_user_fs snap))
                       (normalized_vhost_user_fs (lm_vhost_user_fs cur))
      then [''vhost-user-fs: snapshot='' @ vhost_user_fs_launch_value (lm_vhost_user_fs snap) @
            '' current='' @ vhost_user_fs_launch_value (lm_vhost_user_fs cur)] else [])"

definition describe_launch_mismatch :: "LaunchMetadata \<Rightarrow> LaunchMetadata \<Rightarrow> string" where
  "describe_launch_mismatch snap cur =
     (let ms = launch_mismatches snap cur in
      if ms = [] then ''share_mismatch: launch metadata differs only in ignored fields''
      else ''share_mismatch: '' @ join ''; '' ms)"

definition write_launch_metadata :: "launch_codec \<Rightarrow> path \<Rightarrow> LaunchMetadata \<Rightarrow> unit M" where
  "write_launch_metadata c p m = write_file p (enc_launch c m)"

definition read_launch_metadata :: "launch_codec \<Rightarrow> path \<Rightarrow> LaunchMetadata M" where
  "read_launch_metadata c snap =
     bind (read_file (snap @ [LAUNCH_METADATA])) (\<lambda>raw.
     case dec_launch c raw of Some m \<Rightarrow> ret m | None \<Rightarrow> raise (Io OtherIo))"

text \<open>The text of an I/O error is the standard library's: an argument.\<close>

definition snapshot_launch_incompatibility ::
  "(err \<Rightarrow> string) \<Rightarrow> launch_codec \<Rightarrow> path \<Rightarrow> LaunchMetadata \<Rightarrow> string option M" where
  "snapshot_launch_incompatibility say c snap cur =
     recover_with
       (bind (read_launch_metadata c snap) (\<lambda>m.
        ret (if launch_metadata_matches_ignoring_cwd m cur then None
             else Some (describe_launch_mismatch m cur))))
       (\<lambda>x. ret (Some (if x = Io NotFound then ''launch_metadata: snapshot has no launch.json''
                       else ''launch_metadata_unreadable: '' @ say x)))"

definition snapshot_shares_incompatibility_for_import ::
  "(err \<Rightarrow> string) \<Rightarrow> launch_codec \<Rightarrow> path option \<Rightarrow> path \<Rightarrow> path \<Rightarrow> bool \<Rightarrow> string option M" where
  "snapshot_shares_incompatibility_for_import say c home_dir snap d nhs =
     bind (lift_res (host_home_for_cwd home_dir d)) (\<lambda>home.
     snapshot_launch_incompatibility say c snap
       \<lparr>lm_version = LAUNCH_METADATA_VERSION, owner_args = [], dax = host_share_cache_metadata,
        shares = launch_shares nhs home (outside_home d home), lm_vhost_user_fs = []\<rparr>)"

record ShareLayout =
  sl_host_home :: path
  sl_outside_home_cwd :: "path option"
  sl_no_host_shares :: bool

definition snapshot_share_layout :: "launch_codec \<Rightarrow> path \<Rightarrow> (LaunchMetadata \<times> ShareLayout) option M" where
  "snapshot_share_layout c snap =
     recover_with
       (bind (read_launch_metadata c snap) (\<lambda>m.
        ret (Some (m, \<lparr>sl_host_home = (case ls_host_home (shares m) of Some h \<Rightarrow> h | None \<Rightarrow> []),
                       sl_outside_home_cwd = ls_outside_home_cwd (shares m),
                       sl_no_host_shares = ls_no_host_shares (shares m)\<rparr>))))
       (\<lambda>x. if x = Io NotFound then ret None else raise x)"

text \<open>\<open>KEY=VALUE\<close> lines, a later line replacing an earlier one.\<close>

definition stamp_line :: "(string \<times> string) list \<Rightarrow> string \<Rightarrow> (string \<times> string) list" where
  "stamp_line m line =
     (case split_once (CHR ''='') line of None \<Rightarrow> m | Some (k, v) \<Rightarrow> bt_insert k v m)"

definition parse_shares_stamp :: "string \<Rightarrow> (string \<times> string) list" where
  "parse_shares_stamp stamp = foldl stamp_line [] (lines stamp)"

end
