(* ===== verification/Deterministic.thy ===== *)
theory Deterministic
  imports Launch "HOL-Library.Word"
begin

text \<open>
  The deterministic mode of \<open>src/runner/deterministic.rs\<close>: the stamp that says how a VM's time and
  randomness are controlled, the clock state carried from run to run, the entropy and request ids
  derived from the seed, and the timer jumps copied into the trace log of \<open>src/runner/logs.rs\<close>.
  SHA-256 is an argument; so is whether the trace database accepted a row.
\<close>

subsection \<open>The trace log\<close>

datatype TraceValue = TextValue string | IntegerValue int | BlobValue string

record TraceField =
  tf_key :: string
  tf_ordinal :: "int option"
  tf_value :: TraceValue

record TraceLog =
  trace_rows :: "(int \<times> string \<times> TraceField list) list"
  next_seq :: int

definition trace_text :: "string \<Rightarrow> string \<Rightarrow> TraceField" where
  "trace_text k v = \<lparr>tf_key = k, tf_ordinal = None, tf_value = TextValue v\<rparr>"

text \<open>\<open>as i64\<close>\<close>

definition as_i64 :: "nat \<Rightarrow> int" where
  "as_i64 n = sint (word_of_nat n :: 64 word)"

definition trace_text_ordinal :: "string \<Rightarrow> nat \<Rightarrow> string \<Rightarrow> TraceField" where
  "trace_text_ordinal k n v = \<lparr>tf_key = k, tf_ordinal = Some (as_i64 n), tf_value = TextValue v\<rparr>"

definition trace_integer :: "string \<Rightarrow> int \<Rightarrow> TraceField" where
  "trace_integer k v = \<lparr>tf_key = k, tf_ordinal = None, tf_value = IntegerValue v\<rparr>"

definition trace_bool :: "string \<Rightarrow> bool \<Rightarrow> TraceField" where
  "trace_bool k b = trace_integer k (if b then 1 else 0)"

definition trace_blob :: "string \<Rightarrow> string \<Rightarrow> TraceField" where
  "trace_blob k v = \<lparr>tf_key = k, tf_ordinal = None, tf_value = BlobValue v\<rparr>"

definition I64_MAX :: int where
  "I64_MAX = 9223372036854775807"

definition U64_MAX :: nat where
  "U64_MAX = 18446744073709551615"

text \<open>\<open>TraceLog::event\<close>: a row the database refuses takes no number.\<close>

definition trace_event :: "(TraceLog \<Rightarrow> bool) \<Rightarrow> string \<Rightarrow> TraceField list \<Rightarrow> TraceLog \<Rightarrow> TraceLog" where
  "trace_event accepts ev flds t =
     (if accepts t
      then t\<lparr>trace_rows := trace_rows t @ [(next_seq t, ev, flds)],
             next_seq := min I64_MAX (next_seq t + 1)\<rparr>
      else t)"

definition set_next_sequence :: "nat \<Rightarrow> TraceLog \<Rightarrow> TraceLog" where
  "set_next_sequence n t = t\<lparr>next_seq := min I64_MAX (int n)\<rparr>"

definition next_sequence :: "TraceLog \<Rightarrow> nat" where
  "next_sequence t = (if next_seq t < 0 then 0 else nat (next_seq t))"

text \<open>What the database promises: a number is in the table once.\<close>

definition primary_key :: "(TraceLog \<Rightarrow> bool) \<Rightarrow> bool" where
  "primary_key accepts \<longleftrightarrow> (\<forall>t. accepts t \<longrightarrow> next_seq t \<notin> fst ` set (trace_rows t))"

subsection \<open>The stamp\<close>

definition lines_text :: "string list \<Rightarrow> string" where
  "lines_text ls = concat (map (\<lambda>l. l @ [CHR 0x0A]) ls)"

definition deterministic_stamp_content :: "DeterministicConfig option \<Rightarrow> string" where
  "deterministic_stamp_content c =
     (case c of
        Some d \<Rightarrow>
          lines_text
            [''deterministic=enabled-v1'',
             ''seed='' @ seed d,
             ''initial_realtime_unix_secs=0'',
             ''clock_state=deterministic-clock-state-v1'',
             ''restore_timer_rebase=disabled-v1'',
             ''virtual_counter=kvm-controlled-counter-v1'',
             ''kvm_halt_poll=disabled-v1'',
             ''kvm_wfi_exit=enabled-v1'',
             ''host_activity_gate=broker-and-device-idle-v1'',
             ''rtc=deterministic-zero-v1'',
             ''trng=deterministic-smccc-v1'',
             ''virtio_rng=deterministic-stateless-v1'',
             ''vsock_timesync=disabled-v1'',
             ''restore_entropy=sha256-seed-v1'',
             ''exec_user=uid1000-gid1000-lnxuser'',
             ''exec_env=c-utf8-utc-v1'',
             ''exec_tty=none-24x80-xterm-256color-v1'',
             ''network=gvproxy-fixed-v1'']
      | None \<Rightarrow> lines_text [''deterministic=disabled-v1''])"

definition stamp_keys :: "string list" where
  "stamp_keys =
     [''deterministic'', ''seed'', ''initial_realtime_unix_secs'', ''clock_state'', ''restore_timer_rebase'',
      ''virtual_counter'', ''kvm_halt_poll'', ''kvm_wfi_exit'', ''host_activity_gate'', ''rtc'', ''trng'',
      ''virtio_rng'', ''vsock_timesync'', ''restore_entropy'', ''exec_user'', ''exec_env'', ''exec_tty'',
      ''network'']"

definition stamp_value :: "string \<Rightarrow> string \<Rightarrow> string" where
  "stamp_value stamp k =
     (case map_of (parse_shares_stamp stamp) k of Some v \<Rightarrow> v | None \<Rightarrow> ''<absent>'')"

definition describe_deterministic_stamp_mismatch :: "string \<Rightarrow> string \<Rightarrow> string" where
  "describe_deterministic_stamp_mismatch snap cur =
     (let ms = concat (map (\<lambda>k. if stamp_value snap k \<noteq> stamp_value cur k
                                 then [k @ '': snapshot='' @ stamp_value snap k @ '' current='' @ stamp_value cur k]
                                 else []) stamp_keys) in
      if ms = [] then ''snapshot and current deterministic stamps differ only in unrecognized fields''
      else join ''; '' ms)"

definition DETERMINISTIC_STAMP :: string where
  "DETERMINISTIC_STAMP = ''deterministic.stamp''"

definition snapshot_deterministic_incompatibility ::
  "(err \<Rightarrow> string) \<Rightarrow> path \<Rightarrow> string \<Rightarrow> string option M" where
  "snapshot_deterministic_incompatibility say snap cur =
     recover_with
       (bind (read_to_string (snap @ [DETERMINISTIC_STAMP])) (\<lambda>stamp.
        ret (if stamp = cur then None else Some (describe_deterministic_stamp_mismatch stamp cur))))
       (\<lambda>x. ret (if x = Io NotFound \<and> cur = deterministic_stamp_content None then None
                 else if x = Io NotFound then Some ''snapshot has no deterministic compatibility stamp''
                 else Some (''deterministic_stamp_unreadable: '' @ say x)))"

definition validate_runtime_deterministic_compatibility ::
  "Layout \<Rightarrow> DeterministicConfig option \<Rightarrow> unit M" where
  "validate_runtime_deterministic_compatibility l det =
     (let cur = deterministic_stamp_content det; p = l_run_dir l @ [DETERMINISTIC_STAMP] in
      bind
        (recover_with (bind (read_to_string p) (\<lambda>stamp. ret (Some stamp)))
           (\<lambda>x. if x = Io NotFound then ret None else raise x)) (\<lambda>found.
      case found of
        Some stamp \<Rightarrow>
          if stamp = cur then ret ()
          else raise (Bail (''running VM deterministic stamp is incompatible ('' @
                 describe_deterministic_stamp_mismatch stamp cur @ ''): '' @ os_str p))
      | None \<Rightarrow>
          if cur = deterministic_stamp_content None then ret ()
          else raise (Bail (''running VM has no deterministic compatibility stamp: '' @ os_str p))))"

subsection \<open>Entropy and request ids\<close>

definition le_bytes :: "nat \<Rightarrow> nat \<Rightarrow> string" where
  "le_bytes w n = map (\<lambda>i. char_of (n div 256 ^ i mod 256)) [0..<w]"

definition RESTORE_ENTROPY_BYTES :: nat where
  "RESTORE_ENTROPY_BYTES = 64"

definition nul :: char where
  "nul = CHR 0x00"

definition entropy_block :: "string \<Rightarrow> nat \<Rightarrow> string" where
  "entropy_block sd counter =
     ''lnx deterministic restore entropy v1'' @ [nul] @ sd @ [nul] @ le_bytes 8 counter"

text \<open>The loop ends once there are enough bytes, which takes a digest that is not empty.\<close>

partial_function (option) entropy_loop ::
  "(string \<Rightarrow> string) \<Rightarrow> string \<Rightarrow> string \<Rightarrow> nat \<Rightarrow> string option" where
  "entropy_loop sha sd entropy counter =
     (if length entropy < RESTORE_ENTROPY_BYTES
      then entropy_loop sha sd (entropy @ sha (entropy_block sd counter)) (min U64_MAX (counter + 1))
      else Some (take RESTORE_ENTROPY_BYTES entropy))"

definition deterministic_restore_entropy :: "(string \<Rightarrow> string) \<Rightarrow> string \<Rightarrow> string option" where
  "deterministic_restore_entropy sha sd = entropy_loop sha sd [] 0"

definition sha256_ok :: "(string \<Rightarrow> string) \<Rightarrow> bool" where
  "sha256_ok sha \<longleftrightarrow> (\<forall>s. length (sha s) = 32)"

text \<open>\<open>read_exact\<close> of 64 bytes of the random device, whose bytes are an argument.\<close>

definition fresh_restore_entropy :: "string \<Rightarrow> err + string" where
  "fresh_restore_entropy device =
     (if RESTORE_ENTROPY_BYTES \<le> length device then Inr (take RESTORE_ENTROPY_BYTES device)
      else Inl (Io OtherIo))"

definition restore_entropy ::
  "(string \<Rightarrow> string) \<Rightarrow> string \<Rightarrow> DeterministicConfig option \<Rightarrow> (err + string) option" where
  "restore_entropy sha device c =
     (case c of
        Some d \<Rightarrow> map_option Inr (deterministic_restore_entropy sha (seed d))
      | None \<Rightarrow> Some (fresh_restore_entropy device))"

definition bool_byte :: "bool \<Rightarrow> string" where
  "bool_byte b = [if b then CHR 0x01 else CHR 0x00]"

definition nonzero_id :: "string \<Rightarrow> nat" where
  "nonzero_id digest = (let i = from_le (take 8 digest) in if i = 0 then 1 else i)"

definition deterministic_exec_request_id ::
  "(string \<Rightarrow> string) \<Rightarrow> string \<Rightarrow> string list \<Rightarrow> string \<Rightarrow> bool \<Rightarrow> bool \<Rightarrow> nat \<Rightarrow> nat \<Rightarrow> nat" where
  "deterministic_exec_request_id sha sd cmd guest_cwd root pty rows cols =
     nonzero_id (sha
       (''lnx deterministic exec request id v1'' @ [nul] @ sd @
        [nul] @ ''cwd'' @ [nul] @ guest_cwd @
        [nul] @ ''root'' @ [nul] @ bool_byte root @
        [nul] @ ''pty'' @ [nul] @ bool_byte pty @
        [nul] @ ''rows'' @ [nul] @ le_bytes 2 rows @
        [nul] @ ''cols'' @ [nul] @ le_bytes 2 cols @
        concat (map (\<lambda>a. [nul] @ ''arg'' @ [nul] @ a) cmd)))"

definition deterministic_restore_sync_request_id :: "(string \<Rightarrow> string) \<Rightarrow> string \<Rightarrow> nat" where
  "deterministic_restore_sync_request_id sha sd =
     nonzero_id (sha (''lnx deterministic restore-sync request id v1'' @ [nul] @ sd))"

subsection \<open>The clock state\<close>

record DeterministicClockState =
  realtime_unix_nanos :: nat
  monotonic_nanos :: nat
  counter_frequency_hz :: nat
  event_sequence :: nat
  timer_jump_count :: nat
  last_timer_deadline_ticks :: nat

definition initial_deterministic_clock_state :: DeterministicClockState where
  "initial_deterministic_clock_state =
     \<lparr>realtime_unix_nanos = 0, monotonic_nanos = 0, counter_frequency_hz = 1000000000,
      event_sequence = 0, timer_jump_count = 0, last_timer_deadline_ticks = 0\<rparr>"

definition deterministic_clock_state_content :: "DeterministicClockState \<Rightarrow> string" where
  "deterministic_clock_state_content st =
     lines_text
       [''clock_state=deterministic-clock-state-v1'',
        ''realtime_unix_nanos='' @ show_nat (realtime_unix_nanos st),
        ''monotonic_nanos='' @ show_nat (monotonic_nanos st),
        ''counter_frequency_hz='' @ show_nat (counter_frequency_hz st),
        ''event_sequence='' @ show_nat (event_sequence st),
        ''timer_jump_count='' @ show_nat (timer_jump_count st),
        ''last_timer_deadline_ticks='' @ show_nat (last_timer_deadline_ticks st)]"

definition parse_clock_state_u64 :: "(string \<times> string) list \<Rightarrow> string \<Rightarrow> err + nat" where
  "parse_clock_state_u64 m k =
     (case map_of m k of
        None \<Rightarrow> Inl (Bail (''missing deterministic clock state field '' @ k))
      | Some v \<Rightarrow>
          (case parse_uint U64_MAX v of
             Some n \<Rightarrow> Inr n
           | None \<Rightarrow> Inl (Bail (''parse deterministic clock state field '' @ k @ ''='' @ v))))"

definition parse_deterministic_clock_state :: "string \<Rightarrow> err + DeterministicClockState" where
  "parse_deterministic_clock_state raw =
     (let m = parse_shares_stamp raw in
      case map_of m ''clock_state'' of
        None \<Rightarrow> Inl (Bail ''missing deterministic clock state version'')
      | Some v \<Rightarrow>
          if v \<noteq> ''deterministic-clock-state-v1''
          then Inl (Bail (''unsupported deterministic clock state '' @ v))
          else
            and_then (parse_clock_state_u64 m ''realtime_unix_nanos'') (\<lambda>a.
            and_then (parse_clock_state_u64 m ''monotonic_nanos'') (\<lambda>b.
            and_then (parse_clock_state_u64 m ''counter_frequency_hz'') (\<lambda>c.
            and_then (parse_clock_state_u64 m ''event_sequence'') (\<lambda>d.
            and_then (parse_clock_state_u64 m ''timer_jump_count'') (\<lambda>e.
            and_then (parse_clock_state_u64 m ''last_timer_deadline_ticks'') (\<lambda>f.
            Inr \<lparr>realtime_unix_nanos = a, monotonic_nanos = b, counter_frequency_hz = c,
                 event_sequence = d, timer_jump_count = e, last_timer_deadline_ticks = f\<rparr>)))))))"

definition DETERMINISTIC_CLOCK_STATE :: string where
  "DETERMINISTIC_CLOCK_STATE = ''deterministic-clock.state''"

definition DETERMINISTIC_TIMER_JUMPS :: string where
  "DETERMINISTIC_TIMER_JUMPS = ''deterministic-timer-jumps.log''"

definition DETERMINISTIC_TIMER_JUMPS_CURSOR :: string where
  "DETERMINISTIC_TIMER_JUMPS_CURSOR = ''deterministic-timer-jumps.cursor''"

definition with_file_name :: "path \<Rightarrow> string \<Rightarrow> path" where
  "with_file_name p n = parent_of p @ [n]"

definition read_deterministic_clock_state :: "path \<Rightarrow> DeterministicClockState M" where
  "read_deterministic_clock_state snap =
     bind (read_to_string (snap @ [DETERMINISTIC_CLOCK_STATE])) (\<lambda>raw.
     lift_res (parse_deterministic_clock_state raw))"

definition write_deterministic_clock_state :: "path \<Rightarrow> DeterministicClockState \<Rightarrow> unit M" where
  "write_deterministic_clock_state p st = write_file p (deterministic_clock_state_content st)"

definition deterministic_clock_state_for_start ::
  "DeterministicConfig option \<Rightarrow> path option \<Rightarrow> DeterministicClockState option M" where
  "deterministic_clock_state_for_start det restore =
     (if det = None then ret None
      else
        (case restore of
           None \<Rightarrow> ret (Some initial_deterministic_clock_state)
         | Some snap \<Rightarrow> bind (read_deterministic_clock_state snap) (\<lambda>st. ret (Some st))))"

definition ensure_deterministic_clock_state_file ::
  "path \<Rightarrow> DeterministicClockState option \<Rightarrow> unit M" where
  "ensure_deterministic_clock_state_file stamp st =
     (case st of
        None \<Rightarrow> ret ()
      | Some c \<Rightarrow>
          let p = with_file_name stamp DETERMINISTIC_CLOCK_STATE in
          bind (test_path exists_at p) (\<lambda>x.
          if x then ret () else write_deterministic_clock_state p c))"

definition sync_deterministic_clock_event_sequence :: "path \<Rightarrow> TraceLog option \<Rightarrow> unit M" where
  "sync_deterministic_clock_event_sequence stamp trace =
     (case trace of
        None \<Rightarrow> ret ()
      | Some t \<Rightarrow>
          let p = with_file_name stamp DETERMINISTIC_CLOCK_STATE in
          bind (test_path exists_at p) (\<lambda>x.
          if \<not> x then ret ()
          else
            bind
              (recover_with (bind (read_to_string p) (\<lambda>raw. ret (Some raw)))
                 (\<lambda>e. if e = Io NotFound then ret None else raise e)) (\<lambda>found.
            case found of
              None \<Rightarrow> ret ()
            | Some raw \<Rightarrow>
                bind (lift_res (parse_deterministic_clock_state raw)) (\<lambda>st.
                write_deterministic_clock_state p (st\<lparr>event_sequence := next_sequence t\<rparr>)))))"

subsection \<open>Timer jumps\<close>

fun jump_field :: "(string \<times> nat) list \<Rightarrow> string \<Rightarrow> (string \<times> nat) list" where
  "jump_field m part =
     (case split_once (CHR ''='') part of
        None \<Rightarrow> m
      | Some (k, v) \<Rightarrow> (case parse_uint U64_MAX v of None \<Rightarrow> m | Some n \<Rightarrow> bt_insert k n m))"

definition parse_timer_jump_line :: "string \<Rightarrow> (string \<times> nat) list" where
  "parse_timer_jump_line line = foldl jump_field [] (split_whitespace line)"

definition jump_event :: "(TraceLog \<Rightarrow> bool) \<Rightarrow> string \<Rightarrow> TraceLog \<Rightarrow> TraceLog" where
  "jump_event accepts line t =
     (let m = parse_timer_jump_line line in
      case (map_of m ''deadline_ticks'', map_of m ''counter_frequency_hz'', map_of m ''deadline_nanos'') of
        (Some a, Some b, Some c) \<Rightarrow>
          trace_event accepts ''timer_jump''
            [trace_integer ''deadline_ticks'' (as_i64 a), trace_integer ''counter_frequency_hz'' (as_i64 b),
             trace_integer ''deadline_nanos'' (as_i64 c)] t
      | _ \<Rightarrow> t)"

text \<open>\<open>usize\<close> is 64 bits.\<close>

definition jump_line :: "(TraceLog \<Rightarrow> bool) \<Rightarrow> nat \<times> TraceLog \<Rightarrow> string \<Rightarrow> nat \<times> TraceLog" where
  "jump_line accepts acc line =
     (min U64_MAX (fst acc + (length line + 1)), jump_event accepts line (snd acc))"

text \<open>Slicing a text in the middle of a character panics.\<close>

definition char_boundary :: "string \<Rightarrow> nat \<Rightarrow> bool" where
  "char_boundary s i \<longleftrightarrow> i = 0 \<or> i = length s \<or> (i < length s \<and> \<not> continues (s ! i))"

definition slice_from :: "string \<Rightarrow> nat \<Rightarrow> err + string" where
  "slice_from s i = (if char_boundary s i then Inr (drop i s) else Inl (Bail ''not a char boundary''))"

text \<open>The rows written stay in the trace log also when the cursor cannot be written: the result is the
  log and that error, if any.\<close>

definition import_deterministic_timer_jumps ::
  "(TraceLog \<Rightarrow> bool) \<Rightarrow> path \<Rightarrow> TraceLog option \<Rightarrow> (TraceLog option \<times> err option) M" where
  "import_deterministic_timer_jumps accepts stamp trace =
     (case trace of
        None \<Rightarrow> ret (None, None)
      | Some t \<Rightarrow>
          let jumps = with_file_name stamp DETERMINISTIC_TIMER_JUMPS;
              cursor_path = with_file_name stamp DETERMINISTIC_TIMER_JUMPS_CURSOR in
          bind (test_path exists_at jumps) (\<lambda>x.
          if \<not> x then ret (Some t, None)
          else
            bind (recover_with (bind (read_to_string cursor_path) (\<lambda>raw.
                    ret (case parse_uint U64_MAX (trim raw) of Some n \<Rightarrow> n | None \<Rightarrow> 0)))
                    (\<lambda>_. ret 0)) (\<lambda>cursor.
            bind (read_to_string jumps) (\<lambda>raw.
            let start = min cursor (length raw) in
            bind (lift_res (slice_from raw start)) (\<lambda>rest.
            let (consumed, t') = foldl (jump_line accepts) (start, t) (lines rest) in
            recover_with (bind (write_file cursor_path (show_nat consumed)) (\<lambda>_. ret (Some t', None)))
              (\<lambda>e. ret (Some t', Some e)))))))"

definition flush_deterministic_trace_events ::
  "(TraceLog \<Rightarrow> bool) \<Rightarrow> Layout \<Rightarrow> TraceLog option \<Rightarrow> (TraceLog option \<times> err option) M" where
  "flush_deterministic_trace_events accepts l trace =
     (let stamp = l_run_dir l @ [''initramfs.stamp''] in
      bind (import_deterministic_timer_jumps accepts stamp trace) (\<lambda>(t, failed).
      if failed \<noteq> None then ret (t, failed)
      else
        recover_with (bind (sync_deterministic_clock_event_sequence stamp t) (\<lambda>_. ret (t, None)))
          (\<lambda>e. ret (t, Some e))))"

end
