(* ===== verification/Rootfs.thy ===== *)
theory Rootfs
  imports Paths "HOL-Library.Word"
begin

text \<open>
  What \<open>src/init.rs\<close> knows about root file system images: the ext4 superblock it reads, the
  contract a managed image has to meet, and the pass that punches holes into an image where it is
  all zeros. How the host file system reports extents, how much a read returns and whether a hole
  can be punched are arguments.
\<close>

subsection \<open>The ext4 superblock\<close>

definition REQUIRED_EXT4_BLOCK_SIZE :: nat where
  "REQUIRED_EXT4_BLOCK_SIZE = 16 * 1024"

definition EXT4_SUPERBLOCK_OFFSET :: nat where
  "EXT4_SUPERBLOCK_OFFSET = 1024"

definition EXT4_SUPERBLOCK_LEN :: nat where
  "EXT4_SUPERBLOCK_LEN = 1024"

definition EXT4_MAGIC :: nat where
  "EXT4_MAGIC = 0xEF53"

definition EXT4_ERROR_FS :: "16 word" where
  "EXT4_ERROR_FS = 0x0002"

record Ext4Superblock =
  log_block_size :: nat
  sb_state :: "16 word"
  sb_errors :: "16 word"

text \<open>\<open>checked_shl\<close> checks the shift amount only: bits shifted out are lost.\<close>

definition block_size :: "Ext4Superblock \<Rightarrow> err + nat" where
  "block_size sb =
     (if log_block_size sb < 64 then Inr (unat (push_bit (log_block_size sb) (1024 :: 64 word)))
      else Inl (Bail ''invalid ext4 block size''))"

definition has_errors :: "Ext4Superblock \<Rightarrow> bool" where
  "has_errors sb \<longleftrightarrow> and (sb_state sb) EXT4_ERROR_FS \<noteq> 0"

text \<open>\<open>open\<close>, \<open>seek\<close> and \<open>read_exact\<close>.\<close>

definition read_range :: "path \<Rightarrow> nat \<Rightarrow> nat \<Rightarrow> string M" where
  "read_range p off n =
     bind (open_file p) (\<lambda>_.
     bind (read_file p) (\<lambda>c.
     if off + n \<le> length c then ret (take n (drop off c)) else raise (Io OtherIo)))"

lemma readonly_read_range [read_rules]: "readonly (read_range p off n)"
  unfolding read_range_def by (intro read_rules)

definition field_at :: "string \<Rightarrow> nat \<Rightarrow> nat \<Rightarrow> nat" where
  "field_at b off n = from_le (take n (drop off b))"

definition read_ext4_superblock :: "path \<Rightarrow> Ext4Superblock M" where
  "read_ext4_superblock p =
     bind (read_range p EXT4_SUPERBLOCK_OFFSET EXT4_SUPERBLOCK_LEN) (\<lambda>sb.
     if field_at sb 56 2 \<noteq> EXT4_MAGIC
     then raise (Bail (''rootfs '' @ os_str p @ '' is not an ext2/3/4 filesystem''))
     else
       ret \<lparr>log_block_size = field_at sb 24 4, sb_state = word_of_nat (field_at sb 58 2),
            sb_errors = word_of_nat (field_at sb 60 2)\<rparr>)"

definition ext4_block_size :: "path \<Rightarrow> nat M" where
  "ext4_block_size p = bind (read_ext4_superblock p) (\<lambda>sb. lift_res (block_size sb))"

definition hex4 :: "nat \<Rightarrow> string" where
  "hex4 n = pad0 4 (show_hex n)"

definition ensure_ext4_has_no_errors :: "path \<Rightarrow> string \<Rightarrow> unit M" where
  "ensure_ext4_has_no_errors p label =
     bind (read_ext4_superblock p) (\<lambda>sb.
     if has_errors sb
     then raise (Bail (label @ '' '' @ os_str p @ '' is marked with ext4 errors (state=0x'' @
            hex4 (unat (sb_state sb)) @ '', errors=0x'' @ hex4 (unat (sb_errors sb)) @
            ''); run e2fsck before restoring or snapshotting it''))
     else ret ())"

definition validate_snapshot_rootfs :: "path \<Rightarrow> unit M" where
  "validate_snapshot_rootfs snap = ensure_ext4_has_no_errors (snap @ [''rootfs.ext4'']) ''snapshot rootfs''"

definition format_size :: "nat \<Rightarrow> string" where
  "format_size n =
     (if n mod 1073741824 = 0 then show_nat (n div 1073741824) @ ''GiB'' else show_nat n @ '' bytes'')"

definition validate_managed_rootfs :: "path \<Rightarrow> nat \<Rightarrow> unit M" where
  "validate_managed_rootfs p min_size =
     bind (file_len p) (\<lambda>size.
     if size < min_size
     then raise (Bail (''rootfs '' @ os_str p @ '' is '' @ format_size size @ '', expected at least '' @
            format_size min_size))
     else
       bind (ext4_block_size p) (\<lambda>b.
       if b \<noteq> REQUIRED_EXT4_BLOCK_SIZE
       then raise (Bail (''rootfs '' @ os_str p @ '' has ext4 block size '' @ show_nat b @ '', expected '' @
              show_nat REQUIRED_EXT4_BLOCK_SIZE @ '' for the 16K-page DAX kernel''))
       else ret ()))"

definition DEFAULT_ROOTFS_SIZE :: nat where
  "DEFAULT_ROOTFS_SIZE = 64 * 1024 * 1024 * 1024"

definition validate_managed_rootfs_at :: "path \<Rightarrow> unit M" where
  "validate_managed_rootfs_at p = validate_managed_rootfs p DEFAULT_ROOTFS_SIZE"

subsection \<open>Growing an image\<close>

text \<open>\<open>e2fsck -fy\<close> gives an exit status (none when a signal ended it) and \<open>resize2fs\<close> says whether it
  succeeded; both leave the file with some contents.\<close>

record fs_tools =
  e2fsck :: "string \<Rightarrow> int option \<times> string"
  resize2fs :: "string \<Rightarrow> bool \<times> string"

definition set_len :: "path \<Rightarrow> nat \<Rightarrow> unit M" where
  "set_len p n =
     call intact (\<lambda>t. case lookup t p of
        None \<Rightarrow> Inl (missing_kind t p)
      | Some (Reg c b) \<Rightarrow>
          Inr ((), put p (Some (Reg (take n c @ replicate (n - length c) (CHR 0x00)) False)) t)
      | Some _ \<Rightarrow> Inl OtherIo)"

text \<open>A tool working on a file in place: it leaves what it makes of the contents, or anything when it
  is cut short.\<close>

definition run_tool :: "(string \<Rightarrow> 'a \<times> string) \<Rightarrow> path \<Rightarrow> 'a M" where
  "run_tool f p =
     call (overwrite p) (\<lambda>t. case lookup t p of
        None \<Rightarrow> Inl (missing_kind t p)
      | Some (Reg c b) \<Rightarrow> Inr (fst (f c), put p (Some (Reg (snd (f c)) False)) t)
      | Some _ \<Rightarrow> Inl OtherIo)"

text \<open>\<open>code & !3 == 0\<close> for an exit status: the file system is clean, or was repaired.\<close>

definition fsck_clean :: "int option \<Rightarrow> bool" where
  "fsck_clean st = (case st of Some code \<Rightarrow> and code (not 3) = 0 | None \<Rightarrow> False)"

subsection \<open>Punching holes\<close>

datatype ExtentSeek = Found nat | NotFoundExtent | UnsupportedExtent | SeekFails

text \<open>The file as the host sees it: where the next data and the next hole after an offset are, how many
  of the bytes asked for a read at an offset returns (at least one before the end of the file), and
  whether a hole can be punched there.\<close>

record host_file =
  seek_data :: "nat \<Rightarrow> ExtentSeek"
  seek_hole :: "nat \<Rightarrow> ExtentSeek"
  read_count :: "nat \<Rightarrow> nat"
  can_punch :: "nat \<Rightarrow> bool"

definition zero_byte :: "char \<Rightarrow> bool" where
  "zero_byte c \<longleftrightarrow> c = CHR 0x00"

definition read_at :: "host_file \<Rightarrow> string \<Rightarrow> nat \<Rightarrow> nat \<Rightarrow> string" where
  "read_at h c off n = take (min n (max 1 (read_count h off))) (drop off c)"

text \<open>A punched range reads as zeros.\<close>

definition punch_hole :: "nat \<Rightarrow> nat \<Rightarrow> string \<Rightarrow> string" where
  "punch_hole off n c = take off c @ replicate (min n (length c - off)) (CHR 0x00) @ drop (off + n) c"

text \<open>The buffer is not empty (\<open>ZERO_SCAN_BLOCK\<close>), so a read inside the file makes progress.\<close>

function scan_range_for_holes :: "host_file \<Rightarrow> nat \<Rightarrow> nat \<Rightarrow> nat \<Rightarrow> string \<Rightarrow> string" where
  "scan_range_for_holes h blk off stop c =
     (if off < stop
      then
        (let buf = read_at h c off (min (stop - off) blk) in
         if buf = [] then c
         else if list_all zero_byte buf then
           (if can_punch h off
            then scan_range_for_holes h blk (off + length buf) stop (punch_hole off (length buf) c)
            else c)
         else scan_range_for_holes h blk (off + length buf) stop c)
      else c)"
  by pat_completeness auto
termination
  by (relation "measure (\<lambda>(h, blk, off, stop, c). stop - off)") (auto simp: Let_def intro!: diff_less_mono2)

declare scan_range_for_holes.simps [simp del]

text \<open>The scan over the data extents: \<open>Inr False\<close> when the host cannot report them.\<close>

partial_function (option) scan_data_extents_for_holes ::
  "host_file \<Rightarrow> nat \<Rightarrow> nat \<Rightarrow> nat \<Rightarrow> string \<Rightarrow> ((err + bool) \<times> string) option" where
  "scan_data_extents_for_holes h blk len off c =
     (if off < len
      then
        (case seek_data h off of
           SeekFails \<Rightarrow> Some (Inl (Io OtherIo), c)
         | NotFoundExtent \<Rightarrow> Some (Inr True, c)
         | UnsupportedExtent \<Rightarrow> Some (Inr False, c)
         | Found d \<Rightarrow>
             (case seek_hole h d of
                SeekFails \<Rightarrow> Some (Inl (Io OtherIo), c)
              | NotFoundExtent \<Rightarrow> Some (Inr False, c)
              | UnsupportedExtent \<Rightarrow> Some (Inr False, c)
              | Found e \<Rightarrow>
                  scan_data_extents_for_holes h blk len (max e (d + 1))
                    (scan_range_for_holes h blk d (min e len) c)))
      else Some (Inr True, c))"

definition punch_holes :: "host_file \<Rightarrow> nat \<Rightarrow> string \<Rightarrow> ((err + unit) \<times> string) option" where
  "punch_holes h blk c =
     map_option (\<lambda>(r, c').
        case r of
          Inl x \<Rightarrow> (Inl x, c')
        | Inr True \<Rightarrow> (Inr (), c')
        | Inr False \<Rightarrow> (Inr (), scan_range_for_holes h blk 0 (length c) c'))
       (scan_data_extents_for_holes h blk (length c) 0 c)"

text \<open>The last resort of \<open>punch_holes\<close> is the same loop over the whole file: it reads whole blocks
  instead of \<open>min (stop - off) blk\<close> bytes, which is the same since the file ends at \<open>stop\<close>.\<close>

definition ZERO_SCAN_BLOCK :: nat where
  "ZERO_SCAN_BLOCK = 16 * 1024 * 1024"

definition punch_holes_at :: "host_file \<Rightarrow> path \<Rightarrow> unit M" where
  "punch_holes_at h p =
     bind (read_file p) (\<lambda>c.
     case punch_holes h ZERO_SCAN_BLOCK c of
       None \<Rightarrow> raise (Bail ''does not end'')
     | Some (r, c') \<Rightarrow>
         bind (call intact (\<lambda>t. Inr ((), put p (Some (Reg c' False)) t))) (\<lambda>_. lift_res r))"

definition ensure_rootfs_min_size :: "fs_tools \<Rightarrow> host_file \<Rightarrow> path \<Rightarrow> nat \<Rightarrow> unit M" where
  "ensure_rootfs_min_size tools h p min_size =
     bind (file_len p) (\<lambda>size.
     if min_size \<le> size then ret ()
     else
       bind (set_len p min_size) (\<lambda>_.
       bind (run_tool (e2fsck tools) p) (\<lambda>st.
       if \<not> fsck_clean st then raise (Bail ''e2fsck failed'')
       else
         bind (run_tool (resize2fs tools) p) (\<lambda>ok.
         if \<not> ok then raise (Bail ''resize2fs failed'')
         else punch_holes_at h p))))"

end
