(* ===== verification/Snapshots.thy ===== *)
theory Snapshots
  imports Deterministic Rootfs Protocol
begin

text \<open>
  What a memory snapshot records about the VM it came from, and the checks of
  \<open>src/runner/snapshots.rs\<close> that decide whether a VM configuration can resume it: the guest agent,
  the host shares, the deterministic mode and the shape of the VM.
\<close>

subsection \<open>The header of the VM state\<close>

definition SNAPSHOT_VMSTATE_VERSION :: nat where
  "SNAPSHOT_VMSTATE_VERSION = 4"

record SnapshotVmConfig =
  vm_version :: nat
  memory_bytes :: nat
  vcpu_count :: nat

definition vm_memory_mib :: "SnapshotVmConfig \<Rightarrow> nat" where
  "vm_memory_mib c = memory_bytes c div 1024 div 1024"

definition vm_matches :: "SnapshotVmConfig \<Rightarrow> nat \<Rightarrow> nat \<Rightarrow> bool" where
  "vm_matches c n mib \<longleftrightarrow> vcpu_count c = n \<and> vm_memory_mib c = mib"

definition VM_STATE :: string where
  "VM_STATE = ''vmstate.bin''"

definition parse_header :: "path \<Rightarrow> string \<Rightarrow> err + SnapshotVmConfig" where
  "parse_header p header =
     (if take 8 header \<noteq> ''LKRNSS01'' then Inl (Bail (''bad snapshot magic in '' @ os_str p))
      else
        (let v = field_at header 8 4 in
         if v \<noteq> SNAPSHOT_VMSTATE_VERSION
         then Inl (Bail (''unsupported snapshot version '' @ show_nat v @ '' in '' @ os_str p))
         else
           Inr \<lparr>vm_version = v, memory_bytes = field_at header 16 8, vcpu_count = field_at header 32 4\<rparr>))"

definition snapshot_vm_config :: "path \<Rightarrow> SnapshotVmConfig option M" where
  "snapshot_vm_config snap =
     (let p = snap @ [VM_STATE] in
      bind (test_path exists_at p) (\<lambda>x.
      if \<not> x then ret None
      else
        bind (read_range p 0 40) (\<lambda>header.
        bind (lift_res (parse_header p header)) (\<lambda>c. ret (Some c)))))"

definition drop_memory_guidance :: "string \<Rightarrow> string" where
  "drop_memory_guidance name =
     ''recovery: `lnx --instance '' @ name @
     '' snapshots clear` drops the saved memory; the next run boots from the saved disk''"

subsection \<open>The guest agent\<close>

fun find_map :: "('a \<Rightarrow> 'b option) \<Rightarrow> 'a list \<Rightarrow> 'b option" where
  "find_map f [] = None"
| "find_map f (x # xs) = (case f x of Some y \<Rightarrow> Some y | None \<Rightarrow> find_map f xs)"

record AgentStamp =
  as_source :: "string option"
  as_protocol :: "nat option"

text \<open>\<open>fs::read_to_string(path).ok()\<close>\<close>

definition read_ok :: "path \<Rightarrow> string option M" where
  "read_ok p = recover_with (bind (read_to_string p) (\<lambda>c. ret (Some c))) (\<lambda>_. ret None)"

lemma readonly_read_ok [read_rules]: "readonly (read_ok p)"
  unfolding read_ok_def by (intro read_rules)

definition stamp_key_of :: "string \<Rightarrow> string option" where
  "stamp_key_of stamp =
     (case find_map (\<lambda>l. strip_prefix l ''source='') (lines stamp) of
        Some v \<Rightarrow> Some (''source='' @ v)
      | None \<Rightarrow>
          (case find_map (\<lambda>l. strip_prefix l ''sha256='') (lines stamp) of
             Some v \<Rightarrow> Some (''sha256='' @ v)
           | None \<Rightarrow> None))"

definition initramfs_stamp_key :: "path \<Rightarrow> string option M" where
  "initramfs_stamp_key p =
     bind (read_ok p) (\<lambda>c. ret (case c of None \<Rightarrow> None | Some stamp \<Rightarrow> stamp_key_of stamp))"

definition stamp_protocol_of :: "string \<Rightarrow> nat option" where
  "stamp_protocol_of stamp =
     (case find_map (\<lambda>l. strip_prefix l ''protocol='') (lines stamp) of
        None \<Rightarrow> None
      | Some v \<Rightarrow> parse_uint 65535 v)"

definition read_agent_stamp :: "path \<Rightarrow> AgentStamp M" where
  "read_agent_stamp p =
     bind (read_ok p) (\<lambda>c.
     bind (initramfs_stamp_key p) (\<lambda>src.
     ret \<lparr>as_source = src,
          as_protocol = (case c of None \<Rightarrow> None | Some stamp \<Rightarrow> stamp_protocol_of stamp)\<rparr>))"

definition agent_incompatibility :: "AgentStamp \<Rightarrow> AgentStamp \<Rightarrow> bool \<Rightarrow> string option" where
  "agent_incompatibility snap cur det =
     (case (as_protocol snap, as_protocol cur) of
        (Some sp, Some cp) \<Rightarrow>
          if \<not> det
          then
            (if sp \<le> cp \<and> agent_protocol_supported sp then None
             else Some (''its guest agent speaks lnx protocol '' @ show_nat sp @ '', this lnx speaks '' @ show_nat cp))
          else
            (if as_source snap = None \<or> as_source snap \<noteq> as_source cur
             then Some ''it was taken by a different version of the lnx guest agent'' else None)
      | _ \<Rightarrow>
          if as_source snap = None \<or> as_source snap \<noteq> as_source cur
          then Some ''it was taken by a different version of the lnx guest agent'' else None)"

definition INITRAMFS_STAMP :: string where
  "INITRAMFS_STAMP = ''initramfs.stamp''"

definition snapshot_agent_incompatibility :: "path \<Rightarrow> path \<Rightarrow> bool \<Rightarrow> string option M" where
  "snapshot_agent_incompatibility snap current_stamp det =
     bind (read_agent_stamp (snap @ [INITRAMFS_STAMP])) (\<lambda>a.
     bind (read_agent_stamp current_stamp) (\<lambda>b.
     ret (agent_incompatibility a b det)))"

subsection \<open>Whether a snapshot can be resumed\<close>

definition shape_incompatibility :: "path \<Rightarrow> RunConfig \<Rightarrow> string option M" where
  "shape_incompatibility snap c =
     bind (snapshot_vm_config snap) (\<lambda>vm.
     ret (case vm of
            Some v \<Rightarrow>
              if vm_matches v (cpus c) (memory_mib c) then None
              else Some (''it has '' @ show_nat (vcpu_count v) @ '' CPUs and '' @ show_nat (vm_memory_mib v) @
                         '' MiB of memory, not '' @ show_nat (cpus c) @ '' and '' @ show_nat (memory_mib c))
          | None \<Rightarrow> None))"

definition incompatibility ::
  "(err \<Rightarrow> string) \<Rightarrow> launch_codec \<Rightarrow> path \<Rightarrow> path \<Rightarrow> LaunchMetadata \<Rightarrow> string \<Rightarrow> RunConfig \<Rightarrow> string option M" where
  "incompatibility say lc snap stamp meta det_stamp c =
     bind (snapshot_agent_incompatibility snap stamp (deterministic c \<noteq> None)) (\<lambda>r1.
     case r1 of
       Some reason \<Rightarrow> ret (Some reason)
     | None \<Rightarrow>
         bind (snapshot_launch_incompatibility say lc snap meta) (\<lambda>r2.
         case r2 of
           Some reason \<Rightarrow> ret (Some (''its host shares differ ('' @ reason @ '')''))
         | None \<Rightarrow>
             bind (snapshot_deterministic_incompatibility say snap det_stamp) (\<lambda>r3.
             case r3 of
               Some reason \<Rightarrow> ret (Some (''its deterministic mode differs ('' @ reason @ '')''))
             | None \<Rightarrow> shape_incompatibility snap c)))"

text \<open>The line the run log gets is not part of the result.\<close>

definition validate_restore_compatibility ::
  "(err \<Rightarrow> string) \<Rightarrow> launch_codec \<Rightarrow> path \<Rightarrow> path \<Rightarrow> LaunchMetadata \<Rightarrow> string \<Rightarrow> RunConfig \<Rightarrow> unit M" where
  "validate_restore_compatibility say lc snap stamp meta det_stamp c =
     bind (incompatibility say lc snap stamp meta det_stamp c) (\<lambda>r.
     case r of
       None \<Rightarrow> ret ()
     | Some reason \<Rightarrow>
         raise (Bail (''the saved memory snapshot cannot be resumed: '' @ reason @ [CHR 0x0A] @
                drop_memory_guidance (l_instance (layout c)))))"

subsection \<open>The shape of the latest snapshot\<close>

record SnapshotShape =
  ss_cpus :: nat
  ss_memory_mib :: nat
  ss_nested_kvm :: bool
  ss_no_host_shares :: bool

definition snapshot_shape :: "SnapshotVmConfig \<Rightarrow> LaunchMetadata option \<Rightarrow> SnapshotShape option" where
  "snapshot_shape v meta =
     (if vcpu_count v \<le> 255 \<and> vm_memory_mib v \<le> 4294967295
      then Some \<lparr>ss_cpus = vcpu_count v, ss_memory_mib = vm_memory_mib v,
                 ss_nested_kvm = (case meta of Some m \<Rightarrow> ''--nested-kvm'' \<in> set (owner_args m) | None \<Rightarrow> False),
                 ss_no_host_shares = (case meta of Some m \<Rightarrow> ls_no_host_shares (shares m) | None \<Rightarrow> False)\<rparr>
      else None)"

definition latest_snapshot_shape :: "launch_codec \<Rightarrow> path option M \<Rightarrow> SnapshotShape option M" where
  "latest_snapshot_shape lc latest_dir =
     bind (recover_with latest_dir (\<lambda>_. ret None)) (\<lambda>d.
     case d of
       None \<Rightarrow> ret None
     | Some snap \<Rightarrow>
         bind (recover_with (snapshot_vm_config snap) (\<lambda>_. ret None)) (\<lambda>vm.
         case vm of
           None \<Rightarrow> ret None
         | Some v \<Rightarrow>
             bind (recover_with (bind (read_launch_metadata lc snap) (\<lambda>m. ret (Some m))) (\<lambda>_. ret None)) (\<lambda>meta.
             ret (snapshot_shape v meta))))"

end
