(* ===== verification/LaunchProps.thy ===== *)
theory LaunchProps
  imports Launch Sample
begin

text \<open>
  What the launch arguments and metadata promise: the arguments the owner process is started with
  parse back to the configuration, the nested script passes its arguments through the shell
  unchanged, and launch metadata is compared up to what a resumed guest does not keep.
\<close>

subsection \<open>Forwards and mounts parse back\<close>

lemma colon_show_nat [simp]: "CHR '':'' \<notin> set (show_nat n)"
  using not_digit_notin [OF show_nat_digits] by (simp add: is_ascii_digit_def byte_def)

lemma parse_port_show: "n \<le> 65535 \<Longrightarrow> parse_port (show_nat n) = Inr n"
  by (simp add: parse_port_def parse_uint_show)

lemma parse_port_le: "parse_port v = Inr n \<Longrightarrow> n \<le> 65535"
  by (auto simp: parse_port_def dest: parse_uint_le split: option.splits)

lemma forward_spec_parses:
  assumes "CHR '':'' \<notin> set (listen_host f)" "CHR '':'' \<notin> set (guest_host f)"
    and "listen_port f \<le> 65535" "guest_port f \<le> 65535"
  shows "parse_port_forward (forward_spec f) = Inr f"
proof -
  have "forward_spec f =
      join '':'' [listen_host f, show_nat (listen_port f), guest_host f, show_nat (guest_port f)]"
    by (simp add: forward_spec_def)
  then have "split_on (CHR '':'') (forward_spec f) =
      [listen_host f, show_nat (listen_port f), guest_host f, show_nat (guest_port f)]"
    using split_on_join [of "[listen_host f, show_nat (listen_port f), guest_host f, show_nat (guest_port f)]" "CHR '':''"]
      assms by simp
  with assms show ?thesis
    by (simp add: parse_port_forward_def parse_port_show)
qed

lemma parsed_forward:
  assumes "parse_port_forward v = Inr f"
  shows "CHR '':'' \<notin> set (listen_host f) \<and> CHR '':'' \<notin> set (guest_host f) \<and>
    listen_port f \<le> 65535 \<and> guest_port f \<le> 65535"
proof -
  have no: "CHR '':'' \<notin> set x" if "x \<in> set (split_on (CHR '':'') v)" for x
    using that by (rule split_on_no_sep)
  consider (two) lp gp where "split_on (CHR '':'') v = [lp, gp]"
    | (four) lh lp gh gp where "split_on (CHR '':'') v = [lh, lp, gh, gp]"
    using assms by (simp add: parse_port_forward_def split: list.splits)
  then show ?thesis
  proof cases
    case two
    with assms show ?thesis
      by (auto simp: parse_port_forward_def dest!: and_then_InrD dest: parse_port_le)
  next
    case four
    with no have "CHR '':'' \<notin> set lh" "CHR '':'' \<notin> set gh" by simp_all
    with four assms show ?thesis
      by (auto simp: parse_port_forward_def dest!: and_then_InrD dest: parse_port_le)
  qed
qed

lemma comma_not_tag [simp]: "\<not> tag_byte (CHR '','')"
  by (simp add: tag_byte_def is_ascii_alphanumeric_def is_ascii_digit_def is_ascii_upper_def
      is_ascii_lower_def byte_def)

lemma validated_mount:
  assumes "validate_vhost_user_fs_mount m = Inr ()"
  shows "v_read_only m" "CHR '','' \<notin> set (v_tag m)" "CHR '','' \<notin> set (mountpoint m)"
    "CHR '','' \<notin> set (v_socket m)"
  using assms by (auto simp: validate_vhost_user_fs_mount_def list_all_iff split: if_splits)

lemma mount_arg_parses:
  assumes "validate_vhost_user_fs_mount m = Inr ()"
  shows "parse_vhost_user_fs_mount (vhost_user_fs_arg m) = Inr m"
proof -
  note v = validated_mount [OF assms]
  have "vhost_user_fs_arg m =
      join '','' [''tag='' @ v_tag m, ''mount='' @ mountpoint m, ''socket='' @ v_socket m, ''ro'']"
    using v(1) by (simp add: vhost_user_fs_arg_def)
  then have sp: "split_on (CHR '','') (vhost_user_fs_arg m) =
      [''tag='' @ v_tag m, ''mount='' @ mountpoint m, ''socket='' @ v_socket m, ''ro'']"
    using split_on_join [of "[''tag='' @ v_tag m, ''mount='' @ mountpoint m, ''socket='' @ v_socket m, ''ro'']" "CHR '',''"]
      v by simp
  have "m = \<lparr>v_tag = v_tag m, mountpoint = mountpoint m, v_socket = v_socket m, v_read_only = True\<rparr>"
    using v(1) by (cases m) simp
  with assms show ?thesis
    by (simp add: parse_vhost_user_fs_mount_def sp ok_or_def Let_def)
qed

lemma parsed_mount:
  assumes "parse_vhost_user_fs_mount v = Inr m"
  shows "validate_vhost_user_fs_mount m = Inr ()"
  using assms unfolding parse_vhost_user_fs_mount_def
  by (auto simp: Let_def dest!: and_then_InrD)

text \<open>C36: The owner process of a VM is started with the forwards and mounts of its configuration
  written out as arguments. Whatever forward or mount the command line accepted is accepted again
  when the owner parses those arguments, and is the same one.\<close>

theorem owner_args_parse_back:
  "(parse_port_forward v = Inr f \<longrightarrow> parse_port_forward (forward_spec f) = Inr f) \<and>
   (parse_vhost_user_fs_mount w = Inr m \<longrightarrow> parse_vhost_user_fs_mount (vhost_user_fs_arg m) = Inr m)"
  using parsed_forward [of v f] forward_spec_parses [of f] parsed_mount [of w m] mount_arg_parses [of m]
  by blast

definition web_forward :: PortForward where
  "web_forward =
     \<lparr>listen_host = ''127.0.0.1'', listen_port = 8080, guest_host = ''127.0.0.1'', guest_port = 80\<rparr>"

definition sample_mount :: VhostUserFsMount where
  "sample_mount = \<lparr>v_tag = ''data'', mountpoint = ''/mnt/data'', v_socket = ''/tmp/s'', v_read_only = True\<rparr>"

theorem owner_args_parse_back_witness:
  "parse_port_forward ''8080:80'' = Inr web_forward \<and>
   parse_port_forward (forward_spec web_forward) = Inr web_forward \<and>
   parse_vhost_user_fs_mount ''socket=/tmp/s,mount=/mnt/data,tag=data'' = Inr sample_mount \<and>
   parse_vhost_user_fs_mount (vhost_user_fs_arg sample_mount) = Inr sample_mount"
proof -
  have f: "parse_port_forward ''8080:80'' = Inr web_forward" by code_simp
  have m: "parse_vhost_user_fs_mount ''socket=/tmp/s,mount=/mnt/data,tag=data'' = Inr sample_mount"
    by code_simp
  show ?thesis
    using owner_args_parse_back [of "''8080:80''" web_forward
        "''socket=/tmp/s,mount=/mnt/data,tag=data''" sample_mount] f m by blast
qed

subsection \<open>The shell\<close>

text \<open>The words a POSIX shell makes of a command line in which only blanks, single quotes and
  backslashes are special; none where another special character stands unquoted.\<close>

definition sh_special :: "char \<Rightarrow> bool" where
  "sh_special c \<longleftrightarrow> c \<in> set ''|&;<>()$`\"*?[#~=%!{}'' \<or> c = CHR 0x09 \<or> c = CHR 0x0A"

fun sh_lex :: "string option \<Rightarrow> string \<Rightarrow> string list option"
  and sh_quoted :: "string \<Rightarrow> string \<Rightarrow> string list option"
  and sh_escaped :: "string \<Rightarrow> string \<Rightarrow> string list option" where
  "sh_lex w [] = Some (case w of None \<Rightarrow> [] | Some x \<Rightarrow> [x])"
| "sh_lex w (c # s) =
     (let cur = (case w of None \<Rightarrow> [] | Some x \<Rightarrow> x) in
      if c = CHR '' '' then map_option (append (case w of None \<Rightarrow> [] | Some x \<Rightarrow> [x])) (sh_lex None s)
      else if c = quote_char then sh_quoted cur s
      else if c = CHR 0x5C then sh_escaped cur s
      else if sh_special c then None
      else sh_lex (Some (cur @ [c])) s)"
| "sh_quoted w [] = None"
| "sh_quoted w (c # s) = (if c = quote_char then sh_lex (Some w) s else sh_quoted (w @ [c]) s)"
| "sh_escaped w [] = None"
| "sh_escaped w (c # s) = sh_lex (Some (w @ [c])) s"

definition quote_piece :: "char \<Rightarrow> string" where
  "quote_piece c = (if c = quote_char then [quote_char, CHR 0x5C, quote_char, quote_char] else [c])"

lemma sh_quoted_pieces: "sh_quoted w (concat (map quote_piece v) @ s) = sh_quoted (w @ v) s"
  by (induction v arbitrary: w) (auto simp: quote_piece_def quote_char_def Let_def)

lemma shell_quote_pieces: "shell_quote v = quote_char # concat (map quote_piece v) @ [quote_char]"
  by (simp add: shell_quote_def quote_piece_def [abs_def])

lemma sh_lex_quote: "sh_lex None (shell_quote v @ s) = sh_lex (Some v) s"
  by (simp add: shell_quote_pieces sh_quoted_pieces Let_def) (simp add: quote_char_def sh_quoted_pieces [simplified])

lemma sh_lex_words: "sh_lex None (join '' '' (map shell_quote args)) = Some args"
proof (induction args)
  case (Cons v args)
  then show ?case
    using sh_lex_quote [of v "[]"] by (cases args) (simp_all add: sh_lex_quote Let_def)
qed simp

text \<open>The script that runs a deterministic VM inside another VM ends in a command whose words,
  after the shell has removed the quotes, are exactly the arguments meant for the nested process,
  whatever characters they contain.\<close>

theorem script_passes_arguments:
  "\<exists>pre line. nested_deterministic_script linux_lnx bas run_base args = pre @ ''exec \"$LNX_BIN\" '' @ line \<and>
     sh_lex None line = Some args"
proof -
  have last: "\<exists>pre. join [CHR 0x0A] (ls @ [l]) = pre @ l" for ls :: "string list" and l
  proof (induction ls)
    case (Cons a ls)
    then obtain pre where "join [CHR 0x0A] (ls @ [l]) = pre @ l" by blast
    then have "join [CHR 0x0A] ((a # ls) @ [l]) = (a @ CHR 0x0A # pre) @ l" by (cases ls) auto
    then show ?case by blast
  qed (auto intro: exI [of _ "[]"])
  let ?l = "join '' '' (map shell_quote args)"
  obtain ls where "nested_deterministic_script linux_lnx bas run_base args =
      join [CHR 0x0A] (ls @ [''exec \"$LNX_BIN\" '' @ ?l])"
    unfolding nested_deterministic_script_def append_assoc [symmetric] by blast
  with last [of ls "''exec \"$LNX_BIN\" '' @ ?l"] show ?thesis
    using sh_lex_words [of args] by (metis append_assoc)
qed

subsection \<open>Comparing metadata\<close>

text \<open>Metadata written is metadata read back.\<close>

lemma matches_refl [simp]: "launch_metadata_matches_ignoring_cwd m m"
  by (simp add: launch_metadata_matches_ignoring_cwd_def same_mounts_def)

lemma matches_sym:
  "launch_metadata_matches_ignoring_cwd a b \<longleftrightarrow> launch_metadata_matches_ignoring_cwd b a"
  by (auto simp: launch_metadata_matches_ignoring_cwd_def same_mounts_def)

lemma matches_home:
  "launch_metadata_matches_ignoring_cwd a b \<Longrightarrow> ls_host_home (shares a) = ls_host_home (shares b)"
  by (cases "shares a", cases "shares b") (simp add: launch_metadata_matches_ignoring_cwd_def)

text \<open>Metadata that differs in what the comparison ignores still matches.\<close>

lemma matches_any_cwd:
  "launch_metadata_matches_ignoring_cwd
     (m\<lparr>owner_args := args, shares := (shares m)\<lparr>ls_outside_home_cwd := d\<rparr>\<rparr>) m"
  by (simp add: launch_metadata_matches_ignoring_cwd_def same_mounts_def)

text \<open>The order of the mounts counts in the comparison but not in its explanation, and neither does
  the version of the metadata: such a snapshot is refused with the message that the metadata
  differs only in ignored fields.\<close>

definition sample_metadata :: "nat \<Rightarrow> LaunchVhostUserFsMount list \<Rightarrow> LaunchMetadata" where
  "sample_metadata n ms =
     \<lparr>lm_version = n, owner_args = [], dax = True, shares = launch_shares True [] None,
      lm_vhost_user_fs = ms\<rparr>"

definition sample_launch_mount :: "string \<Rightarrow> LaunchVhostUserFsMount" where
  "sample_launch_mount t = \<lparr>lv_tag = t, lv_mount = ''/m'', lv_socket = ''/s'', lv_read_only = True\<rparr>"

lemma order_refused_as_ignored:
  "\<not> launch_metadata_matches_ignoring_cwd
      (sample_metadata 2 [sample_launch_mount ''a'', sample_launch_mount ''b''])
      (sample_metadata 2 [sample_launch_mount ''b'', sample_launch_mount ''a'']) \<and>
   describe_launch_mismatch
      (sample_metadata 2 [sample_launch_mount ''a'', sample_launch_mount ''b''])
      (sample_metadata 2 [sample_launch_mount ''b'', sample_launch_mount ''a'']) =
     ''share_mismatch: launch metadata differs only in ignored fields''"
  by code_simp

lemma old_version_refused_as_ignored:
  "\<not> launch_metadata_matches_ignoring_cwd (sample_metadata 1 ms) (sample_metadata 2 ms) \<and>
   describe_launch_mismatch (sample_metadata 1 ms) (sample_metadata 2 ms) =
     ''share_mismatch: launch metadata differs only in ignored fields''"
  by (simp add: launch_metadata_matches_ignoring_cwd_def describe_launch_mismatch_def
      launch_mismatches_def sample_metadata_def same_mounts_def)

end
