(* ===== verification/SnapshotsProps.thy ===== *)
theory SnapshotsProps
  imports Snapshots LaunchProps Calm
begin

text \<open>
  When a memory snapshot is resumed: exactly when everything the snapshot records about its VM
  matches the configuration.
\<close>

subsection \<open>What the checks read\<close>

definition text_at :: "path \<Rightarrow> node \<Rightarrow> string option" where
  "text_at p t = (case contents p t of Ok c \<Rightarrow> if is_utf8 c then Some c else None | _ \<Rightarrow> None)"

definition agent_stamp_at :: "path \<Rightarrow> node \<Rightarrow> AgentStamp" where
  "agent_stamp_at p t =
     \<lparr>as_source = Option.bind (text_at p t) stamp_key_of,
      as_protocol = Option.bind (text_at p t) stamp_protocol_of\<rparr>"

lemma contents_not_Killed [simp]: "contents p t \<noteq> Killed"
  by (simp add: contents_def split: option.splits node.splits)

lemma gives_read_ok [gives_rules]: "gives (read_ok p) (\<lambda>t. Ok (text_at p t))"
  unfolding read_ok_def
  by (rule gives_eq, (rule gives_rules)+) (auto simp: text_at_def split: res.splits)

lemma gives_stamp_key [gives_rules]:
  "gives (initramfs_stamp_key p) (\<lambda>t. Ok (Option.bind (text_at p t) stamp_key_of))"
  unfolding initramfs_stamp_key_def
  by (rule gives_eq, (rule gives_rules)+) (auto split: option.splits)

lemma gives_agent_stamp [gives_rules]: "gives (read_agent_stamp p) (\<lambda>t. Ok (agent_stamp_at p t))"
  unfolding read_agent_stamp_def
  by (rule gives_eq, (rule gives_rules)+) (auto simp: agent_stamp_at_def split: option.splits)

lemma gives_agent_incompatibility [gives_rules]:
  "gives (snapshot_agent_incompatibility snap stamp det)
     (\<lambda>t. Ok (agent_incompatibility (agent_stamp_at (snap @ [INITRAMFS_STAMP]) t) (agent_stamp_at stamp t) det))"
  unfolding snapshot_agent_incompatibility_def
  by (rule gives_eq, (rule gives_rules)+) simp

lemma gives_read_range [gives_rules]:
  "gives (read_range p off n)
     (\<lambda>t. case contents p t of
        Ok c \<Rightarrow> if off + n \<le> length c then Ok (take n (drop off c)) else Err (Io OtherIo)
      | Err x \<Rightarrow> Err x
      | Killed \<Rightarrow> Killed)"
  unfolding read_range_def
  by (rule gives_eq, (rule gives_rules)+) (auto simp: contents_def split: option.splits node.splits)

lemma gives_vm_config [gives_rules]:
  "gives (snapshot_vm_config snap)
     (\<lambda>t. if exists_at t (snap @ [VM_STATE])
          then (case contents (snap @ [VM_STATE]) t of
                  Ok c \<Rightarrow>
                    if 40 \<le> length c
                    then (case parse_header (snap @ [VM_STATE]) (take 40 c) of Inl x \<Rightarrow> Err x | Inr v \<Rightarrow> Ok (Some v))
                    else Err (Io OtherIo)
                | Err x \<Rightarrow> Err x | Killed \<Rightarrow> Killed)
          else Ok None)"
  unfolding snapshot_vm_config_def Let_def
  by (rule gives_eq, (rule gives_rules)+) (auto split: res.splits sum.splits)

lemma gives_read_launch_metadata [gives_rules]:
  "gives (read_launch_metadata lc snap)
     (\<lambda>t. case contents (snap @ [LAUNCH_METADATA]) t of
        Ok raw \<Rightarrow> (case dec_launch lc raw of None \<Rightarrow> Err (Io OtherIo) | Some m \<Rightarrow> Ok m)
      | Err x \<Rightarrow> Err x | Killed \<Rightarrow> Killed)"
  unfolding read_launch_metadata_def
  by (rule gives_eq, (rule gives_rules)+) simp

lemma gives_launch_incompatibility [gives_rules]:
  "gives (snapshot_launch_incompatibility say lc snap cur)
     (\<lambda>t. Ok (case contents (snap @ [LAUNCH_METADATA]) t of
        Ok raw \<Rightarrow>
          (case dec_launch lc raw of
             None \<Rightarrow> Some (''launch_metadata_unreadable: '' @ say (Io OtherIo))
           | Some m \<Rightarrow> if launch_metadata_matches_ignoring_cwd m cur then None else Some (describe_launch_mismatch m cur))
      | Err x \<Rightarrow> Some (if x = Io NotFound then ''launch_metadata: snapshot has no launch.json''
                       else ''launch_metadata_unreadable: '' @ say x)
      | Killed \<Rightarrow> None))"
  unfolding snapshot_launch_incompatibility_def
  by (rule gives_eq, (rule gives_rules)+) (auto split: res.splits option.splits)

lemma gives_deterministic_incompatibility [gives_rules]:
  "gives (snapshot_deterministic_incompatibility say snap cur)
     (\<lambda>t. Ok (case text_at (snap @ [DETERMINISTIC_STAMP]) t of
        Some stamp \<Rightarrow> if stamp = cur then None else Some (describe_deterministic_stamp_mismatch stamp cur)
      | None \<Rightarrow>
          if contents (snap @ [DETERMINISTIC_STAMP]) t = Err (Io NotFound)
          then (if cur = deterministic_stamp_content None then None
                else Some ''snapshot has no deterministic compatibility stamp'')
          else Some (''deterministic_stamp_unreadable: '' @
                 say (case contents (snap @ [DETERMINISTIC_STAMP]) t of Err x \<Rightarrow> x | _ \<Rightarrow> Io OtherIo))))"
  unfolding snapshot_deterministic_incompatibility_def
  by (rule gives_eq, (rule gives_rules)+) (auto simp: text_at_def split: res.splits)

subsection \<open>Resumable snapshots\<close>

definition agent_ok :: "AgentStamp \<Rightarrow> AgentStamp \<Rightarrow> bool \<Rightarrow> bool" where
  "agent_ok snap cur det \<longleftrightarrow>
     (if \<not> det \<and> as_protocol snap \<noteq> None \<and> as_protocol cur \<noteq> None
      then the (as_protocol snap) \<le> the (as_protocol cur) \<and> agent_protocol_supported (the (as_protocol snap))
      else as_source snap \<noteq> None \<and> as_source snap = as_source cur)"

definition launch_ok :: "launch_codec \<Rightarrow> path \<Rightarrow> LaunchMetadata \<Rightarrow> node \<Rightarrow> bool" where
  "launch_ok lc snap cur t \<longleftrightarrow>
     (\<exists>raw m. contents (snap @ [LAUNCH_METADATA]) t = Ok raw \<and> dec_launch lc raw = Some m \<and>
        launch_metadata_matches_ignoring_cwd m cur)"

definition mode_ok :: "path \<Rightarrow> string \<Rightarrow> node \<Rightarrow> bool" where
  "mode_ok snap cur t \<longleftrightarrow>
     text_at (snap @ [DETERMINISTIC_STAMP]) t = Some cur \<or>
     contents (snap @ [DETERMINISTIC_STAMP]) t = Err (Io NotFound) \<and> cur = deterministic_stamp_content None"

definition shape_ok :: "path \<Rightarrow> RunConfig \<Rightarrow> node \<Rightarrow> bool" where
  "shape_ok snap c t \<longleftrightarrow>
     \<not> exists_at t (snap @ [VM_STATE]) \<or>
     (\<exists>raw v. contents (snap @ [VM_STATE]) t = Ok raw \<and> 40 \<le> length raw \<and>
        parse_header (snap @ [VM_STATE]) (take 40 raw) = Inr v \<and> vm_matches v (cpus c) (memory_mib c))"

lemma agent_incompatibility_None: "agent_incompatibility a b det = None \<longleftrightarrow> agent_ok a b det"
  by (cases "as_protocol a"; cases "as_protocol b"; cases "as_source a")
    (simp_all add: agent_incompatibility_def agent_ok_def)

definition shape_result :: "path \<Rightarrow> RunConfig \<Rightarrow> node \<Rightarrow> string option res" where
  "shape_result snap c t =
     (if exists_at t (snap @ [VM_STATE])
      then
        (case contents (snap @ [VM_STATE]) t of
           Ok r \<Rightarrow>
             if 40 \<le> length r
             then
               (case parse_header (snap @ [VM_STATE]) (take 40 r) of
                  Inl x \<Rightarrow> Err x
                | Inr v \<Rightarrow>
                    Ok (if vm_matches v (cpus c) (memory_mib c) then None
                        else Some (''it has '' @ show_nat (vcpu_count v) @ '' CPUs and '' @ show_nat (vm_memory_mib v) @
                               '' MiB of memory, not '' @ show_nat (cpus c) @ '' and '' @ show_nat (memory_mib c))))
             else Err (Io OtherIo)
         | Err x \<Rightarrow> Err x
         | Killed \<Rightarrow> Killed)
      else Ok None)"

lemma gives_shape_incompatibility [gives_rules]: "gives (shape_incompatibility snap c) (shape_result snap c)"
  unfolding shape_incompatibility_def
  by (rule gives_eq, (rule gives_rules)+) (auto simp: shape_result_def split: res.splits sum.splits)

lemma shape_result_None: "shape_result snap c t = Ok None \<longleftrightarrow> shape_ok snap c t"
  by (auto simp: shape_result_def shape_ok_def split: res.splits sum.splits)

lemma shape_result_not_Killed [simp]: "shape_result snap c t \<noteq> Killed"
  by (simp add: shape_result_def split: res.splits sum.splits)

text \<open>The answer of each check as one of the spec's conditions.\<close>

definition launch_result :: "(err \<Rightarrow> string) \<Rightarrow> launch_codec \<Rightarrow> path \<Rightarrow> LaunchMetadata \<Rightarrow> node \<Rightarrow> string option" where
  "launch_result say lc snap cur t =
     (case contents (snap @ [LAUNCH_METADATA]) t of
        Ok raw \<Rightarrow>
          (case dec_launch lc raw of
             None \<Rightarrow> Some (''launch_metadata_unreadable: '' @ say (Io OtherIo))
           | Some m \<Rightarrow> if launch_metadata_matches_ignoring_cwd m cur then None else Some (describe_launch_mismatch m cur))
      | Err x \<Rightarrow> Some (if x = Io NotFound then ''launch_metadata: snapshot has no launch.json''
                       else ''launch_metadata_unreadable: '' @ say x)
      | Killed \<Rightarrow> None)"

lemma launch_result_None: "launch_result say lc snap cur t = None \<longleftrightarrow> launch_ok lc snap cur t"
  by (auto simp: launch_result_def launch_ok_def split: res.splits option.splits)

definition mode_result :: "(err \<Rightarrow> string) \<Rightarrow> path \<Rightarrow> string \<Rightarrow> node \<Rightarrow> string option" where
  "mode_result say snap cur t =
     (case text_at (snap @ [DETERMINISTIC_STAMP]) t of
        Some stamp \<Rightarrow> if stamp = cur then None else Some (describe_deterministic_stamp_mismatch stamp cur)
      | None \<Rightarrow>
          if contents (snap @ [DETERMINISTIC_STAMP]) t = Err (Io NotFound)
          then (if cur = deterministic_stamp_content None then None
                else Some ''snapshot has no deterministic compatibility stamp'')
          else Some (''deterministic_stamp_unreadable: '' @
                 say (case contents (snap @ [DETERMINISTIC_STAMP]) t of Err x \<Rightarrow> x | _ \<Rightarrow> Io OtherIo)))"

lemma mode_result_None: "mode_result say snap cur t = None \<longleftrightarrow> mode_ok snap cur t"
  by (auto simp: mode_result_def mode_ok_def text_at_def split: option.splits res.splits)

definition reason_result ::
  "(err \<Rightarrow> string) \<Rightarrow> launch_codec \<Rightarrow> path \<Rightarrow> path \<Rightarrow> LaunchMetadata \<Rightarrow> string \<Rightarrow> RunConfig \<Rightarrow> node \<Rightarrow>
   string option res" where
  "reason_result say lc snap stamp cur det_stamp c t =
     (case agent_incompatibility (agent_stamp_at (snap @ [INITRAMFS_STAMP]) t) (agent_stamp_at stamp t)
             (deterministic c \<noteq> None) of
        Some reason \<Rightarrow> Ok (Some reason)
      | None \<Rightarrow>
          (case launch_result say lc snap cur t of
             Some reason \<Rightarrow> Ok (Some (''its host shares differ ('' @ reason @ '')''))
           | None \<Rightarrow>
               (case mode_result say snap det_stamp t of
                  Some reason \<Rightarrow> Ok (Some (''its deterministic mode differs ('' @ reason @ '')''))
                | None \<Rightarrow> shape_result snap c t)))"

lemma gives_incompatibility [gives_rules]:
  "gives (incompatibility say lc snap stamp cur det_stamp c) (reason_result say lc snap stamp cur det_stamp c)"
  unfolding incompatibility_def
  by (rule gives_eq, (rule gives_rules)+)
    (simp add: reason_result_def launch_result_def mode_result_def cong: option.case_cong)

definition resumable ::
  "launch_codec \<Rightarrow> path \<Rightarrow> path \<Rightarrow> LaunchMetadata \<Rightarrow> string \<Rightarrow> RunConfig \<Rightarrow> node \<Rightarrow> bool" where
  "resumable lc snap stamp cur det_stamp c t \<longleftrightarrow>
     agent_ok (agent_stamp_at (snap @ [INITRAMFS_STAMP]) t) (agent_stamp_at stamp t) (deterministic c \<noteq> None) \<and>
     launch_ok lc snap cur t \<and> mode_ok snap det_stamp t \<and> shape_ok snap c t"

text \<open>C30: A saved memory is resumed exactly when it fits the configuration: its guest agent speaks a
  protocol this program supports (or is the same agent), its host shares and devices are the ones
  it was taken with, its deterministic mode is the same and so are its CPUs and memory. Anything
  else is an error, and the check changes nothing on disk.\<close>

theorem restore_exactly_when_compatible:
  assumes "calm e" "validate_restore_compatibility say lc snap stamp cur det_stamp c e s = (r, s')"
  shows "(if resumable lc snap stamp cur det_stamp c (fs s) then r = Ok () else \<exists>x. r = Err x) \<and> fs s' = fs s"
proof -
  let ?q = "reason_result say lc snap stamp cur det_stamp c"
  let ?msg = "\<lambda>reason. Bail (''the saved memory snapshot cannot be resumed: '' @ reason @ [CHR 0x0A] @
    drop_memory_guidance (l_instance (layout c)))"
  have "gives (validate_restore_compatibility say lc snap stamp cur det_stamp c)
      (\<lambda>t. case ?q t of Ok x \<Rightarrow> (case x of None \<Rightarrow> Ok () | Some reason \<Rightarrow> Err (?msg reason))
           | Err x \<Rightarrow> Err x | Killed \<Rightarrow> Killed)"
    unfolding validate_restore_compatibility_def by (rule gives_rules)+
  from givesD [OF this assms(1), of s] assms(2)
  have "r = (case ?q (fs s) of Ok x \<Rightarrow> (case x of None \<Rightarrow> Ok () | Some reason \<Rightarrow> Err (?msg reason))
      | Err x \<Rightarrow> Err x | Killed \<Rightarrow> Killed)" "fs s' = fs s" by simp_all
  moreover have "?q (fs s) = Ok None \<longleftrightarrow> resumable lc snap stamp cur det_stamp c (fs s)"
    by (simp add: reason_result_def resumable_def shape_result_None flip: agent_incompatibility_None
        launch_result_None [of say] mode_result_None [of say] split: option.splits)
  moreover have "?q (fs s) \<noteq> Killed"
    by (simp add: reason_result_def split: option.splits)
  ultimately show ?thesis by (cases "?q (fs s)") (auto split: option.splits)
qed

subsection \<open>A snapshot and a configuration\<close>

definition sample_header :: string where
  "sample_header =
     ''LKRNSS01'' @ [CHR 0x04] @ replicate 9 (CHR 0x00) @ [CHR 0x10] @ replicate 13 (CHR 0x00) @
     [CHR 0x02] @ replicate 8 (CHR 0x00)"

definition sample_run_layout :: Layout where
  "sample_run_layout = resolve_for_base ''dev'' None None [''b''] None [''b'']"

definition resume_config :: RunConfig where
  "resume_config =
     \<lparr>layout = sample_run_layout, command = [], cwd = [''home'', ''u''], cpus = 2, memory_mib = 1,
      nested_kvm = False, restore_snapshot = None, forwards = [],
      exec = \<lparr>run_as_root = False, x_env = [], workdir = None, x_timeout_nanos = None, detach = False, keep_running = False\<rparr>,
      no_host_shares = True, vhost_user_fs = [], reuse_owner = True, deterministic = None, trace_events = False\<rparr>"

definition sample_launch_codec :: launch_codec where
  "sample_launch_codec =
     \<lparr>enc_launch = (\<lambda>_. ''L''), dec_launch = (\<lambda>raw. if raw = ''L'' then Some (sample_metadata 2 []) else None)\<rparr>"

definition sample_stamp :: string where
  "sample_stamp = ''source=abc'' @ [nl] @ ''protocol=12'' @ [nl]"

definition sample_snapshot :: "string \<Rightarrow> node" where
  "sample_snapshot header =
     Sub [(''snap'', Sub [(INITRAMFS_STAMP, Reg sample_stamp True), (LAUNCH_METADATA, Reg ''L'' True),
                         (VM_STATE, Reg header True)]),
          (''stamp'', Reg sample_stamp True)]"

definition sample_validate :: "string \<Rightarrow> unit res \<times> sys" where
  "sample_validate header =
     validate_restore_compatibility (\<lambda>_. []) sample_launch_codec [''snap''] [''stamp''] (sample_metadata 2 [])
       (deterministic_stamp_content None) resume_config sample_env
       \<lparr>fs = sample_snapshot header, tick = 0, seq = 0\<rparr>"

abbreviation sample_resumable :: "string \<Rightarrow> bool" where
  "sample_resumable header \<equiv>
     resumable sample_launch_codec [''snap''] [''stamp''] (sample_metadata 2 []) (deterministic_stamp_content None)
       resume_config (sample_snapshot header)"

theorem restore_exactly_when_compatible_witness:
  "fst (sample_validate sample_header) = Ok () \<and> sample_resumable sample_header \<and>
   \<not> sample_resumable ''LKRNSS02''"
proof -
  have ok: "fst (sample_validate sample_header) = Ok ()" by code_simp
  have bad: "fst (sample_validate ''LKRNSS02'') = Err (Io OtherIo)" by code_simp
  have applied: "if sample_resumable h then fst (sample_validate h) = Ok () else \<exists>x. fst (sample_validate h) = Err x" for h
  proof -
    obtain r s' where "sample_validate h = (r, s')" by force
    then show ?thesis
      using restore_exactly_when_compatible [of sample_env "\<lambda>_. []" sample_launch_codec "[''snap'']" "[''stamp'']"
          "sample_metadata 2 []" "deterministic_stamp_content None" resume_config
          "\<lparr>fs = sample_snapshot h, tick = 0, seq = 0\<rparr>" r s']
      by (simp add: sample_validate_def split: if_splits)
  qed
  have "sample_resumable sample_header" using applied [of sample_header] ok by (simp split: if_splits)
  moreover have "\<not> sample_resumable ''LKRNSS02''" using applied [of "''LKRNSS02''"] bad by (simp split: if_splits)
  ultimately show ?thesis using ok by blast
qed

end
