(* ===== verification/RootfsProps.thy ===== *)
theory RootfsProps
  imports Rootfs Calm
begin

text \<open>
  What the image checks and the hole-punching pass guarantee.
\<close>

subsection \<open>Block sizes\<close>

lemma word_64_length: "LENGTH(64) = 64"
  by simp

lemma block_size_16k: "block_size sb = Inr REQUIRED_EXT4_BLOCK_SIZE \<longleftrightarrow> log_block_size sb = 4"
proof -
  have "unat (push_bit k (1024 :: 64 word)) = (2 ^ (10 + k)) mod 2 ^ 64" for k
  proof -
    have "push_bit k (1024 :: 64 word) = word_of_nat (2 ^ (10 + k))"
      by (simp add: push_bit_eq_mult power_add)
    then show ?thesis by (simp only: unat_of_nat word_64_length)
  qed
  moreover have "(2 :: nat) ^ (10 + k) mod 2 ^ 64 = 16 * 1024 \<longleftrightarrow> k = 4" for k
  proof (cases "10 + k < 64")
    case True
    then have "(2 :: nat) ^ (10 + k) < 2 ^ 64" by (intro power_strict_increasing) auto
    then have "(2 :: nat) ^ (10 + k) mod 2 ^ 64 = 2 ^ (10 + k)" by simp
    moreover have "(16 * 1024 :: nat) = 2 ^ (10 + 4)" by simp
    ultimately show ?thesis by (metis add_left_cancel one_less_numeral_iff power_inject_exp semiring_norm(76))
  next
    case False
    then have "(2 :: nat) ^ 64 dvd 2 ^ (10 + k)" by (intro le_imp_power_dvd) auto
    with False show ?thesis by auto
  qed
  ultimately show ?thesis by (auto simp: block_size_def REQUIRED_EXT4_BLOCK_SIZE_def)
qed

lemma block_size_4: "log_block_size sb = 4 \<Longrightarrow> block_size sb = Inr REQUIRED_EXT4_BLOCK_SIZE"
  by (simp add: block_size_16k)

subsection \<open>Hole punching\<close>

lemma punch_zero:
  assumes "list_all zero_byte (take n (drop off c))"
  shows "punch_hole off (length (take n (drop off c))) c = c"
proof -
  let ?m = "length (take n (drop off c))"
  have z: "take n (drop off c) = replicate ?m (CHR 0x00)"
    using assms by (intro replicate_eqI [symmetric, THEN sym]) (auto simp: list_all_iff zero_byte_def)
  have "punch_hole off ?m c = take off c @ take n (drop off c) @ drop (off + ?m) c"
    by (subst (2) z) (simp add: punch_hole_def)
  also have "take n (drop off c) @ drop (off + ?m) c = drop off c"
    by (metis (no_types, lifting) append_take_drop_id drop_drop length_take min.commute take_all_iff
        add.commute drop_append length_drop min_def nat_le_linear take_all)
  finally show ?thesis by simp
qed

lemma punch_read:
  "list_all zero_byte (read_at h c off n) \<Longrightarrow> punch_hole off (length (read_at h c off n)) c = c"
  unfolding read_at_def by (rule punch_zero)

lemma scan_range_same: "scan_range_for_holes h blk off stop c = c"
proof (induction h blk off stop c rule: scan_range_for_holes.induct)
  case (1 h blk off stop c)
  then show ?case
    by (subst scan_range_for_holes.simps) (simp add: Let_def punch_read)
qed

text \<open>What \<open>lseek\<close> promises: data is found at the offset or after it.\<close>

definition seek_ok :: "host_file \<Rightarrow> bool" where
  "seek_ok h \<longleftrightarrow> (\<forall>off d. seek_data h off = Found d \<longrightarrow> off \<le> d)"

lemma scan_data_ends:
  assumes "seek_ok h"
  shows "\<exists>r. scan_data_extents_for_holes h blk len off c = Some (r, c)"
proof (induction "len - off" arbitrary: off rule: less_induct)
  case less
  show ?case
  proof (cases "off < len")
    case False
    then show ?thesis by (subst scan_data_extents_for_holes.simps) simp
  next
    case True
    show ?thesis
    proof (cases "\<exists>d e. seek_data h off = Found d \<and> seek_hole h d = Found e")
      case False
      with True show ?thesis
        by (subst scan_data_extents_for_holes.simps) (auto split: ExtentSeek.splits)
    next
      case found: True
      then obtain d e where d: "seek_data h off = Found d" and e: "seek_hole h d = Found e" by blast
      with assms have "off \<le> d" by (simp add: seek_ok_def)
      with True have "len - max e (d + 1) < len - off" by auto
      from less [OF this] True d e show ?thesis
        by (subst scan_data_extents_for_holes.simps) (simp add: scan_range_same)
    qed
  qed
qed

text \<open>C33: Making an image sparse never changes it: whatever extents the host reports, however short
  its reads are and wherever it refuses to punch, the pass ends and every byte of the image is what
  it was. (It can still report an error of the host.)\<close>

theorem punch_holes_harmless:
  assumes "seek_ok h"
  shows "\<exists>r. punch_holes h blk c = Some (r, c)"
proof -
  obtain r where r: "scan_data_extents_for_holes h blk (length c) 0 c = Some (r, c)"
    using scan_data_ends [OF assms] by blast
  show ?thesis
  proof (cases r)
    case (Inr b)
    with r show ?thesis by (cases b) (simp_all add: punch_holes_def scan_range_same)
  qed (use r in \<open>simp add: punch_holes_def\<close>)
qed

definition sample_host :: host_file where
  "sample_host =
     \<lparr>seek_data = (\<lambda>x. if x < 2 then Found 2 else if x < 6 then Found x else NotFoundExtent),
      seek_hole = (\<lambda>_. Found 6), read_count = (\<lambda>_. 2), can_punch = (\<lambda>_. True)\<rparr>"

lemma sample_host_ok: "seek_ok sample_host"
  by (auto simp: seek_ok_def sample_host_def)

definition sample_image :: string where
  "sample_image = [CHR 0x00, CHR 0x00, CHR 0x00, CHR 0x00, CHR ''a'', CHR 0x00]"

theorem punch_holes_harmless_witness:
  "seek_ok sample_host \<and> punch_holes sample_host 4 sample_image = Some (Inr (), sample_image)"
proof -
  obtain r where r: "punch_holes sample_host 4 sample_image = Some (r, sample_image)"
    using punch_holes_harmless [OF sample_host_ok] by blast
  have "scan_data_extents_for_holes sample_host 4 6 0 sample_image = Some (Inr True, sample_image)"
    by (subst scan_data_extents_for_holes.simps, simp add: sample_host_def scan_range_same)
      (subst scan_data_extents_for_holes.simps, simp)
  moreover have "length sample_image = 6" by (simp add: sample_image_def)
  ultimately have "r = Inr ()" using r by (simp add: punch_holes_def)
  with r sample_host_ok show ?thesis by simp
qed

subsection \<open>The contract of a managed image\<close>

definition managed_image :: "nat \<Rightarrow> string \<Rightarrow> bool" where
  "managed_image min_size c \<longleftrightarrow>
     min_size \<le> length c \<and> 2048 \<le> length c \<and>
     field_at (drop 1024 c) 56 2 = EXT4_MAGIC \<and> field_at (drop 1024 c) 24 4 = 4"

lemma field_at_take: "off + n \<le> m \<Longrightarrow> field_at (take m b) off n = field_at b off n"
  by (simp add: field_at_def drop_take min_def)

lemma read_ext4_superblock_calm:
  assumes "calm e" "lookup (fs s) p = Some (Reg c b)"
  shows "fst (read_ext4_superblock p e s) =
    (if length c < 2048 then Err (Io OtherIo)
     else if field_at (drop 1024 c) 56 2 \<noteq> EXT4_MAGIC
     then Err (Bail (''rootfs '' @ os_str p @ '' is not an ext2/3/4 filesystem''))
     else Ok \<lparr>log_block_size = field_at (drop 1024 c) 24 4,
              sb_state = word_of_nat (field_at (drop 1024 c) 58 2),
              sb_errors = word_of_nat (field_at (drop 1024 c) 60 2)\<rparr>)"
  using assms
  by (simp add: read_ext4_superblock_def read_range_def run_rules calm_rules field_at_take
      EXT4_SUPERBLOCK_OFFSET_def EXT4_SUPERBLOCK_LEN_def)

text \<open>C34: An image passes the check exactly when it is an ext4 image, is large enough and its block
  size field says 16 KiB; no value of that field is taken for 16 KiB by overflow. The check does not
  write.\<close>

theorem managed_rootfs_contract:
  assumes "calm e" "lookup (fs s) p = Some (Reg c b)"
  shows "(fst (validate_managed_rootfs p min_size e s) = Ok ()) = managed_image min_size c"
proof (cases "min_size \<le> length c")
  case False
  then show ?thesis
    using assms by (simp add: validate_managed_rootfs_def managed_image_def run_rules calm_rules)
next
  case True
  obtain r s' where sb: "read_ext4_superblock p e (ticked s) = (r, s')" by force
  then have r: "r = fst (read_ext4_superblock p e (ticked s))" by simp
  show ?thesis
    using True assms sb r read_ext4_superblock_calm [OF assms(1), of "ticked s" p c b]
    by (auto simp: validate_managed_rootfs_def ext4_block_size_def managed_image_def run_rules calm_rules
        block_size_16k block_size_4 split: sum.splits)
qed

definition ext4_image :: string where
  "ext4_image =
     replicate 1048 (CHR 0x00) @ [CHR 0x04] @ replicate 31 (CHR 0x00) @ [CHR 0x53, CHR 0xEF] @
     replicate 966 (CHR 0x00)"

lemma managed_ext4_image: "managed_image 2048 ext4_image"
proof -
  have "replicate 3 (CHR 0x00) = [CHR 0x00, CHR 0x00, CHR 0x00]" by (simp add: numeral_3_eq_3)
  then show ?thesis
    by (simp add: managed_image_def ext4_image_def field_at_def from_le_def from_be_def EXT4_MAGIC_def
        byte_def take_Cons' drop_Cons')
qed

theorem managed_rootfs_contract_witness:
  "fst (validate_managed_rootfs [''r''] 2048 sample_env \<lparr>fs = Sub [(''r'', Reg ext4_image True)], tick = 0, seq = 0\<rparr>)
     = Ok ()"
  using managed_rootfs_contract [of sample_env
      "\<lparr>fs = Sub [(''r'', Reg ext4_image True)], tick = 0, seq = 0\<rparr>" "[''r'']" ext4_image True 2048]
    managed_ext4_image by simp

text \<open>Growing an image extends the file before the file system in it. When the check of the file system
  fails in between, the next attempt finds the file large enough and accepts it as it is.\<close>

lemma lookup_put_existing: "lookup t p = Some y \<Longrightarrow> lookup (put p (Some x) t) p = Some x"
proof (induction p arbitrary: t)
  case (Cons k p)
  then show ?case by (cases t) (auto simp: update_conv split: option.splits if_splits)
qed simp

lemma interrupted_growth_accepted:
  assumes "calm e" "lookup (fs s) p = Some (Reg c b)" "length c < n"
    and "\<And>x. length (snd (e2fsck tools x)) = length x" "\<And>x. \<not> fsck_clean (fst (e2fsck tools x))"
    and "ensure_rootfs_min_size tools h p n e s = (r, s')"
  shows "r = Err (Bail ''e2fsck failed'') \<and> fst (ensure_rootfs_min_size tools' h' p n e s') = Ok ()"
  using assms
  by (auto simp: ensure_rootfs_min_size_def run_rules calm_rules set_len_def run_tool_def
      lookup_put_existing)

end
