(* ===== verification/Guest.thy ===== *)
theory Guest
  imports Snapshots
begin

text \<open>
  The agent inside the guest (\<open>src/guest-agent/src/main.rs\<close> and \<open>user.rs\<close>): the mounts it makes from
  its environment, the entropy it accepts after a restore, the network configuration it sends to
  the kernel over netlink, the ports it reports, and the program it starts for a command.
  Descriptors are not modelled; what a system call answers is an argument.
\<close>

subsection \<open>Mounts\<close>

record mount_call =
  mc_tag :: string
  mc_target :: string
  mc_read_only :: bool
  mc_dax :: bool

definition mount_virtiofs_with_dax :: "string \<Rightarrow> string \<Rightarrow> bool \<Rightarrow> bool \<Rightarrow> mount_call list" where
  "mount_virtiofs_with_dax tag guest_path ro with_dax =
     (if tag = [] \<or> guest_path = [] \<or> \<not> starts_with guest_path ''/'' then []
      else [\<lparr>mc_tag = tag, mc_target = ''/newroot'' @ guest_path, mc_read_only = ro, mc_dax = with_dax\<rparr>])"

definition mount_virtiofs :: "string \<Rightarrow> string \<Rightarrow> bool \<Rightarrow> mount_call list" where
  "mount_virtiofs tag guest_path ro = mount_virtiofs_with_dax tag guest_path ro True"

definition mount_host_shares :: "string option \<Rightarrow> string option \<Rightarrow> mount_call list" where
  "mount_host_shares home_env cwd_env =
     (case home_env of Some h \<Rightarrow> mount_virtiofs ''home'' h False | None \<Rightarrow> []) @
     (case cwd_env of Some d \<Rightarrow> mount_virtiofs ''cwd'' d False | None \<Rightarrow> [])"

definition mount_vhost_entry :: "string \<Rightarrow> mount_call list" where
  "mount_vhost_entry entry =
     (case split_on (CHR '':'') entry of
        [tag, guest_path, mode] \<Rightarrow>
          if mode \<noteq> ''ro'' then [] else mount_virtiofs_with_dax tag guest_path True False
      | _ \<Rightarrow> [])"

definition mount_vhost_user_fs :: "string option \<Rightarrow> mount_call list" where
  "mount_vhost_user_fs env_value =
     concat (map mount_vhost_entry
       (filter (\<lambda>m. m \<noteq> []) (split_on (CHR '';'') (case env_value of Some v \<Rightarrow> v | None \<Rightarrow> []))))"

subsection \<open>After a restore\<close>

definition RESTORE_ENTROPY_MIN_BYTES :: nat where
  "RESTORE_ENTROPY_MIN_BYTES = 32"

definition RESTORE_ENTROPY_MAX_BYTES :: nat where
  "RESTORE_ENTROPY_MAX_BYTES = 1024"

record RandPoolInfo =
  entropy_count :: nat
  buf_size :: nat
  pool_buf :: string

text \<open>The random device: whether it opens and takes the entropy, and the error of the reseed request.\<close>

record random_device =
  dev_opens :: bool
  dev_adds :: "RandPoolInfo \<Rightarrow> bool"
  dev_reseed_errno :: "int option"
  marker_writes :: bool

definition EINVAL :: int where "EINVAL = 22"
definition ENOTTY :: int where "ENOTTY = 25"
definition EEXIST :: int where "EEXIST = 17"
definition I32_MAX :: nat where "I32_MAX = 2147483647"

definition restore_sync_guest_entropy :: "random_device \<Rightarrow> string \<Rightarrow> err + RandPoolInfo" where
  "restore_sync_guest_entropy dev entropy =
     (if length entropy < RESTORE_ENTROPY_MIN_BYTES then
        Inl (Bail (''restore entropy too short: '' @ show_nat (length entropy) @ '' bytes, need at least '' @
               show_nat RESTORE_ENTROPY_MIN_BYTES))
      else if RESTORE_ENTROPY_MAX_BYTES < length entropy then
        Inl (Bail (''restore entropy too large: '' @ show_nat (length entropy) @ '' bytes, max '' @
               show_nat RESTORE_ENTROPY_MAX_BYTES))
      else if \<not> dev_opens dev then Inl (Bail ''open /dev/random after restore'')
      else if I32_MAX < length entropy * 8 then Inl (Bail ''restore entropy bit count overflows int'')
      else if I32_MAX < length entropy then Inl (Bail ''restore entropy size overflows int'')
      else
        (let info = \<lparr>entropy_count = length entropy * 8, buf_size = length entropy,
                     pool_buf = entropy @ replicate (RESTORE_ENTROPY_MAX_BYTES - length entropy) (CHR 0x00)\<rparr> in
         if \<not> dev_adds dev info then Inl (Bail ''RNDADDENTROPY after restore'')
         else if dev_reseed_errno dev \<notin> {None, Some EINVAL, Some ENOTTY} then Inl (Bail ''RNDRESEEDCRNG after restore'')
         else if \<not> marker_writes dev then Inl (Bail ''write /run/lnx-vmstate-reseed'')
         else Inr info))"

definition set_wall_clock :: "nat \<Rightarrow> int \<times> int" where
  "set_wall_clock unix_nanos = (as_i64 (unix_nanos div 1000000000), as_i64 (unix_nanos mod 1000000000))"

definition sync_clock_from_host :: "string option \<Rightarrow> (int \<times> int) option" where
  "sync_clock_from_host env_value =
     (case env_value of
        None \<Rightarrow> None
      | Some raw \<Rightarrow>
          (case parse_uint U64_MAX raw of
             None \<Rightarrow> None
           | Some secs \<Rightarrow> Some (set_wall_clock (min U64_MAX (secs * 1000000000)))))"

subsection \<open>The network\<close>

definition network_config :: "string option \<Rightarrow> string option \<Rightarrow> string \<times> string" where
  "network_config ip gateway =
     (case (ip, gateway) of
        (Some i, Some g) \<Rightarrow> if i \<noteq> [] \<and> g \<noteq> [] then (i, g) else (''192.168.127.2/24'', ''192.168.127.1'')
      | _ \<Rightarrow> (''192.168.127.2/24'', ''192.168.127.1''))"

text \<open>\<open>Ipv4Addr::from_str\<close>: four decimal ip_octets without leading zeros.\<close>

definition parse_octet :: "string \<Rightarrow> nat option" where
  "parse_octet s =
     (if s \<noteq> [] \<and> length s \<le> 3 \<and> list_all is_ascii_digit s \<and> (hd s \<noteq> CHR ''0'' \<or> s = ''0'') \<and> digits_val s \<le> 255
      then Some (digits_val s) else None)"

definition parse_ipv4 :: "string \<Rightarrow> nat list option" where
  "parse_ipv4 s =
     (case map parse_octet (split_on (CHR ''.'') s) of
        [Some a, Some b, Some c, Some d] \<Rightarrow> Some [a, b, c, d]
      | _ \<Rightarrow> None)"

definition parse_ipv4_cidr :: "string \<Rightarrow> err + nat list \<times> nat" where
  "parse_ipv4_cidr v =
     (case split_once (CHR ''/'') v of
        None \<Rightarrow> Inl (Bail (''IPv4 address must include a prefix length: '' @ v))
      | Some (addr, len) \<Rightarrow>
          (case parse_ipv4 addr of
             None \<Rightarrow> Inl (Bail (''parse IPv4 address '' @ addr))
           | Some a \<Rightarrow>
               (case parse_uint 255 len of
                  None \<Rightarrow> Inl (Bail (''parse IPv4 prefix length '' @ len))
                | Some n \<Rightarrow>
                    if 32 < n then Inl (Bail (''IPv4 prefix length out of range: '' @ show_nat n)) else Inr (a, n))))"

subsection \<open>Netlink messages\<close>

text \<open>\<open>(value + 3) & !3\<close>\<close>

definition align4 :: "nat \<Rightarrow> nat" where
  "align4 n = (n + 3) div 4 * 4"

definition put_bytes :: "string \<Rightarrow> nat \<Rightarrow> string \<Rightarrow> err + string" where
  "put_bytes buf off data =
     (if length buf < off + length data then Inl (Bail ''buffer too small'')
      else Inr (take off buf @ data @ drop (off + length data) buf))"

text \<open>The C structures, little-endian.\<close>

definition nl_header :: "nat \<Rightarrow> nat \<Rightarrow> nat \<Rightarrow> nat \<Rightarrow> string" where
  "nl_header len ty flags sq = le_bytes 4 len @ le_bytes 2 ty @ le_bytes 2 flags @ le_bytes 4 sq @ le_bytes 4 0"

definition if_info_msg :: "nat \<Rightarrow> string" where
  "if_info_msg ifindex = le_bytes 1 0 @ le_bytes 1 0 @ le_bytes 2 0 @ le_bytes 4 ifindex @ le_bytes 4 1 @ le_bytes 4 1"

definition if_addr_msg :: "nat \<Rightarrow> nat \<Rightarrow> string" where
  "if_addr_msg prefix_len ifindex =
     le_bytes 1 2 @ le_bytes 1 prefix_len @ le_bytes 1 0 @ le_bytes 1 0 @ le_bytes 4 ifindex"

definition rt_msg :: string where
  "rt_msg =
     le_bytes 1 2 @ le_bytes 1 0 @ le_bytes 1 0 @ le_bytes 1 0 @ le_bytes 1 254 @ le_bytes 1 3 @ le_bytes 1 0 @
     le_bytes 1 1 @ le_bytes 4 0"

definition rt_attr :: "nat \<Rightarrow> nat \<Rightarrow> string" where
  "rt_attr len ty = le_bytes 2 len @ le_bytes 2 ty"

definition add_netlink_attr :: "nat \<Rightarrow> string \<Rightarrow> string \<times> nat \<Rightarrow> err + string \<times> nat" where
  "add_netlink_attr ty data bl =
     (let (buf, len) = bl; start = align4 len; attr_len = 4 + length data in
      if 65535 < attr_len then Inl (Bail ''netlink attribute too large'')
      else
        (let stop = start + align4 attr_len in
         if length buf < stop then Inl (Bail ''netlink message too large'')
         else
           and_then (put_bytes buf start (rt_attr attr_len ty)) (\<lambda>buf1.
           and_then (put_bytes buf1 (start + 4) data) (\<lambda>buf2. Inr (buf2, stop)))))"

fun add_netlink_attrs :: "(nat \<times> string) list \<Rightarrow> string \<times> nat \<Rightarrow> err + string \<times> nat" where
  "add_netlink_attrs [] bl = Inr bl"
| "add_netlink_attrs ((ty, data) # attrs) bl =
     and_then (add_netlink_attr ty data bl) (add_netlink_attrs attrs)"

definition NETLINK_BUFFER :: nat where
  "NETLINK_BUFFER = 4096"

text \<open>The message \<open>netlink_request\<close> writes.\<close>

definition netlink_message :: "nat \<Rightarrow> nat \<Rightarrow> nat \<Rightarrow> string \<Rightarrow> (nat \<times> string) list \<Rightarrow> err + string" where
  "netlink_message ty flags sq payload attrs =
     and_then (put_bytes (replicate NETLINK_BUFFER (CHR 0x00)) 16 payload) (\<lambda>buf.
     and_then (add_netlink_attrs attrs (buf, 16 + length payload)) (\<lambda>(buf, len).
     and_then (put_bytes buf 0 (nl_header len ty flags sq)) (\<lambda>buf. Inr (take len buf))))"

datatype ack = Acked | Refused nat | BadReply string | ReadMore

text \<open>The scan of one reply of \<open>n\<close> bytes in the buffer; the buffer keeps what earlier reads left.\<close>

function scan_acks :: "string \<Rightarrow> nat \<Rightarrow> nat \<Rightarrow> bool \<Rightarrow> nat \<Rightarrow> ack" where
  "scan_acks buf n sq allow_exists off =
     (if n < off + 16 then ReadMore
      else
        (let len = field_at buf off 4; ty = field_at buf (off + 4) 2; rsq = field_at buf (off + 8) 4 in
         if len < 16 then BadReply ''invalid netlink message length''
         else if n < off + len then BadReply ''truncated netlink message''
         else if rsq = sq \<and> ty = 2 \<and> length buf < off + 20 then BadReply ''short netlink error''
         else if rsq = sq \<and> ty = 2 then
           (let error = sint (word_of_nat (field_at buf (off + 16) 4) :: 32 word);
                code = (if error < 0 then - error else error) in
            if error = 0 then Acked
            else if allow_exists \<and> code = EEXIST then Acked
            else Refused (nat code))
         else if rsq = sq \<and> ty = 3 then Acked
         else scan_acks buf n sq allow_exists (off + align4 len)))"
  by pat_completeness auto
termination
  by (relation "measure (\<lambda>(buf, n, sq, allow, off). Suc n - off)") (auto simp: Let_def align4_def)

declare scan_acks.simps [simp del]

text \<open>What is read until a reply answers the request: \<open>None\<close> when the replies run out. Each read goes to
  the start of the same buffer.\<close>

fun netlink_ack :: "nat \<Rightarrow> bool \<Rightarrow> string \<Rightarrow> string list \<Rightarrow> ack option" where
  "netlink_ack sq allow_exists buf [] = None"
| "netlink_ack sq allow_exists buf (r # rs) =
     (if r = [] then Some (BadReply ''unexpected EOF'')
      else
        (let buf' = r @ drop (length r) buf in
         case scan_acks buf' (length r) sq allow_exists 0 of
           ReadMore \<Rightarrow> netlink_ack sq allow_exists buf' rs
         | a \<Rightarrow> Some a))"

definition set_link_up :: "nat \<Rightarrow> nat \<Rightarrow> err + string" where
  "set_link_up ifindex sq = netlink_message 16 5 sq (if_info_msg ifindex) []"

definition ip_octets :: "nat list \<Rightarrow> string" where
  "ip_octets ns = map char_of ns"

definition replace_ipv4_address :: "nat \<Rightarrow> nat list \<Rightarrow> nat \<Rightarrow> nat \<Rightarrow> err + string" where
  "replace_ipv4_address ifindex addr prefix_len sq =
     netlink_message 20 1285 sq (if_addr_msg prefix_len ifindex) [(2, ip_octets addr), (1, ip_octets addr)]"

definition replace_default_route :: "nat \<Rightarrow> nat list \<Rightarrow> nat \<Rightarrow> err + string" where
  "replace_default_route ifindex gateway sq =
     netlink_message 24 1285 sq rt_msg
       [(4, le_bytes 4 ifindex), (1, ip_octets [0, 0, 0, 0]), (5, ip_octets gateway)]"

subsection \<open>Listening ports\<close>

definition is_local_tcp4_addr :: "string \<Rightarrow> bool" where
  "is_local_tcp4_addr a \<longleftrightarrow> a = ''00000000'' \<or> a = ''0100007F''"

definition is_local_tcp6_addr :: "string \<Rightarrow> bool" where
  "is_local_tcp6_addr a \<longleftrightarrow>
     length a = 32 \<and> (a = ''00000000000000000000000000000000'' \<or> a = ''00000000000000000000000001000000'')"

definition parse_proc_net_tcp_listener :: "string \<Rightarrow> bool \<Rightarrow> nat option" where
  "parse_proc_net_tcp_listener line ipv6 =
     (case split_whitespace line of
        _ # local # _ # state # _ \<Rightarrow>
          if state \<noteq> ''0A'' then None
          else
            (case split_once (CHR '':'') local of
               None \<Rightarrow> None
             | Some (addr, port_hex) \<Rightarrow>
                 (case parse_hex 65535 port_hex of
                    None \<Rightarrow> None
                  | Some port \<Rightarrow>
                      if port \<le> 1024 then None
                      else if (if ipv6 then is_local_tcp6_addr addr else is_local_tcp4_addr addr) then Some port
                      else None))
      | _ \<Rightarrow> None)"

definition collect_listening_tcp_ports :: "string option \<Rightarrow> bool \<Rightarrow> nat list" where
  "collect_listening_tcp_ports raw ipv6 =
     (case raw of
        None \<Rightarrow> []
      | Some text \<Rightarrow>
          concat (map (\<lambda>l. case parse_proc_net_tcp_listener l ipv6 of Some p \<Rightarrow> [p] | None \<Rightarrow> []) (drop 1 (lines text))))"

definition listening_tcp_ports :: "string option \<Rightarrow> string option \<Rightarrow> nat list" where
  "listening_tcp_ports tcp tcp6 =
     remdups_adj (sort (collect_listening_tcp_ports tcp False @ collect_listening_tcp_ports tcp6 True))"

end
