(* ===== verification/GuestExec.thy ===== *)
theory GuestExec
  imports Guest
begin

text \<open>
  Starting a command in the guest: the login shell and group of the user it runs as
  (\<open>src/guest-agent/src/user.rs\<close>), the environment, arguments and search path of the new process,
  and the control requests it can send back (\<open>src/guest-agent/src/main.rs\<close>).
\<close>

subsection \<open>The user\<close>

definition EXEC_USER :: string where
  "EXEC_USER = ''lnxuser''"

definition EXEC_HOME :: string where
  "EXEC_HOME = ''/home/lnxuser''"

text \<open>\<open>trim_matches('"')\<close>\<close>

definition trim_quotes :: "string \<Rightarrow> string" where
  "trim_quotes s = rev (dropWhile (\<lambda>c. c = CHR 0x22) (rev (dropWhile (\<lambda>c. c = CHR 0x22) s)))"

text \<open>Which files the image has is the argument \<open>there\<close>.\<close>

definition shell_from_config_line :: "(string \<Rightarrow> bool) \<Rightarrow> string \<Rightarrow> string \<Rightarrow> string option" where
  "shell_from_config_line there line key =
     (case strip_prefix line key of
        None \<Rightarrow> None
      | Some v \<Rightarrow> let sh = trim_quotes v in if starts_with sh ''/'' \<and> there sh then Some sh else None)"

definition shell_from_config_contents :: "(string \<Rightarrow> bool) \<Rightarrow> string \<Rightarrow> string \<Rightarrow> string option" where
  "shell_from_config_contents there text key =
     find_map (\<lambda>l. shell_from_config_line there (trim l) key) (lines text)"

definition adduser_default_line :: "(string \<Rightarrow> bool) \<Rightarrow> string \<Rightarrow> string option" where
  "adduser_default_line there line =
     (case strip_prefix (trim line) ''#'' of
        None \<Rightarrow> None
      | Some r \<Rightarrow>
          (case strip_prefix (trim r) ''Default:'' of
             None \<Rightarrow> None
           | Some d \<Rightarrow> shell_from_config_line there (trim d) ''DSHELL=''))"

definition adduser_shell_from_config_contents :: "(string \<Rightarrow> bool) \<Rightarrow> string \<Rightarrow> string option" where
  "adduser_shell_from_config_contents there text =
     (case shell_from_config_contents there text ''DSHELL='' of
        Some sh \<Rightarrow> Some sh
      | None \<Rightarrow> find_map (adduser_default_line there) (lines text))"

definition default_image_shell :: "(string \<Rightarrow> bool) \<Rightarrow> string option \<Rightarrow> string option \<Rightarrow> string" where
  "default_image_shell there adduser_conf useradd_conf =
     (case Option.bind adduser_conf (adduser_shell_from_config_contents there) of
        Some sh \<Rightarrow> sh
      | None \<Rightarrow>
          (case Option.bind useradd_conf (\<lambda>c. shell_from_config_contents there c ''SHELL='') of
             Some sh \<Rightarrow> sh
           | None \<Rightarrow> if there ''/bin/bash'' then ''/bin/bash'' else ''/bin/sh''))"

definition passwd_entry_shell :: "string \<Rightarrow> string \<Rightarrow> string option" where
  "passwd_entry_shell uid line =
     (let fs = split_on (CHR '':'') line in
      if 7 \<le> length fs \<and> fs ! 2 = uid \<and> fs ! 6 \<noteq> [] then Some (fs ! 6) else None)"

definition login_shell_for_uid :: "nat \<Rightarrow> string option \<Rightarrow> string \<Rightarrow> string" where
  "login_shell_for_uid uid passwd fallback =
     (case Option.bind passwd (\<lambda>p. find_map (passwd_entry_shell (show_nat uid)) (lines p)) of
        Some sh \<Rightarrow> sh
      | None \<Rightarrow> fallback)"

definition rewrite_passwd_line :: "string \<Rightarrow> string \<Rightarrow> string \<Rightarrow> string" where
  "rewrite_passwd_line user sh line =
     (let fs = split_on (CHR '':'') line in
      if 7 \<le> length fs \<and> fs ! 0 = user then join '':'' (fs[6 := sh]) else line)"

definition rewrite_passwd_shell :: "string \<Rightarrow> string \<Rightarrow> string \<Rightarrow> string" where
  "rewrite_passwd_shell user sh text =
     join [CHR 0x0A] (map (rewrite_passwd_line user sh) (lines text)) @ [CHR 0x0A]"

definition passwd_shell_for_user :: "string \<Rightarrow> string \<Rightarrow> string option" where
  "passwd_shell_for_user user text =
     find_map (\<lambda>l. let fs = split_on (CHR '':'') l in
       if 7 \<le> length fs \<and> fs ! 0 = user then Some (fs ! 6) else None) (lines text)"

definition is_portable_group_name :: "string \<Rightarrow> bool" where
  "is_portable_group_name name =
     (case name of
        [] \<Rightarrow> False
      | c # cs \<Rightarrow>
          length name \<le> 32 \<and> (is_ascii_lower c \<or> c = CHR ''_'') \<and>
          list_all (\<lambda>d. is_ascii_lower d \<or> is_ascii_digit d \<or> d = CHR ''_'' \<or> d = CHR ''-'') cs)"

definition group_entry_name :: "string \<Rightarrow> string \<Rightarrow> string option" where
  "group_entry_name gid line =
     (case split_on (CHR '':'') line of
        name # _ # g # _ \<Rightarrow> if g = gid then Some name else None
      | _ \<Rightarrow> None)"

definition group_name_for_gid :: "nat \<Rightarrow> string \<Rightarrow> string option" where
  "group_name_for_gid gid text = find_map (group_entry_name (show_nat gid)) (lines text)"

text \<open>The group file after \<open>ensure_exec_group\<close>, given what \<open>groupadd\<close> made of it (none when it
  failed).\<close>

definition ensure_exec_group :: "nat \<Rightarrow> string \<Rightarrow> (string \<Rightarrow> string option) \<Rightarrow> string \<Rightarrow> string" where
  "ensure_exec_group gid host_name groupadd text =
     (if \<not> is_portable_group_name host_name \<or> group_name_for_gid gid text \<noteq> None then text
      else
        (case groupadd text of
           Some text' \<Rightarrow> text'
         | None \<Rightarrow> text @ host_name @ '':x:'' @ show_nat gid @ '':'' @ [CHR 0x0A]))"

subsection \<open>The process\<close>

definition DEFAULT_PATH :: string where
  "DEFAULT_PATH =
     ''/home/lnxuser/.local/bin:/home/lnxuser/go/bin:/home/lnxuser/.cargo/bin:/usr/local/sbin:/usr/local/bin:/usr/sbin:/usr/bin:/sbin:/bin:/snap/bin''"

definition DEFAULT_BROWSER :: string where
  "DEFAULT_BROWSER = ''/usr/local/bin/xdg-open''"

definition CONTROL_SOCKET_ENV :: string where
  "CONTROL_SOCKET_ENV = ''LNX_CONTROL_SOCKET''"

text \<open>\<open>CString::new\<close>: no byte of a C string is zero.\<close>

definition c_string :: "string \<Rightarrow> string option" where
  "c_string s = (if nul \<in> set s then None else Some s)"

definition is_env_name :: "string \<Rightarrow> bool" where
  "is_env_name name \<longleftrightarrow> name \<noteq> [] \<and> CHR ''='' \<notin> set name \<and> nul \<notin> set name"

fun replace_first :: "('a \<Rightarrow> bool) \<Rightarrow> 'a \<Rightarrow> 'a list \<Rightarrow> 'a list option" where
  "replace_first P y [] = None"
| "replace_first P y (x # xs) = (if P x then Some (y # xs) else map_option (Cons x) (replace_first P y xs))"

definition push_env :: "string \<Rightarrow> string \<Rightarrow> string list \<Rightarrow> string list" where
  "push_env name v storage =
     (case c_string (name @ ''='' @ v) of
        None \<Rightarrow> storage
      | Some entry \<Rightarrow>
          (case replace_first (\<lambda>x. starts_with x (name @ ''='')) entry storage of
             Some storage' \<Rightarrow> storage'
           | None \<Rightarrow> storage @ [entry]))"

definition hex16 :: "nat \<Rightarrow> string" where
  "hex16 n = pad0 16 (show_hex n)"

definition channel_control_socket :: "nat \<Rightarrow> string" where
  "channel_control_socket channel_id = ''/run/lnx-agent-'' @ hex16 channel_id @ ''.sock''"

definition make_argv :: "string list \<Rightarrow> string list" where
  "make_argv argv = map (\<lambda>a. case c_string a of Some x \<Rightarrow> x | None \<Rightarrow> []) argv"

definition resolve_login_shell :: "string list \<Rightarrow> string \<Rightarrow> string list" where
  "resolve_login_shell argv shell = (if argv \<noteq> [] then argv else [shell, ''-l''])"

definition make_exec_paths :: "string \<Rightarrow> string list" where
  "make_exec_paths argv0 =
     (if CHR ''/'' \<in> set argv0 then (case c_string argv0 of Some p \<Rightarrow> [p] | None \<Rightarrow> [[]])
      else
        concat (map (\<lambda>dir. case c_string (dir @ ''/'' @ argv0) of Some p \<Rightarrow> [p] | None \<Rightarrow> [])
          (split_on (CHR '':'') DEFAULT_PATH)))"

record ChildExec =
  ce_argv :: "string list"
  ce_env :: "string list"
  ce_cwd :: "string option"
  ce_exec_paths :: "string list"

definition default_env :: "nat \<Rightarrow> string \<Rightarrow> (string \<times> string) list" where
  "default_env channel_id control_socket =
     [(''PATH'', DEFAULT_PATH), (''HOME'', EXEC_HOME), (''USER'', EXEC_USER), (''LOGNAME'', EXEC_USER),
      (''BROWSER'', DEFAULT_BROWSER), (''LNX_REQUEST_ID'', hex16 channel_id),
      (CONTROL_SOCKET_ENV, control_socket)]"

definition push_all :: "(string \<times> string) list \<Rightarrow> string list \<Rightarrow> string list" where
  "push_all vars storage = foldl (\<lambda>st (n, v). push_env n v st) storage vars"

definition make_child_exec ::
  "string list \<Rightarrow> string \<Rightarrow> (string \<times> string) list \<Rightarrow> nat \<Rightarrow> string \<Rightarrow> ChildExec" where
  "make_child_exec argv dir vars channel_id control_socket =
     \<lparr>ce_argv = make_argv argv,
      ce_env = push_all (filter (\<lambda>(n, v). is_env_name n) vars) (push_all (default_env channel_id control_socket) []),
      ce_cwd = (if dir = [] then None else c_string dir),
      ce_exec_paths = make_exec_paths (case argv of [] \<Rightarrow> [] | a # _ \<Rightarrow> a)\<rparr>"

definition exit_status :: "int \<Rightarrow> int" where
  "exit_status status =
     (if and status 0x7f = 0 then and (drop_bit 8 status) 0xff else 128 + and status 0x7f)"

text \<open>Filling a 20-byte buffer from its end, a digit at a time.\<close>

function write_decimal_from :: "nat \<Rightarrow> nat \<Rightarrow> string \<Rightarrow> nat \<times> string" where
  "write_decimal_from i v buf =
     (let i' = i - 1; buf' = buf[i' := char_of (48 + v mod 10)]; v' = v div 10 in
      if v' = 0 then (i', buf') else write_decimal_from i' v' buf')"
  by pat_completeness auto
termination
  by (relation "measure (\<lambda>(i, v, buf). v)") auto

declare write_decimal_from.simps [simp del]

definition write_decimal :: "nat \<Rightarrow> string" where
  "write_decimal v = (let (i, buf) = write_decimal_from 20 v (replicate 20 (CHR 0x00)) in drop i buf)"

subsection \<open>Control requests of a command\<close>

definition FRAME_CONTROL_SNAPSHOT_EXIT :: char where
  "FRAME_CONTROL_SNAPSHOT_EXIT = CHR ''X''"

definition FRAME_CONTROL_OPEN_URL :: char where
  "FRAME_CONTROL_OPEN_URL = CHR ''O''"

definition FRAME_CONTROL_OK :: char where
  "FRAME_CONTROL_OK = CHR ''x''"

definition MAX_CONTROL_PAYLOAD :: nat where
  "MAX_CONTROL_PAYLOAD = 16 * 1024"

definition write_frame :: "char \<Rightarrow> string \<Rightarrow> string" where
  "write_frame ty payload = [ty] @ be32 (length payload) @ payload"

datatype ChannelControlRequest = SnapshotExitRequest | OpenUrlRequest string

text \<open>What \<open>accept_channel_control\<close> makes of the bytes a client sends before it closes.\<close>

definition accept_channel_control :: "string \<Rightarrow> ChannelControlRequest option" where
  "accept_channel_control bytes =
     (if length bytes < 5 then None
      else
        (let ty = hd bytes; len = from_be (take 4 (drop 1 bytes)); body = drop 5 bytes in
         if ty = FRAME_CONTROL_SNAPSHOT_EXIT \<and> len = 0 then Some SnapshotExitRequest
         else if ty = FRAME_CONTROL_OPEN_URL \<and> 1 \<le> len \<and> len \<le> MAX_CONTROL_PAYLOAD then
           (if len \<le> length body \<and> is_utf8 (take len body) then Some (OpenUrlRequest (take len body)) else None)
         else None))"

text \<open>The two programs a command has: each prints usage and exits with 2, or sends one frame and
  exits with what the reply says.\<close>

definition read_local_control_response :: "string \<Rightarrow> int" where
  "read_local_control_response reply =
     (if hd reply = FRAME_CONTROL_OK \<and> from_be (take 4 (drop 1 reply)) = 0 then 0 else 1)"

definition lnxctl_mode :: "string list \<Rightarrow> string option" where
  "lnxctl_mode args =
     (if 1 < length args \<and> args ! 1 = ''snapshot-exit'' then Some (write_frame FRAME_CONTROL_SNAPSHOT_EXIT []) else None)"

definition contains_text :: "string \<Rightarrow> string \<Rightarrow> bool" where
  "contains_text s p \<longleftrightarrow> find_sub p s \<noteq> None"

definition xdg_open_mode :: "string list \<Rightarrow> string option" where
  "xdg_open_mode args =
     (if length args \<le> 1 then None
      else if \<not> contains_text (args ! 1) ''://'' then None
      else if MAX_CONTROL_PAYLOAD < length (args ! 1) then None
      else Some (write_frame FRAME_CONTROL_OPEN_URL (args ! 1)))"

end
