(* ===== verification/DeterministicProps.thy ===== *)
theory DeterministicProps
  imports Deterministic Calm
begin

text \<open>
  What the deterministic mode carries from run to run: the clock state survives being written and
  read, the stamp tells any two modes apart, the entropy has the length the guest expects, and
  trace numbers are used once.
\<close>

subsection \<open>Lines\<close>

definition plain_line :: "string \<Rightarrow> bool" where
  "plain_line l \<longleftrightarrow> CHR 0x0A \<notin> set l \<and> CHR 0x0D \<notin> set l"

lemma lines_lines_text: "list_all plain_line ls \<Longrightarrow> lines (lines_text ls) = ls"
  by (induction ls) (auto simp: lines_text_def plain_line_def lines_cons)

lemma plain_show_nat [simp]: "plain_line (show_nat n)"
  using not_digit_notin [OF show_nat_digits] by (simp add: plain_line_def is_ascii_digit_def byte_def)

lemma plain_append [simp]: "plain_line (a @ b) \<longleftrightarrow> plain_line a \<and> plain_line b"
  by (auto simp: plain_line_def)

lemma stamp_line_key: "CHR ''='' \<notin> set k \<Longrightarrow> stamp_line m (k @ CHR ''='' # v) = bt_insert k v m"
  by (simp add: stamp_line_def split_once_append)

subsection \<open>The clock state\<close>

definition clock_state_ok :: "DeterministicClockState \<Rightarrow> bool" where
  "clock_state_ok st \<longleftrightarrow>
     realtime_unix_nanos st \<le> U64_MAX \<and> monotonic_nanos st \<le> U64_MAX \<and>
     counter_frequency_hz st \<le> U64_MAX \<and> event_sequence st \<le> U64_MAX \<and>
     timer_jump_count st \<le> U64_MAX \<and> last_timer_deadline_ticks st \<le> U64_MAX"

definition kv :: "string \<Rightarrow> string \<Rightarrow> string" where
  "kv k v = k @ CHR ''='' # v"

lemma stamp_line_kv [simp]: "CHR ''='' \<notin> set k \<Longrightarrow> stamp_line m (kv k v) = bt_insert k v m"
  by (simp add: kv_def stamp_line_key)

lemma plain_kv: "plain_line k \<Longrightarrow> plain_line v \<Longrightarrow> plain_line (kv k v)"
  by (auto simp: plain_line_def kv_def)

lemma clock_content_kv:
  "deterministic_clock_state_content st =
     lines_text
       [kv ''clock_state'' ''deterministic-clock-state-v1'',
        kv ''realtime_unix_nanos'' (show_nat (realtime_unix_nanos st)),
        kv ''monotonic_nanos'' (show_nat (monotonic_nanos st)),
        kv ''counter_frequency_hz'' (show_nat (counter_frequency_hz st)),
        kv ''event_sequence'' (show_nat (event_sequence st)),
        kv ''timer_jump_count'' (show_nat (timer_jump_count st)),
        kv ''last_timer_deadline_ticks'' (show_nat (last_timer_deadline_ticks st))]"
  by (simp add: deterministic_clock_state_content_def kv_def)

lemma parse_clock_content:
  assumes "clock_state_ok st"
  shows "parse_deterministic_clock_state (deterministic_clock_state_content st) = Inr st"
proof -
  let ?kvs = "[kv ''clock_state'' ''deterministic-clock-state-v1'',
        kv ''realtime_unix_nanos'' (show_nat (realtime_unix_nanos st)),
        kv ''monotonic_nanos'' (show_nat (monotonic_nanos st)),
        kv ''counter_frequency_hz'' (show_nat (counter_frequency_hz st)),
        kv ''event_sequence'' (show_nat (event_sequence st)),
        kv ''timer_jump_count'' (show_nat (timer_jump_count st)),
        kv ''last_timer_deadline_ticks'' (show_nat (last_timer_deadline_ticks st))]"
  have "list_all plain_line ?kvs"
    unfolding list.pred_inject by (intro conjI plain_kv plain_show_nat TrueI) (simp_all add: plain_line_def)
  then have "parse_shares_stamp (deterministic_clock_state_content st) = foldl stamp_line [] ?kvs"
    by (simp add: parse_shares_stamp_def clock_content_kv lines_lines_text)
  then show ?thesis
    using assms
    by (simp add: parse_deterministic_clock_state_def parse_clock_state_u64_def parse_uint_show
        clock_state_ok_def)
qed

lemma show_nat_ascii: "is_ascii (show_nat n)"
  using show_nat_digits [of n] by (auto simp: is_ascii_def list_all_iff is_ascii_digit_def)

lemma clock_content_utf8: "is_utf8 (deterministic_clock_state_content st)"
proof -
  have "is_ascii (deterministic_clock_state_content st)"
    using show_nat_ascii
    by (simp add: deterministic_clock_state_content_def lines_text_def is_ascii_def byte_def)
  then show ?thesis by (rule ascii_is_utf8)
qed

text \<open>C35: A deterministic VM that is resumed goes on with the clock it was saved with: the clock state
  written into a snapshot is the one its next start reads, whatever its counters are.\<close>

theorem clock_state_carried:
  assumes "calm e" "clock_state_ok st"
    and "write_deterministic_clock_state (snap @ [DETERMINISTIC_CLOCK_STATE]) st e s = (Ok (), s')"
  shows "fst (deterministic_clock_state_for_start (Some d) (Some snap) e s') = Ok (Some st)"
proof -
  let ?c = "deterministic_clock_state_content st"
  have "\<exists>b. lookup (fs s') (snap @ [DETERMINISTIC_CLOCK_STATE]) = Some (Reg ?c b)"
    using assms(1,3)
    by (auto simp: write_deterministic_clock_state_def write_file_def plant_def parent_of_def call_calm lookup_put_same
        split: if_splits option.splits node.splits sum.splits)
  then show ?thesis
    using assms(1,2)
    by (auto simp: deterministic_clock_state_for_start_def read_deterministic_clock_state_def run_rules
        calm_rules clock_content_utf8 parse_clock_content)
qed

theorem clock_state_carried_witness:
  "let st = initial_deterministic_clock_state\<lparr>event_sequence := 7\<rparr>;
       s = \<lparr>fs = Sub [(''d'', Sub [])], tick = 0, seq = 0\<rparr>;
       s' = snd (write_deterministic_clock_state [''d'', DETERMINISTIC_CLOCK_STATE] st sample_env s) in
   fst (deterministic_clock_state_for_start (Some \<lparr>seed = ''x''\<rparr>) (Some [''d'']) sample_env s') = Ok (Some st)"
proof -
  let ?st = "initial_deterministic_clock_state\<lparr>event_sequence := 7\<rparr>"
  let ?s = "\<lparr>fs = Sub [(''d'', Sub [])], tick = 0, seq = 0\<rparr>"
  let ?w = "write_deterministic_clock_state [''d'', DETERMINISTIC_CLOCK_STATE] ?st sample_env ?s"
  have "clock_state_ok ?st"
    by (simp add: clock_state_ok_def initial_deterministic_clock_state_def U64_MAX_def)
  moreover have "?w = (Ok (), snd ?w)"
    by (simp add: write_deterministic_clock_state_def write_file_def call_calm is_dir_def parent_of_def
        DETERMINISTIC_CLOCK_STATE_def)
  ultimately show ?thesis
    using clock_state_carried [of sample_env ?st "[''d'']" ?s "snd ?w" "\<lparr>seed = ''x''\<rparr>"] by simp
qed

subsection \<open>The stamp\<close>

text \<open>The deterministic stamp of a snapshot tells every mode from every other: two configurations
  have the same stamp only when both run normally, or both deterministically with the same seed.\<close>

theorem stamp_determines_mode:
  "deterministic_stamp_content a = deterministic_stamp_content b \<longleftrightarrow> a = b"
proof (cases a; cases b)
  fix c d
  assume ab: "a = Some c" "b = Some d"
  obtain post where "\<And>x :: DeterministicConfig. deterministic_stamp_content (Some x) =
      ''deterministic=enabled-v1'' @ [CHR 0x0A] @ ''seed='' @ seed x @ post"
    by (simp add: deterministic_stamp_content_def lines_text_def)
  with ab show ?thesis by (cases c; cases d) simp
qed (auto simp: deterministic_stamp_content_def lines_text_def)

subsection \<open>Entropy and identifiers\<close>

lemma restore_entropy_value:
  assumes "sha256_ok sha"
  shows "deterministic_restore_entropy sha sd = Some (sha (entropy_block sd 0) @ sha (entropy_block sd 1))"
proof -
  have l: "length (sha x) = 32" for x using assms by (simp add: sha256_ok_def)
  have "entropy_loop sha sd (sha (entropy_block sd 0) @ sha (entropy_block sd 1)) 2 =
      Some (sha (entropy_block sd 0) @ sha (entropy_block sd 1))"
    by (subst entropy_loop.simps) (simp add: RESTORE_ENTROPY_BYTES_def l)
  moreover have "entropy_loop sha sd (sha (entropy_block sd 0)) 1 =
      entropy_loop sha sd (sha (entropy_block sd 0) @ sha (entropy_block sd 1)) 2"
    by (subst entropy_loop.simps) (simp add: RESTORE_ENTROPY_BYTES_def l U64_MAX_def numeral_2_eq_2)
  moreover have "entropy_loop sha sd [] 0 = entropy_loop sha sd (sha (entropy_block sd 0)) 1"
    by (subst entropy_loop.simps) (simp add: RESTORE_ENTROPY_BYTES_def U64_MAX_def)
  ultimately show ?thesis by (simp add: deterministic_restore_entropy_def)
qed

lemma from_le_less: "from_le s < 256 ^ length s"
  using from_be_less [of "rev s"] by (simp add: from_le_def)

lemma nonzero_id_range: "0 < nonzero_id digest \<and> nonzero_id digest \<le> U64_MAX"
proof -
  have "from_le (take 8 digest) < 256 ^ length (take 8 digest)" by (rule from_le_less)
  also have "\<dots> \<le> (256 :: nat) ^ 8" by (intro power_increasing) simp_all
  finally show ?thesis by (simp add: nonzero_id_def U64_MAX_def Let_def)
qed

subsection \<open>Trace numbers\<close>

definition trace_ok :: "TraceLog \<Rightarrow> bool" where
  "trace_ok t \<longleftrightarrow> distinct (map fst (trace_rows t)) \<and> next_seq t \<le> I64_MAX"

lemma trace_event_ok:
  assumes "primary_key accepts" "trace_ok t"
  shows "trace_ok (trace_event accepts ev flds t)"
  using assms by (auto simp: trace_ok_def trace_event_def primary_key_def)

lemma jump_lines_ok:
  "primary_key accepts \<Longrightarrow> trace_ok (snd acc) \<Longrightarrow> trace_ok (snd (foldl (jump_line accepts) acc ls))"
  by (induction ls arbitrary: acc)
    (simp_all add: jump_line_def jump_event_def Let_def trace_event_ok split: option.splits)

end
