(* ===== verification/GuestProps.thy ===== *)
theory GuestProps
  imports GuestExec DeterministicProps LaunchProps
begin

text \<open>
  What the guest agent does with what the host sends it: it mounts the mounts that were asked for,
  accepts the entropy the host makes, sends well-formed messages to the kernel and starts commands
  with the environment it was given.
\<close>

subsection \<open>Mounts from the host\<close>

lemma colon_semicolon_not_tag [simp]: "\<not> tag_byte (CHR '':'')" "\<not> tag_byte (CHR '';'')"
  by (simp_all add: tag_byte_def is_ascii_alphanumeric_def is_ascii_digit_def is_ascii_upper_def
      is_ascii_lower_def byte_def)

definition mount_text :: "VhostUserFsMount \<Rightarrow> string" where
  "mount_text m = v_tag m @ '':'' @ mountpoint m @ '':'' @ (if v_read_only m then ''ro'' else ''rw'')"

lemma validated_mount_text:
  assumes "validate_vhost_user_fs_mount m = Inr ()"
  shows "v_tag m \<noteq> []" "starts_with (mountpoint m) ''/''" "v_read_only m"
    "CHR '':'' \<notin> set (v_tag m)" "CHR '';'' \<notin> set (v_tag m)"
    "CHR '':'' \<notin> set (mountpoint m)" "CHR '';'' \<notin> set (mountpoint m)"
  using assms by (auto simp: validate_vhost_user_fs_mount_def list_all_iff split: if_splits)

lemma mount_entry_text:
  assumes "validate_vhost_user_fs_mount m = Inr ()"
  shows "mount_vhost_entry (mount_text m) =
    [\<lparr>mc_tag = v_tag m, mc_target = ''/newroot'' @ mountpoint m, mc_read_only = True, mc_dax = False\<rparr>]"
proof -
  note v = validated_mount_text [OF assms]
  have "mount_text m = join '':'' [v_tag m, mountpoint m, ''ro'']"
    using v(3) by (simp add: mount_text_def)
  then have "split_on (CHR '':'') (mount_text m) = [v_tag m, mountpoint m, ''ro'']"
    using split_on_join [of "[v_tag m, mountpoint m, ''ro'']" "CHR '':''"] v by simp
  with v show ?thesis
    by (auto simp: mount_vhost_entry_def mount_virtiofs_with_dax_def starts_with_def)
qed

lemma distinct_tags_valid:
  "distinct_tags seen ms = Inr () \<Longrightarrow> \<forall>m \<in> set ms. validate_vhost_user_fs_mount m = Inr ()"
  by (induction ms arbitrary: seen) (auto dest!: and_then_InrD split: if_splits)

lemma distinct_tags_distinct:
  "distinct_tags seen ms = Inr () \<Longrightarrow> distinct (map v_tag ms) \<and> set (map v_tag ms) \<inter> set seen = {}"
  by (induction ms arbitrary: seen) (force dest!: and_then_InrD split: if_splits)+

lemma guest_env_split:
  assumes "\<forall>m \<in> set ms. validate_vhost_user_fs_mount m = Inr ()"
  shows "filter (\<lambda>x. x \<noteq> []) (split_on (CHR '';'') (vhost_user_fs_guest_env ms)) = map mount_text ms"
proof (cases "ms = []")
  case True
  then show ?thesis by (simp add: vhost_user_fs_guest_env_def)
next
  case False
  have "vhost_user_fs_guest_env ms = join '';'' (map mount_text ms)"
    by (simp add: vhost_user_fs_guest_env_def mount_text_def [abs_def])
  moreover have "\<forall>x \<in> set (map mount_text ms). CHR '';'' \<notin> set x \<and> x \<noteq> []"
    using assms validated_mount_text by (auto simp: mount_text_def)
  ultimately show ?thesis
    using False split_on_join [of "map mount_text ms" "CHR '';''"] by (simp add: filter_id_conv)
qed

text \<open>C37: The guest mounts exactly the mounts the command line accepted, each under its own tag: the
  host writes them into an environment variable, and reading it back in the guest loses none, adds
  none and mounts all of them read-only.\<close>

theorem guest_mounts_what_was_accepted:
  assumes "validate_vhost_user_fs_mounts ms = Inr ()"
  shows "mount_vhost_user_fs (Some (vhost_user_fs_guest_env ms)) =
      map (\<lambda>m. \<lparr>mc_tag = v_tag m, mc_target = ''/newroot'' @ mountpoint m, mc_read_only = True, mc_dax = False\<rparr>) ms \<and>
    distinct (map v_tag ms)"
proof -
  have valid: "\<forall>m \<in> set ms. validate_vhost_user_fs_mount m = Inr ()"
    using assms distinct_tags_valid by (simp add: validate_vhost_user_fs_mounts_def)
  then have "concat (map mount_vhost_entry (map mount_text ms)) =
      map (\<lambda>m. \<lparr>mc_tag = v_tag m, mc_target = ''/newroot'' @ mountpoint m, mc_read_only = True, mc_dax = False\<rparr>) ms"
    by (induction ms) (simp_all add: mount_entry_text)
  with guest_env_split [OF valid] distinct_tags_distinct [of "[]" ms] assms show ?thesis
    by (simp add: mount_vhost_user_fs_def validate_vhost_user_fs_mounts_def)
qed

theorem guest_mounts_what_was_accepted_witness:
  "mount_vhost_user_fs (Some (vhost_user_fs_guest_env [sample_mount, sample_mount\<lparr>v_tag := ''more''\<rparr>])) =
     [\<lparr>mc_tag = ''data'', mc_target = ''/newroot/mnt/data'', mc_read_only = True, mc_dax = False\<rparr>,
      \<lparr>mc_tag = ''more'', mc_target = ''/newroot/mnt/data'', mc_read_only = True, mc_dax = False\<rparr>]"
proof -
  have "validate_vhost_user_fs_mounts [sample_mount, sample_mount\<lparr>v_tag := ''more''\<rparr>] = Inr ()" by code_simp
  from guest_mounts_what_was_accepted [OF this] show ?thesis by (simp add: sample_mount_def)
qed

subsection \<open>Entropy\<close>

text \<open>C38: After a restore the host sends entropy the guest accepts: whichever way it is made, it is 64
  bytes long, within what the guest requires and what its buffer holds, and all of it is credited.\<close>

theorem restore_entropy_accepted:
  assumes "sha256_ok sha" "restore_entropy sha device c = Some (Inr x)"
    and "dev_opens dev" "\<And>info. dev_adds dev info" "dev_reseed_errno dev = None" "marker_writes dev"
  shows "\<exists>info. restore_sync_guest_entropy dev x = Inr info \<and> entropy_count info = 512 \<and>
    take 64 (pool_buf info) = x"
proof -
  have l: "length (sha s) = 32" for s using assms(1) by (simp add: sha256_ok_def)
  have "length x = 64"
    using assms(2) restore_entropy_value [OF assms(1)]
    by (auto simp: restore_entropy_def fresh_restore_entropy_def RESTORE_ENTROPY_BYTES_def l
        split: option.splits if_splits)
  with assms show ?thesis
    by (simp add: restore_sync_guest_entropy_def RESTORE_ENTROPY_MIN_BYTES_def
        RESTORE_ENTROPY_MAX_BYTES_def I32_MAX_def Let_def)
qed

definition zero_sha :: "string \<Rightarrow> string" where
  "zero_sha s = replicate 32 (CHR ''z'')"

definition good_device :: random_device where
  "good_device = \<lparr>dev_opens = True, dev_adds = (\<lambda>_. True), dev_reseed_errno = None, marker_writes = True\<rparr>"

theorem restore_entropy_accepted_witness:
  "\<exists>info. restore_sync_guest_entropy good_device (replicate 64 (CHR ''z'')) = Inr info \<and> entropy_count info = 512"
proof -
  have ok: "sha256_ok zero_sha" by (simp add: sha256_ok_def zero_sha_def)
  have "(replicate 32 (CHR ''z'') :: string) @ replicate 32 (CHR ''z'') = replicate 64 (CHR ''z'')"
    by (simp flip: replicate_add)
  with restore_entropy_value [OF ok, of "''s''"]
  have "restore_entropy zero_sha [] (Some \<lparr>seed = ''s''\<rparr>) = Some (Inr (replicate 64 (CHR ''z'')))"
    by (simp add: restore_entropy_def zero_sha_def)
  from restore_entropy_accepted [OF ok this, of good_device] show ?thesis
    by (auto simp: good_device_def)
qed

subsection \<open>The environment of a command\<close>

text \<open>An entry of the environment and the variable it sets.\<close>

definition env_entry :: "string \<times> string \<Rightarrow> string" where
  "env_entry nv = fst nv @ CHR ''='' # snd nv"

definition env_of :: "string list \<Rightarrow> string \<Rightarrow> string option" where
  "env_of storage name = find_map (\<lambda>x. strip_prefix x (name @ ''='')) storage"

definition plain_var :: "string \<times> string \<Rightarrow> bool" where
  "plain_var nv \<longleftrightarrow> is_env_name (fst nv) \<and> nul \<notin> set (snd nv)"

text \<open>A storage holding each variable once.\<close>

definition env_storage :: "(string \<times> string) list \<Rightarrow> string list \<Rightarrow> bool" where
  "env_storage m storage \<longleftrightarrow> storage = map env_entry m \<and> distinct (map fst m) \<and> list_all plain_var m"

lemma entry_prefix:
  assumes "CHR ''='' \<notin> set n" "CHR ''='' \<notin> set name"
  shows "strip_prefix (env_entry (n, v)) (name @ ''='') = (if n = name then Some v else None)"
proof (cases "strip_prefix (env_entry (n, v)) (name @ ''='')")
  case None
  then have "n \<noteq> name" using strip_prefix_append [of "name @ ''=''" v] by (auto simp: env_entry_def)
  with None show ?thesis by simp
next
  case (Some r)
  then have "n @ CHR ''='' # v = name @ CHR ''='' # r"
    by (auto simp: env_entry_def dest: strip_prefix_SomeD)
  with sep_inject [OF assms] have "n = name" "v = r" by blast+
  with Some show ?thesis by simp
qed

lemma entry_starts:
  assumes "CHR ''='' \<notin> set n" "CHR ''='' \<notin> set name"
  shows "starts_with (env_entry (n, v)) (name @ ''='') \<longleftrightarrow> n = name"
  using entry_prefix [OF assms, of v] by (simp add: strip_prefix_def split: if_splits)

lemma env_of_storage:
  assumes "list_all plain_var m" "CHR ''='' \<notin> set name"
  shows "env_of (map env_entry m) name = map_of m name"
  using assms
  by (induction m) (auto simp: env_of_def plain_var_def is_env_name_def entry_prefix)

text \<open>Updating an entry in place, or adding it at the end.\<close>

fun set_var :: "string \<Rightarrow> string \<Rightarrow> (string \<times> string) list \<Rightarrow> (string \<times> string) list" where
  "set_var n v [] = [(n, v)]"
| "set_var n v ((a, b) # m) = (if a = n then (n, v) # m else (a, b) # set_var n v m)"

lemma map_of_set_var [simp]: "map_of (set_var n v m) = (map_of m)(n \<mapsto> v)"
  by (induction m) auto

lemma set_var_keys [simp]: "fst ` set (set_var n v m) = insert n (fst ` set m)"
  by (induction n v m rule: set_var.induct) auto

lemma set_var_distinct: "distinct (map fst m) \<Longrightarrow> distinct (map fst (set_var n v m))"
  by (induction n v m rule: set_var.induct) auto

lemma replace_first_env:
  assumes "list_all plain_var m" "CHR ''='' \<notin> set n"
  shows "(case replace_first (\<lambda>x. starts_with x (n @ ''='')) (env_entry (n, v)) (map env_entry m) of
      Some s \<Rightarrow> s | None \<Rightarrow> map env_entry m @ [env_entry (n, v)]) = map env_entry (set_var n v m)"
  using assms
proof (induction m)
  case (Cons p m)
  obtain a b where p: "p = (a, b)" by force
  with Cons.prems have a: "CHR ''='' \<notin> set a" by (simp add: plain_var_def is_env_name_def)
  let ?r = "replace_first (\<lambda>x. starts_with x (n @ ''='')) (env_entry (n, v)) (map env_entry m)"
  have IH: "(case ?r of Some s \<Rightarrow> s | None \<Rightarrow> map env_entry m @ [env_entry (n, v)]) = map env_entry (set_var n v m)"
    using Cons.IH Cons.prems by simp
  show ?case
  proof (cases "a = n")
    case True
    with p show ?thesis by (simp add: entry_starts [OF Cons.prems(2) Cons.prems(2)])
  next
    case False
    with p have "replace_first (\<lambda>x. starts_with x (n @ ''='')) (env_entry (n, v)) (map env_entry (p # m)) =
        map_option (Cons (env_entry p)) ?r"
      by (simp add: entry_starts [OF a Cons.prems(2)])
    with False p IH show ?thesis by (cases ?r) simp_all
  qed
qed simp

lemma push_env_storage:
  assumes "env_storage m storage" "plain_var (n, v)"
  shows "env_storage (set_var n v m) (push_env n v storage)"
proof -
  have "c_string (n @ ''='' @ v) = Some (env_entry (n, v))"
    using assms(2) by (simp add: c_string_def env_entry_def plain_var_def is_env_name_def nul_def)
  moreover have "list_all plain_var (set_var n v m)"
    using assms by (induction m arbitrary: storage) (auto simp: env_storage_def)
  ultimately show ?thesis
    using assms replace_first_env [of m n v] set_var_distinct [of m n v]
    by (auto simp: env_storage_def push_env_def plain_var_def is_env_name_def)
qed

lemma push_all_storage:
  assumes "env_storage m storage" "list_all plain_var vars"
  shows "\<exists>m'. env_storage m' (push_all vars storage) \<and> map_of m' = map_of m ++ map_of (rev vars)"
  using assms
proof (induction vars arbitrary: m storage)
  case Nil
  then show ?case by (auto simp: push_all_def)
next
  case (Cons nv vars)
  obtain n v where nv: "nv = (n, v)" by force
  from Cons.prems nv have "env_storage (set_var n v m) (push_env n v storage)"
    by (intro push_env_storage) auto
  moreover have "list_all plain_var vars" using Cons.prems by simp
  ultimately obtain m' where m': "env_storage m' (push_all vars (push_env n v storage))"
    and eq: "map_of m' = map_of (set_var n v m) ++ map_of (rev vars)"
    using Cons.IH by blast
  have "map_of m' = map_of m ++ map_of (rev (nv # vars))"
    unfolding eq nv by (rule ext) (simp add: map_add_def split: option.splits)
  with m' nv show ?case by (auto simp: push_all_def)
qed

lemma default_env_plain:
  "nul \<notin> set sock \<Longrightarrow> list_all plain_var (default_env channel_id sock)"
proof -
  have "nul \<notin> set (show_hex n)" for n
  proof (induction n rule: show_hex.induct)
    case (1 n)
    have "nul \<noteq> hex_digit d" if "d < 16" for d
    proof
      assume "nul = hex_digit d"
      moreover have "hex_val nul = None" by (simp add: nul_def hex_val_def is_ascii_digit_def byte_def)
      ultimately show False using hex_val_digit [OF that] by simp
    qed
    with 1 show ?case by (subst show_hex.simps) auto
  qed
  then have "nul \<notin> set (hex16 n)" for n by (auto simp: hex16_def pad0_def nul_def)
  then show "nul \<notin> set sock \<Longrightarrow> ?thesis"
    by (simp add: default_env_def plain_var_def is_env_name_def CONTROL_SOCKET_ENV_def DEFAULT_PATH_def
        EXEC_HOME_def EXEC_USER_def DEFAULT_BROWSER_def) (simp add: nul_def)
qed

text \<open>C39: A command starts with the environment the host sent: a variable has the value sent last for
  it, a variable that was not sent has the default, and no variable is set twice. (Names that no
  environment can hold are left out; values are assumed to be C strings.)\<close>

theorem command_environment:
  assumes "\<forall>(n, v) \<in> set vars. nul \<notin> set v" "nul \<notin> set sock"
  shows "\<exists>m. ce_env (make_child_exec argv dir vars channel_id sock) = map env_entry m \<and>
      distinct (map fst m) \<and>
      map_of m = map_of (rev (default_env channel_id sock)) ++ map_of (rev (filter (\<lambda>(n, v). is_env_name n) vars))"
proof -
  let ?vars = "filter (\<lambda>(n, v). is_env_name n) vars"
  have "env_storage [] []" by (simp add: env_storage_def)
  from push_all_storage [OF this default_env_plain [OF assms(2)], of channel_id]
  obtain m where m: "env_storage m (push_all (default_env channel_id sock) [])"
    and eq: "map_of m = map_of (rev (default_env channel_id sock))" by auto
  have "list_all plain_var ?vars" using assms(1) by (auto simp: list_all_iff plain_var_def)
  from push_all_storage [OF m this] eq show ?thesis
    by (auto simp: make_child_exec_def env_storage_def)
qed

theorem command_environment_witness:
  "\<exists>m. ce_env (make_child_exec [''ls''] [] [(''HOME'', ''/a''), (''HOME'', ''/b''), (''a=b'', ''c'')] 1 ''/s'') = map env_entry m \<and>
     map_of m ''HOME'' = Some ''/b'' \<and> map_of m ''USER'' = Some ''lnxuser''"
proof -
  let ?vars = "[(''HOME'', ''/a''), (''HOME'', ''/b''), (''a=b'', ''c'')]"
  have "\<forall>(n, v) \<in> set ?vars. nul \<notin> set v" "nul \<notin> set ''/s''" by (simp_all add: nul_def)
  from command_environment [OF this, of "[''ls'']" "[]" 1]
  obtain m where m: "ce_env (make_child_exec [''ls''] [] ?vars 1 ''/s'') = map env_entry m"
    and eq: "map_of m = map_of (rev (default_env 1 ''/s'')) ++ map_of (rev (filter (\<lambda>(n, v). is_env_name n) ?vars))"
    by blast
  have f: "filter (\<lambda>(n, v). is_env_name n) ?vars = [(''HOME'', ''/a''), (''HOME'', ''/b'')]"
    by (simp add: is_env_name_def nul_def)
  have "map_of m ''HOME'' = Some ''/b''" unfolding eq f by simp
  moreover have "map_of m ''USER'' = Some ''lnxuser''"
    unfolding eq f by (simp add: default_env_def CONTROL_SOCKET_ENV_def EXEC_USER_def map_add_def)
  ultimately show ?thesis using m by blast
qed

subsection \<open>Numbers without allocation\<close>

lemma show_nat_length: "0 < k \<Longrightarrow> n < 10 ^ k \<Longrightarrow> length (show_nat n) \<le> k"
proof (induction n arbitrary: k rule: show_nat.induct)
  case (1 n)
  show ?case
  proof (cases "n < 10")
    case True
    then show ?thesis using 1 by (subst show_nat.simps) simp
  next
    case False
    from 1(2) obtain j where j: "k = Suc j" by (cases k) auto
    with 1(3) False have "0 < j" by (cases j) auto
    with j have k: "k = Suc j" "0 < j" by simp_all
    with 1(3) have "n div 10 < 10 ^ j" by (simp add: less_mult_imp_div_less mult.commute)
    with 1(1) [OF False k(2)] k False show ?thesis by (subst show_nat.simps) simp
  qed
qed

lemma write_decimal_from_show:
  "length (show_nat v) \<le> i \<Longrightarrow> i \<le> length buf \<Longrightarrow>
   write_decimal_from i v buf =
     (i - length (show_nat v), take (i - length (show_nat v)) buf @ show_nat v @ drop i buf)"
proof (induction i v buf rule: write_decimal_from.induct)
  case (1 i v buf)
  have i: "0 < i" using 1(2) by (cases i) auto
  have upd: "buf[i - 1 := x] = take (i - 1) buf @ x # drop i buf" for x
    using i 1(3) by (simp add: upd_conv_take_nth_drop)
  show ?case
  proof (cases "v < 10")
    case True
    then have "show_nat v = [char_of (48 + v)]" by (subst show_nat.simps) (simp add: digit_def)
    with True show ?thesis by (subst write_decimal_from.simps) (simp add: Let_def upd [simplified])
  next
    case False
    then have s: "show_nat v = show_nat (v div 10) @ [char_of (48 + v mod 10)]"
      by (subst show_nat.simps) (simp add: digit_def)
    let ?buf = "buf[i - 1 := char_of (48 + v mod 10)]"
    have "write_decimal_from (i - 1) (v div 10) ?buf =
        (i - 1 - length (show_nat (v div 10)),
         take (i - 1 - length (show_nat (v div 10))) ?buf @ show_nat (v div 10) @ drop (i - 1) ?buf)"
      using 1(1) [OF refl refl refl] 1(2,3) False s by simp
    moreover have "drop (i - 1) ?buf = char_of (48 + v mod 10) # drop i buf"
      using i 1(3) by (simp add: upd [simplified])
    moreover have "v div 10 \<noteq> 0" using False by auto
    ultimately show ?thesis
      using s by (subst write_decimal_from.simps) (simp add: Let_def)
  qed
qed

text \<open>The digits written without allocation are those \<open>to_string\<close> would give, and the buffer of 20 bytes
  never runs out.\<close>

lemma write_decimal_show:
  assumes "v \<le> U64_MAX"
  shows "write_decimal v = show_nat v"
proof -
  have "length (show_nat v) \<le> 20"
    using assms by (intro show_nat_length) (simp_all add: U64_MAX_def)
  then show ?thesis by (simp add: write_decimal_def write_decimal_from_show)
qed

end
