(* ===== verification/NetlinkProps.thy ===== *)
theory NetlinkProps
  imports GuestExec Sample
begin

text \<open>
  The layout of the messages the guest agent sends to the kernel over netlink, and reading it back
  the way the kernel does.
\<close>

subsection \<open>Little-endian integers\<close>

lemma length_le_bytes [simp]: "length (le_bytes w n) = w"
  by (simp add: le_bytes_def)

lemma le_bytes_Suc: "le_bytes (Suc w) n = char_of (n mod 256) # le_bytes w (n div 256)"
  by (simp add: le_bytes_def upt_conv_Cons map_Suc_upt [symmetric] div_mult2_eq [symmetric] del: upt_Suc)

lemma from_be_snoc: "from_be (s @ [c]) = from_be s * 256 + byte c"
  by (simp add: from_be_def)

lemma from_le_Cons: "from_le (c # s) = from_le s * 256 + byte c"
  by (simp add: from_le_def from_be_snoc)

lemma from_le_bytes: "n < 256 ^ w \<Longrightarrow> from_le (le_bytes w n) = n"
proof (induction w arbitrary: n)
  case 0
  then show ?case by (simp add: le_bytes_def from_le_def from_be_def)
next
  case (Suc w)
  then have "n div 256 < 256 ^ w" by (simp add: less_mult_imp_div_less mult.commute)
  with Suc.IH show ?case by (simp add: le_bytes_Suc from_le_Cons)
qed

subsection \<open>Building a message\<close>

abbreviation zeros :: "nat \<Rightarrow> string" where
  "zeros n \<equiv> replicate n (CHR 0x00)"

lemma align4_ge: "n \<le> align4 n"
  by (simp add: align4_def)

lemma align4_mod [simp]: "align4 n mod 4 = 0"
  by (simp add: align4_def)

lemma align4_id: "n mod 4 = 0 \<Longrightarrow> align4 n = n"
  by (auto simp: align4_def)

lemma put_bytes_zeros:
  "length data \<le> k \<Longrightarrow> put_bytes (pre @ zeros k) (length pre) data = Inr (pre @ data @ zeros (k - length data))"
  by (simp add: put_bytes_def)

definition attr_bytes :: "nat \<times> string \<Rightarrow> string" where
  "attr_bytes a =
     rt_attr (4 + length (snd a)) (fst a) @ snd a @ zeros (align4 (4 + length (snd a)) - (4 + length (snd a)))"

lemma length_rt_attr [simp]: "length (rt_attr n ty) = 4"
  by (simp add: rt_attr_def)

lemma length_attr_bytes: "length (attr_bytes a) = align4 (4 + length (snd a))"
  using align4_ge [of "4 + length (snd a)"] by (simp add: attr_bytes_def)

lemma add_attr:
  assumes "length pre mod 4 = 0" "4 + length data \<le> 65535" "length (attr_bytes (ty, data)) \<le> k"
  shows "add_netlink_attr ty data (pre @ zeros k, length pre) =
    Inr (pre @ attr_bytes (ty, data) @ zeros (k - length (attr_bytes (ty, data))),
         length pre + length (attr_bytes (ty, data)))"
proof -
  let ?n = "4 + length data" and ?m = "align4 (4 + length data)"
  have k: "?n \<le> ?m" "?m \<le> k" using assms(3) align4_ge [of ?n] by (simp_all add: length_attr_bytes)
  have "put_bytes (pre @ zeros k) (length pre) (rt_attr ?n ty) = Inr (pre @ rt_attr ?n ty @ zeros (k - 4))"
    using put_bytes_zeros [of "rt_attr ?n ty" k pre] k by simp
  moreover have "put_bytes (pre @ rt_attr ?n ty @ zeros (k - 4)) (length pre + 4) data =
      Inr (pre @ rt_attr ?n ty @ data @ zeros (k - ?n))"
    using put_bytes_zeros [of data "k - 4" "pre @ rt_attr ?n ty"] k by simp
  moreover have "zeros (k - ?n) = zeros (?m - ?n) @ zeros (k - ?m)"
    using k by (simp flip: replicate_add)
  ultimately show ?thesis
    using assms k
    by (simp add: add_netlink_attr_def align4_id Let_def length_attr_bytes) (simp add: attr_bytes_def)
qed

lemma add_attrs:
  assumes "length pre mod 4 = 0" "\<forall>(ty, data) \<in> set attrs. 4 + length data \<le> 65535"
    and "length (concat (map attr_bytes attrs)) \<le> k"
  shows "add_netlink_attrs attrs (pre @ zeros k, length pre) =
    Inr (pre @ concat (map attr_bytes attrs) @ zeros (k - length (concat (map attr_bytes attrs))),
         length pre + length (concat (map attr_bytes attrs)))"
  using assms
proof (induction attrs arbitrary: pre k)
  case (Cons a attrs)
  obtain ty data where a: "a = (ty, data)" by force
  let ?b = "attr_bytes (ty, data)"
  have "add_netlink_attr ty data (pre @ zeros k, length pre) =
      Inr ((pre @ ?b) @ zeros (k - length ?b), length (pre @ ?b))"
    using add_attr [of pre data ty k] Cons.prems a by simp
  moreover have "length (pre @ ?b) mod 4 = 0"
    using Cons.prems(1) by (simp add: length_attr_bytes mod_add_eq [symmetric])
  moreover have "length (concat (map attr_bytes attrs)) \<le> k - length ?b" using Cons.prems a by simp
  ultimately show ?case
    using Cons.IH [of "pre @ ?b" "k - length ?b"] Cons.prems a by (simp add: add.assoc)
qed simp

lemma length_nl_header [simp]: "length (nl_header len ty flags sq) = 16"
  by (simp add: nl_header_def)

lemma netlink_message_layout:
  assumes "length payload mod 4 = 0" "\<forall>(ty, data) \<in> set attrs. 4 + length data \<le> 65535"
    and "len = 16 + length payload + length (concat (map attr_bytes attrs))" "len \<le> NETLINK_BUFFER"
  shows "netlink_message ty flags sq payload attrs =
    Inr (nl_header len ty flags sq @ payload @ concat (map attr_bytes attrs))"
proof -
  let ?rest = "NETLINK_BUFFER - 16 - length payload"
  have "replicate NETLINK_BUFFER (CHR 0x00) = zeros 16 @ zeros (NETLINK_BUFFER - 16)"
    using assms(3,4) by (simp flip: replicate_add)
  then have b: "put_bytes (replicate NETLINK_BUFFER (CHR 0x00)) 16 payload = Inr ((zeros 16 @ payload) @ zeros ?rest)"
    using put_bytes_zeros [of payload "NETLINK_BUFFER - 16" "zeros 16"] assms(3,4) by simp
  have "length (zeros 16 @ payload) mod 4 = 0" using assms(1) by (simp add: mod_add_eq [symmetric])
  from add_attrs [OF this assms(2), of ?rest] assms(3,4)
  have a: "add_netlink_attrs attrs ((zeros 16 @ payload) @ zeros ?rest, 16 + length payload) =
      Inr ((zeros 16 @ payload) @ concat (map attr_bytes attrs) @ zeros (NETLINK_BUFFER - len), len)"
    by simp
  show ?thesis
    unfolding netlink_message_def b and_then_simps a
    using assms(3,4) by (simp add: put_bytes_def)
qed

subsection \<open>Reading it back\<close>

text \<open>The attributes of a message, as the kernel walks them.\<close>

function read_attrs :: "string \<Rightarrow> (nat \<times> string) list option" where
  "read_attrs s =
     (if s = [] then Some []
      else
        (let len = field_at s 0 2 in
         if length s < 4 \<or> len < 4 \<or> length s < len then None
         else map_option (Cons (field_at s 2 2, take (len - 4) (drop 4 s))) (read_attrs (drop (align4 len) s))))"
  by pat_completeness auto
termination
  by (relation "measure length") (auto simp: Let_def align4_def)

declare read_attrs.simps [simp del]

lemma read_attrs_bytes:
  assumes "\<forall>(ty, data) \<in> set attrs. 4 + length data \<le> 65535 \<and> ty < 65536"
  shows "read_attrs (concat (map attr_bytes attrs)) = Some attrs"
  using assms
proof (induction attrs)
  case Nil
  show ?case by (subst read_attrs.simps) simp
next
  case (Cons a attrs)
  obtain ty data where a: "a = (ty, data)" by force
  let ?n = "4 + length data" and ?r = "concat (map attr_bytes attrs)"
  have b: "attr_bytes a @ ?r = le_bytes 2 ?n @ le_bytes 2 ty @ data @ zeros (align4 ?n - ?n) @ ?r"
    using a by (simp add: attr_bytes_def rt_attr_def)
  have "field_at (attr_bytes a @ ?r) 0 2 = ?n" "field_at (attr_bytes a @ ?r) 2 2 = ty"
    unfolding b using Cons.prems a by (simp_all add: field_at_def from_le_bytes)
  moreover have "drop (align4 ?n) (attr_bytes a @ ?r) = ?r"
    using a by (simp add: length_attr_bytes)
  moreover have "take (length data) (drop 4 (attr_bytes a @ ?r)) = data" unfolding b by simp
  moreover have "?n \<le> length (attr_bytes a @ ?r)"
    using a align4_ge [of ?n] by (simp add: length_attr_bytes)
  moreover have "attr_bytes a @ ?r \<noteq> []" unfolding b by (simp add: le_bytes_def)
  ultimately show ?case
    using Cons a by (subst read_attrs.simps) (simp add: Let_def)
qed

text \<open>C40: Every message the agent builds for the kernel is well formed: its length field is its
  length, and walking its attributes gives exactly the attributes asked for, provided it fits the
  4096-byte buffer.\<close>

theorem netlink_message_reads_back:
  assumes "length payload mod 4 = 0"
    and "\<forall>(ty, data) \<in> set attrs. 4 + length data \<le> 65535 \<and> ty < 65536"
    and "16 + length payload + (\<Sum>(ty, data) \<leftarrow> attrs. align4 (4 + length data)) \<le> NETLINK_BUFFER"
  shows "\<exists>msg. netlink_message ty flags sq payload attrs = Inr msg \<and> field_at msg 0 4 = length msg \<and>
    take (length payload) (drop 16 msg) = payload \<and> read_attrs (drop (16 + length payload) msg) = Some attrs"
proof -
  have len: "length (concat (map attr_bytes attrs)) = (\<Sum>(ty, data) \<leftarrow> attrs. align4 (4 + length data))"
    by (induction attrs) (auto simp: length_attr_bytes)
  define n where "n = 16 + length payload + length (concat (map attr_bytes attrs))"
  have n: "n \<le> NETLINK_BUFFER" using assms(3) len by (simp add: n_def)
  let ?msg = "nl_header n ty flags sq @ payload @ concat (map attr_bytes attrs)"
  have "netlink_message ty flags sq payload attrs = Inr ?msg"
    using assms(1,2) n by (intro netlink_message_layout) (auto simp: n_def)
  moreover have "field_at ?msg 0 4 = n"
    using n by (simp add: field_at_def nl_header_def from_le_bytes NETLINK_BUFFER_def)
  moreover have "length ?msg = n" by (simp add: n_def)
  moreover have "read_attrs (drop (16 + length payload) ?msg) = Some attrs"
    using read_attrs_bytes [OF assms(2)] by simp
  ultimately show ?thesis by (intro exI [of _ ?msg]) simp
qed

theorem netlink_message_reads_back_witness:
  "\<exists>msg. replace_ipv4_address 2 [192, 168, 127, 2] 24 3 = Inr msg \<and>
     read_attrs (drop 24 msg) = Some [(2, ip_octets [192, 168, 127, 2]), (1, ip_octets [192, 168, 127, 2])]"
proof -
  have p: "length (if_addr_msg 24 2) = 8" by (simp add: if_addr_msg_def)
  show ?thesis
    using netlink_message_reads_back [of "if_addr_msg 24 2"
        "[(2, ip_octets [192, 168, 127, 2]), (1, ip_octets [192, 168, 127, 2])]" 20 1285 3] p
    by (auto simp: replace_ipv4_address_def ip_octets_def NETLINK_BUFFER_def align4_def)
qed

end
