(* ===== verification/GuestChannel.thy ===== *)
theory GuestChannel
  imports GuestExec Machine
begin

text \<open>
  The channels of the guest agent (\<open>src/guest-agent/src/main.rs\<close>). The agent's main loop routes the
  host's messages into the queue of the channel they are for; a thread per command moves what is
  queued to the command's standard input, and the command's output and exit status to the host.
  The two run concurrently: a step is one of the thread's actions or one of the main loop's.
\<close>

subsection \<open>Routing\<close>

datatype ChannelInput =
    InData string
  | InEof
  | InResize nat nat
  | InClose
  | InSnapshotComplete
  | InSnapshotFailed
  | InOpenUrlComplete
  | InOpenUrlFailed

datatype channel_kind =
    PtyChannel "string list" string "(string \<times> string) list" string string nat nat nat nat string
  | PipeChannel "string list" string "(string \<times> string) list" nat nat string
  | TcpChannel string nat

text \<open>The thread of a channel goes on after its entry is removed: an entry names its thread by number.\<close>

record thread_state =
  th_id :: nat
  th_kind :: channel_kind
  th_queue :: "ChannelInput list"
  th_eof_requested :: bool

record agent_state =
  entries :: "(nat \<times> nat) list"
  threads :: "thread_state list"
  to_host :: "Message list"
  wall_clock :: "(int \<times> int) option"

definition start_channel :: "nat \<Rightarrow> channel_kind \<Rightarrow> agent_state \<Rightarrow> agent_state" where
  "start_channel i k a =
     a\<lparr>entries := entries a @ [(i, length (threads a))],
       threads := threads a @ [\<lparr>th_id = i, th_kind = k, th_queue = [], th_eof_requested = False\<rparr>]\<rparr>"

text \<open>\<open>channels.iter().find(...)\<close>: the first entry with the id.\<close>

definition with_channel :: "nat \<Rightarrow> (thread_state \<Rightarrow> thread_state) \<Rightarrow> agent_state \<Rightarrow> agent_state" where
  "with_channel i f a =
     (case map_of (entries a) i of
        None \<Rightarrow> a
      | Some t \<Rightarrow> a\<lparr>threads := (threads a)[t := f (threads a ! t)]\<rparr>)"

definition send_input :: "ChannelInput \<Rightarrow> thread_state \<Rightarrow> thread_state" where
  "send_input x t = t\<lparr>th_queue := th_queue t @ [x]\<rparr>"

definition drop_entry :: "nat \<Rightarrow> agent_state \<Rightarrow> agent_state" where
  "drop_entry i a = a\<lparr>entries := filter (\<lambda>(j, t). j \<noteq> i) (entries a)\<rparr>"

text \<open>One message of the host. A snapshot request replaces the connection, which starts with a hello.\<close>

fun agent_message :: "random_device \<Rightarrow> Message \<Rightarrow> agent_state \<Rightarrow> agent_state" where
  "agent_message dev (OpenExec i argv dir pty term colorterm rows cols uid gid grp vars) a =
     start_channel i
       (if pty then PtyChannel argv dir vars term colorterm rows cols uid gid grp
        else PipeChannel argv dir vars uid gid grp) a"
| "agent_message dev (OpenTcp i host port) a = start_channel i (TcpChannel host port) a"
| "agent_message dev (Data i bytes) a = with_channel i (send_input (InData bytes)) a"
| "agent_message dev (Eof i) a = with_channel i (\<lambda>t. send_input InEof (t\<lparr>th_eof_requested := True\<rparr>)) a"
| "agent_message dev (WindowResize i rows cols) a = with_channel i (send_input (InResize rows cols)) a"
| "agent_message dev (Close i) a = drop_entry i (with_channel i (send_input InClose) a)"
| "agent_message dev (CheckpointCreated i) a = with_channel i (send_input InSnapshotComplete) a"
| "agent_message dev (Error i msg) a = with_channel i (send_input InSnapshotFailed) a"
| "agent_message dev (OpenUrlResult i ok) a =
     with_channel i (send_input (if ok then InOpenUrlComplete else InOpenUrlFailed)) a"
| "agent_message dev (RestoreSync i entropy) a =
     (case restore_sync_guest_entropy dev entropy of
        Inr _ \<Rightarrow> a\<lparr>to_host := to_host a @ [RestoreSynced i]\<rparr>
      | Inl (Bail msg) \<Rightarrow> a\<lparr>to_host := to_host a @ [Error i msg]\<rparr>
      | Inl _ \<Rightarrow> a\<lparr>to_host := to_host a @ [Error i []]\<rparr>)"
| "agent_message dev (ExitStatus i st) a = drop_entry i a"
| "agent_message dev (SetClock nanos) a = a\<lparr>wall_clock := Some (set_wall_clock nanos)\<rparr>"
| "agent_message dev SnapshotReady a = a\<lparr>to_host := to_host a @ [Hello PROTOCOL_VERSION]\<rparr>"
| "agent_message dev _ a = a"

subsection \<open>The thread of a command with pipes\<close>

datatype worker_pc = Polling | Draining | Latching | Waiting | Finished

text \<open>The shared queue and latch, what the thread owns, and two observers: \<open>accepted\<close>, all data queued
  for the command so far, and \<open>input_lost\<close>, whether a write to the command failed.\<close>

record pipe_channel =
  pc_id :: nat
  queue :: "ChannelInput list"
  eof_requested :: bool
  eof_sending :: bool
  pc :: worker_pc
  stdin_open :: bool
  delivered :: string
  pending_control :: bool
  control_replies :: "bool list"
  stdout_eof :: bool
  stderr_eof :: bool
  child_exited :: bool
  hung_up :: bool
  wait_status :: int
  messages :: "Message list"
  accepted :: string
  input_lost :: bool

text \<open>What a read of the command's output answers.\<close>

datatype read_result = ReadBytes string | ReadEof | ReadAgain | ReadInterrupted

fun drain_output_message :: "bool \<Rightarrow> nat \<Rightarrow> read_result list \<Rightarrow> Message list \<times> bool" where
  "drain_output_message err i [] = ([], False)"
| "drain_output_message err i (ReadBytes b # rs) =
     (let (ms, eof) = drain_output_message err i rs in ((if err then Stderr i b else Data i b) # ms, eof))"
| "drain_output_message err i (ReadInterrupted # rs) = drain_output_message err i rs"
| "drain_output_message err i (ReadAgain # rs) = ([], False)"
| "drain_output_message err i (ReadEof # rs) = ([], True)"

definition drain_stdout :: "read_result list \<Rightarrow> pipe_channel \<Rightarrow> pipe_channel" where
  "drain_stdout rs c =
     (let (ms, eof) = drain_output_message False (pc_id c) rs in
      c\<lparr>messages := messages c @ ms, stdout_eof := stdout_eof c \<or> eof\<rparr>)"

definition drain_stderr :: "read_result list \<Rightarrow> pipe_channel \<Rightarrow> pipe_channel" where
  "drain_stderr rs c =
     (let (ms, eof) = drain_output_message True (pc_id c) rs in
      c\<lparr>messages := messages c @ ms, stderr_eof := stderr_eof c \<or> eof\<rparr>)"

definition handle_channel_control :: "ChannelControlRequest option \<Rightarrow> pipe_channel \<Rightarrow> pipe_channel" where
  "handle_channel_control req c =
     (case req of
        None \<Rightarrow> c
      | Some SnapshotExitRequest \<Rightarrow>
          c\<lparr>pending_control := True, messages := messages c @ [SnapshotExitRequested (pc_id c)]\<rparr>
      | Some (OpenUrlRequest url) \<Rightarrow>
          c\<lparr>pending_control := True, messages := messages c @ [OpenUrl (pc_id c) url]\<rparr>)"

definition complete_pending_control :: "bool \<Rightarrow> pipe_channel \<Rightarrow> pipe_channel" where
  "complete_pending_control ok c =
     (if pending_control c then c\<lparr>pending_control := False, control_replies := control_replies c @ [ok]\<rparr> else c)"

text \<open>The first part of a round: output that is ready, and a control request when none is pending.\<close>

definition poll_round ::
  "read_result list option \<Rightarrow> read_result list option \<Rightarrow> ChannelControlRequest option \<Rightarrow> pipe_channel \<Rightarrow> pipe_channel" where
  "poll_round outs errs req c =
     (let c1 = (case outs of Some rs \<Rightarrow> if stdout_eof c then c else drain_stdout rs c | None \<Rightarrow> c);
          c2 = (case errs of Some rs \<Rightarrow> if stderr_eof c then c1 else drain_stderr rs c1 | None \<Rightarrow> c1);
          c3 = (if pending_control c2 then c2 else handle_channel_control req c2) in
      c3\<lparr>pc := Draining\<rparr>)"

text \<open>One input off the queue. A write to the command may fail after part of the bytes, which closes its
  input.\<close>

fun take_input :: "nat option \<Rightarrow> ChannelInput \<Rightarrow> pipe_channel \<Rightarrow> pipe_channel" where
  "take_input fails (InData bytes) c =
     (if \<not> stdin_open c then c
      else
        (case fails of
           None \<Rightarrow> c\<lparr>delivered := delivered c @ bytes\<rparr>
         | Some n \<Rightarrow> c\<lparr>delivered := delivered c @ take n bytes, stdin_open := False, input_lost := True\<rparr>))"
| "take_input fails InEof c = (if stdin_open c then c\<lparr>stdin_open := False\<rparr> else c)"
| "take_input fails InClose c = c\<lparr>hung_up := True, wait_status := 130 * 256, pc := Latching\<rparr>"
| "take_input fails InSnapshotComplete c = complete_pending_control True c"
| "take_input fails InOpenUrlComplete c = complete_pending_control True c"
| "take_input fails InSnapshotFailed c = complete_pending_control False c"
| "take_input fails InOpenUrlFailed c = complete_pending_control False c"
| "take_input fails (InResize rows cols) c = c"

definition latch_eof :: "pipe_channel \<Rightarrow> pipe_channel" where
  "latch_eof c =
     c\<lparr>eof_requested := False, stdin_open := stdin_open c \<and> \<not> eof_requested c, pc := Waiting\<rparr>"

datatype wait_result = StillRunning | Exited int | NoChild | WaitFailed

definition wait_child :: "wait_result \<Rightarrow> pipe_channel \<Rightarrow> pipe_channel" where
  "wait_child w c =
     (if child_exited c then c
      else
        (case w of
           StillRunning \<Rightarrow> c
         | Exited st \<Rightarrow> c\<lparr>child_exited := True, wait_status := st\<rparr>
         | NoChild \<Rightarrow> c\<lparr>child_exited := True\<rparr>
         | WaitFailed \<Rightarrow> c\<lparr>child_exited := True, wait_status := 127 * 256\<rparr>))"

text \<open>The end of a round: once the command is gone and both outputs have ended, its exit status and the
  close of the channel are sent.\<close>

definition send_status :: "pipe_channel \<Rightarrow> pipe_channel" where
  "send_status c =
     c\<lparr>messages := messages c @ [ExitStatus (pc_id c) (exit_status (wait_status c)), Close (pc_id c)], pc := Finished\<rparr>"

definition finish_round ::
  "wait_result \<Rightarrow> read_result list \<Rightarrow> read_result list \<Rightarrow> pipe_channel \<Rightarrow> pipe_channel" where
  "finish_round w outs errs c =
     (let c1 = wait_child w c;
          c2 = (if child_exited c1 then drain_stderr errs (drain_stdout outs (c1\<lparr>stdin_open := False\<rparr>)) else c1) in
      if child_exited c2 \<and> stdout_eof c2 \<and> stderr_eof c2 then send_status c2 else c2\<lparr>pc := Polling\<rparr>)"

subsection \<open>Interleaving\<close>

text \<open>The main loop queues inputs at any time. An end of input is two actions: the latch is set first,
  then the input is queued, and nothing else is queued for the channel in between.\<close>

inductive pipe_step :: "pipe_channel \<Rightarrow> pipe_channel \<Rightarrow> bool" where
  agent_data: "\<not> eof_sending c \<Longrightarrow> pipe_step c (c\<lparr>queue := queue c @ [InData b], accepted := accepted c @ b\<rparr>)"
| agent_other: "\<not> eof_sending c \<Longrightarrow> \<forall>b. x \<noteq> InData b \<Longrightarrow> x \<noteq> InEof \<Longrightarrow> pipe_step c (c\<lparr>queue := queue c @ [x]\<rparr>)"
| agent_eof_latch: "\<not> eof_sending c \<Longrightarrow> pipe_step c (c\<lparr>eof_requested := True, eof_sending := True\<rparr>)"
| agent_eof_queue: "eof_sending c \<Longrightarrow> pipe_step c (c\<lparr>queue := queue c @ [InEof], eof_sending := False\<rparr>)"
| worker_poll: "pc c = Polling \<Longrightarrow> pipe_step c (poll_round outs errs req c)"
| worker_take: "pc c = Draining \<Longrightarrow> queue c = x # q \<Longrightarrow> pipe_step c (take_input fails x (c\<lparr>queue := q\<rparr>))"
| worker_empty: "pc c = Draining \<Longrightarrow> queue c = [] \<Longrightarrow> pipe_step c (c\<lparr>pc := Latching\<rparr>)"
| worker_latch: "pc c = Latching \<Longrightarrow> pipe_step c (latch_eof c)"
| worker_wait: "pc c = Waiting \<Longrightarrow> pipe_step c (finish_round w outs errs c)"

definition pipe_start :: "nat \<Rightarrow> pipe_channel" where
  "pipe_start i =
     \<lparr>pc_id = i, queue = [], eof_requested = False, eof_sending = False, pc = Polling, stdin_open = True,
      delivered = [], pending_control = False, control_replies = [], stdout_eof = False, stderr_eof = False,
      child_exited = False, hung_up = False, wait_status = 0, messages = [ExecStarted i], accepted = [],
      input_lost = False\<rparr>"

inductive_cases pipe_stepE: "pipe_step c c'"

end
