(* ===== verification/GuestChannelProps.thy ===== *)
theory GuestChannelProps
  imports GuestChannel
begin

text \<open>
  What a command's channel guarantees in every interleaving of the agent's main loop and the
  channel's thread: input arrives in order and none is invented, and the exit status is the last
  thing the host hears. It does not guarantee that all input arrives.
\<close>

subsection \<open>Routing\<close>

text \<open>A message for a channel leaves the queues of all other channels alone.\<close>

lemma with_channel_other:
  assumes "t < length (threads a)" "map_of (entries a) i \<noteq> Some t"
  shows "threads (with_channel i f a) ! t = threads a ! t"
  using assms by (auto simp: with_channel_def nth_list_update split: option.splits)

lemma closed_channel_gets_nothing:
  "map_of (entries (agent_message dev (Close i) a)) i = None"
  by (auto simp: drop_entry_def map_of_eq_None_iff)

subsection \<open>Input in order\<close>

fun data_of :: "ChannelInput list \<Rightarrow> string" where
  "data_of [] = []"
| "data_of (InData b # q) = b @ data_of q"
| "data_of (x # q) = data_of q"

lemma data_of_append [simp]: "data_of (p @ q) = data_of p @ data_of q"
  by (induction p rule: data_of.induct) auto

lemma data_of_other: "\<forall>b. x \<noteq> InData b \<Longrightarrow> data_of (x # q) = data_of q"
  by (cases x) auto

definition input_ok :: "pipe_channel \<Rightarrow> bool" where
  "input_ok c \<longleftrightarrow>
     prefix (delivered c) (accepted c) \<and> (stdin_open c \<longrightarrow> accepted c = delivered c @ data_of (queue c))"

lemmas worker_defs = poll_round_def drain_stdout_def drain_stderr_def handle_channel_control_def
  latch_eof_def finish_round_def wait_child_def send_status_def complete_pending_control_def Let_def

lemma poll_round_input:
  "delivered (poll_round outs errs req c) = delivered c \<and> accepted (poll_round outs errs req c) = accepted c \<and>
   stdin_open (poll_round outs errs req c) = stdin_open c \<and> queue (poll_round outs errs req c) = queue c"
  by (simp add: worker_defs split: option.splits prod.splits ChannelControlRequest.splits)

lemma finish_round_input:
  "delivered (finish_round w outs errs c) = delivered c \<and> accepted (finish_round w outs errs c) = accepted c \<and>
   queue (finish_round w outs errs c) = queue c \<and> (stdin_open (finish_round w outs errs c) \<longrightarrow> stdin_open c)"
  by (simp add: worker_defs split: wait_result.splits prod.splits)

lemma take_input_ok:
  assumes "input_ok c" "queue c = x # q"
  shows "input_ok (take_input fails x (c\<lparr>queue := q\<rparr>))"
proof (cases x)
  case (InData bytes)
  show ?thesis
  proof (cases "stdin_open c")
    case True
    with assms InData have eq: "accepted c = delivered c @ bytes @ data_of q" by (simp add: input_ok_def)
    have "prefix (delivered c @ take n bytes) (accepted c)" for n
      unfolding eq prefix_def by (intro exI [of _ "drop n bytes @ data_of q"]) simp
    with True InData eq show ?thesis by (cases fails) (simp_all add: input_ok_def)
  next
    case False
    with assms InData show ?thesis by (simp add: input_ok_def)
  qed
qed (use assms in \<open>simp_all add: input_ok_def complete_pending_control_def\<close>)

lemma pipe_step_input: "pipe_step c c' \<Longrightarrow> input_ok c \<Longrightarrow> input_ok c'"
proof (induction rule: pipe_step.induct)
  case (worker_poll c outs errs req)
  then show ?case by (simp add: input_ok_def poll_round_input)
next
  case (worker_take c x q fails)
  then show ?case by (simp add: take_input_ok)
next
  case (worker_wait c w outs errs)
  then show ?case using finish_round_input [of w outs errs c] by (auto simp: input_ok_def)
next
  case (agent_other c x)
  then show ?case by (cases x) (auto simp: input_ok_def)
qed (auto simp: input_ok_def latch_eof_def prefix_def)

interpretation input_machine: machine pipe_step input_ok
  by unfold_locales (rule pipe_step_input)

text \<open>C31: What a command reads from its standard input is always what the host sent, from the start, in
  order and without anything in between, however the agent's main loop and the channel's thread
  interleave; and while the input is open and nothing is queued, it has all of it.\<close>

theorem input_arrives_in_order:
  assumes "pipe_step\<^sup>*\<^sup>* (pipe_start i) c"
  shows "prefix (delivered c) (accepted c) \<and> (stdin_open c \<and> queue c = [] \<longrightarrow> delivered c = accepted c)"
proof -
  have "input_ok (pipe_start i)" by (simp add: input_ok_def pipe_start_def)
  with assms have "input_ok c" by (rule input_machine.reach_good)
  then show ?thesis by (auto simp: input_ok_def)
qed

subsection \<open>A run\<close>

definition after_data :: pipe_channel where
  "after_data = (pipe_start 1)\<lparr>queue := [InData ''x''], accepted := ''x''\<rparr>"

definition after_take :: pipe_channel where
  "after_take = (pipe_start 1)\<lparr>accepted := ''x'', delivered := ''x'', pc := Draining\<rparr>"

lemma reach_after_take: "pipe_step\<^sup>*\<^sup>* (pipe_start 1) after_take"
proof -
  have "pipe_step (pipe_start 1) after_data"
    using pipe_step.agent_data [of "pipe_start 1" "''x''"] by (simp add: after_data_def pipe_start_def)
  moreover have "pipe_step after_data (after_data\<lparr>pc := Draining\<rparr>)"
    using pipe_step.worker_poll [of after_data None None None]
    by (simp add: after_data_def pipe_start_def poll_round_def handle_channel_control_def)
  moreover have "pipe_step (after_data\<lparr>pc := Draining\<rparr>) after_take"
    using pipe_step.worker_take [of "after_data\<lparr>pc := Draining\<rparr>" "InData ''x''" "[]" None]
    by (simp add: after_data_def after_take_def pipe_start_def)
  ultimately show ?thesis by (meson converse_rtranclp_into_rtranclp r_into_rtranclp)
qed

theorem input_arrives_in_order_witness:
  "prefix (delivered after_take) (accepted after_take) \<and> delivered after_take = ''x'' \<and>
   stdin_open after_take \<and> queue after_take = [] \<and> delivered after_take = accepted after_take"
  using input_arrives_in_order [OF reach_after_take] by (simp add: after_take_def pipe_start_def)

subsection \<open>Input that is lost\<close>

text \<open>The thread looks at the latch after it found the queue empty. Data and the end of input that arrive
  in between close the command's input before the data was delivered, although no write failed and
  the command is running; and nothing delivers it later.\<close>

definition lost_input :: pipe_channel where
  "lost_input =
     (pipe_start 1)\<lparr>queue := [InData ''x''], accepted := ''x'', eof_sending := True, stdin_open := False, pc := Waiting\<rparr>"

lemma reach_lost_input: "pipe_step\<^sup>*\<^sup>* (pipe_start 1) lost_input"
proof -
  let ?s = "pipe_start 1"
  have 1: "pipe_step ?s (?s\<lparr>pc := Draining\<rparr>)"
    using pipe_step.worker_poll [of ?s None None None]
    by (simp add: pipe_start_def poll_round_def handle_channel_control_def)
  have 2: "pipe_step (?s\<lparr>pc := Draining\<rparr>) (?s\<lparr>pc := Latching\<rparr>)"
    using pipe_step.worker_empty [of "?s\<lparr>pc := Draining\<rparr>"] by (simp add: pipe_start_def)
  let ?d = "?s\<lparr>pc := Latching, queue := [InData ''x''], accepted := ''x''\<rparr>"
  have 3: "pipe_step (?s\<lparr>pc := Latching\<rparr>) ?d"
    using pipe_step.agent_data [of "?s\<lparr>pc := Latching\<rparr>" "''x''"] by (simp add: pipe_start_def)
  have 4: "pipe_step ?d (?d\<lparr>eof_requested := True, eof_sending := True\<rparr>)"
    by (rule pipe_step.agent_eof_latch) (simp add: pipe_start_def)
  have 5: "pipe_step (?d\<lparr>eof_requested := True, eof_sending := True\<rparr>) lost_input"
    using pipe_step.worker_latch [of "?d\<lparr>eof_requested := True, eof_sending := True\<rparr>"]
    by (simp add: pipe_start_def latch_eof_def lost_input_def)
  from 1 2 3 4 5 show ?thesis by (meson converse_rtranclp_into_rtranclp r_into_rtranclp)
qed

lemma take_input_closed: "\<not> stdin_open c \<Longrightarrow> delivered (take_input f x c) = delivered c \<and> \<not> stdin_open (take_input f x c)"
  by (cases "(f, x, c)" rule: take_input.cases) (auto simp: complete_pending_control_def)

lemma closed_step:
  "pipe_step c c' \<Longrightarrow> \<not> stdin_open c \<Longrightarrow> delivered c' = delivered c \<and> \<not> stdin_open c'"
proof (induction rule: pipe_step.induct)
  case (worker_take c x q fails)
  then show ?case using take_input_closed [of "c\<lparr>queue := q\<rparr>" fails x] by simp
next
  case (worker_wait c w outs errs)
  then show ?case using finish_round_input [of w outs errs c] by auto
qed (auto simp: poll_round_input latch_eof_def)

lemma eof_latch_drops_input:
  "pipe_step\<^sup>*\<^sup>* (pipe_start 1) lost_input \<and> accepted lost_input = ''x'' \<and> \<not> input_lost lost_input \<and>
   \<not> child_exited lost_input \<and> (\<forall>c. pipe_step\<^sup>*\<^sup>* lost_input c \<longrightarrow> delivered c = [])"
proof -
  have "delivered c = [] \<and> \<not> stdin_open c" if "pipe_step\<^sup>*\<^sup>* lost_input c" for c
    using that
  proof (induction rule: rtranclp_induct)
    case base
    show ?case by (simp add: lost_input_def pipe_start_def)
  next
    case (step c c')
    then show ?case using closed_step [OF step.hyps(2)] by simp
  qed
  moreover have "accepted lost_input = ''x''" "\<not> input_lost lost_input" "\<not> child_exited lost_input"
    by (simp_all add: lost_input_def pipe_start_def)
  ultimately show ?thesis using reach_lost_input by blast
qed

subsection \<open>The end of a channel\<close>

definition ends :: "Message \<Rightarrow> bool" where
  "ends m = (case m of ExitStatus _ _ \<Rightarrow> True | Close _ \<Rightarrow> True | _ \<Rightarrow> False)"

definition end_ok :: "pipe_channel \<Rightarrow> bool" where
  "end_ok c \<longleftrightarrow>
     (if pc c = Finished
      then child_exited c \<and> stdout_eof c \<and> stderr_eof c \<and>
        (\<exists>ms. messages c = ms @ [ExitStatus (pc_id c) (exit_status (wait_status c)), Close (pc_id c)] \<and>
              \<not> list_ex ends ms)
      else \<not> list_ex ends (messages c))"

lemma drain_not_ends: "\<not> list_ex ends (fst (drain_output_message e i rs))"
  by (induction e i rs rule: drain_output_message.induct) (auto simp: ends_def split: prod.splits)

lemma drained_end:
  assumes "pc c \<noteq> Finished" "\<not> list_ex ends (messages c)"
  shows "\<not> list_ex ends (messages (drain_stdout rs c))" "\<not> list_ex ends (messages (drain_stderr rs c))"
    "pc (drain_stdout rs c) = pc c" "pc (drain_stderr rs c) = pc c"
  using assms drain_not_ends [of False "pc_id c" rs] drain_not_ends [of True "pc_id c" rs]
  by (auto simp: drain_stdout_def drain_stderr_def split: prod.splits)

lemma take_input_end:
  assumes "pc c = Draining" "\<not> list_ex ends (messages c)"
  shows "pc (take_input fails x c) \<noteq> Finished \<and> \<not> list_ex ends (messages (take_input fails x c))"
  using assms by (cases x) (auto simp: complete_pending_control_def split: option.splits)

lemma poll_round_end:
  assumes "pc c = Polling" "\<not> list_ex ends (messages c)"
  shows "pc (poll_round outs errs req c) = Draining \<and> \<not> list_ex ends (messages (poll_round outs errs req c))"
proof -
  define c1 where "c1 = (case outs of Some rs \<Rightarrow> if stdout_eof c then c else drain_stdout rs c | None \<Rightarrow> c)"
  define c2 where "c2 = (case errs of Some rs \<Rightarrow> if stderr_eof c then c1 else drain_stderr rs c1 | None \<Rightarrow> c1)"
  have 1: "pc c1 = Polling \<and> \<not> list_ex ends (messages c1)"
    using assms drained_end [of c] by (simp add: c1_def split: option.splits)
  then have "pc c2 = Polling \<and> \<not> list_ex ends (messages c2)"
    using drained_end [of c1] by (simp add: c2_def split: option.splits)
  then have "\<not> list_ex ends (messages (handle_channel_control req c2))"
    by (simp add: handle_channel_control_def ends_def split: option.splits ChannelControlRequest.splits)
  with \<open>pc c2 = Polling \<and> \<not> list_ex ends (messages c2)\<close> show ?thesis
    by (simp add: poll_round_def flip: c1_def c2_def)
qed

lemma finish_round_end:
  assumes "pc c = Waiting" "\<not> list_ex ends (messages c)"
  shows "end_ok (finish_round w outs errs c)"
proof -
  define c1 where "c1 = wait_child w c"
  define c2 where "c2 = (if child_exited c1 then drain_stderr errs (drain_stdout outs (c1\<lparr>stdin_open := False\<rparr>)) else c1)"
  have "pc c1 = Waiting \<and> \<not> list_ex ends (messages c1)"
    using assms by (simp add: c1_def wait_child_def split: wait_result.splits)
  then have "\<not> list_ex ends (messages c2)"
    using drained_end [of "c1\<lparr>stdin_open := False\<rparr>" outs]
      drained_end [of "drain_stdout outs (c1\<lparr>stdin_open := False\<rparr>)" errs] by (simp add: c2_def)
  then show ?thesis
    by (simp add: finish_round_def send_status_def end_ok_def flip: c1_def c2_def)
qed

lemma pipe_step_end: "pipe_step c c' \<Longrightarrow> end_ok c \<Longrightarrow> end_ok c'"
proof (induction rule: pipe_step.induct)
  case (worker_poll c outs errs req)
  then show ?case using poll_round_end [of c] by (simp add: end_ok_def)
next
  case (worker_take c x q fails)
  then show ?case using take_input_end [of "c\<lparr>queue := q\<rparr>" fails x] by (simp add: end_ok_def)
next
  case (worker_wait c w outs errs)
  then show ?case using finish_round_end [of c] by (simp add: end_ok_def)
qed (auto simp: end_ok_def latch_eof_def)

interpretation end_machine: machine pipe_step end_ok
  by unfold_locales (rule pipe_step_end)

text \<open>C32: The host learns of a command's end once, and last: its exit status and the close of its channel
  are sent only after the command exited and both of its outputs ended, and no output follows.\<close>

theorem exit_status_comes_last:
  assumes "pipe_step\<^sup>*\<^sup>* (pipe_start i) c" "messages c = ms @ m # ms'" "ends m"
  shows "child_exited c \<and> stdout_eof c \<and> stderr_eof c \<and>
    (\<exists>out. messages c = out @ [ExitStatus (pc_id c) (exit_status (wait_status c)), Close (pc_id c)] \<and>
       \<not> list_ex ends out)"
proof -
  have "end_ok (pipe_start i)" by (simp add: end_ok_def pipe_start_def ends_def)
  with assms(1) have "end_ok c" by (rule end_machine.reach_good)
  moreover have "list_ex ends (messages c)" using assms(2,3) by simp
  ultimately show ?thesis by (simp add: end_ok_def split: if_splits)
qed

definition finished_channel :: pipe_channel where
  "finished_channel =
     (pipe_start 1)\<lparr>pc := Finished, stdin_open := False, child_exited := True, wait_status := 256, stdout_eof := True,
        stderr_eof := True, messages := [ExecStarted 1, ExitStatus 1 1, Close 1]\<rparr>"

lemma reach_finished: "pipe_step\<^sup>*\<^sup>* (pipe_start 1) finished_channel"
proof -
  let ?s = "pipe_start 1"
  have 1: "pipe_step ?s (?s\<lparr>pc := Draining\<rparr>)"
    using pipe_step.worker_poll [of ?s None None None]
    by (simp add: pipe_start_def poll_round_def handle_channel_control_def)
  have 2: "pipe_step (?s\<lparr>pc := Draining\<rparr>) (?s\<lparr>pc := Latching\<rparr>)"
    using pipe_step.worker_empty [of "?s\<lparr>pc := Draining\<rparr>"] by (simp add: pipe_start_def)
  have 3: "pipe_step (?s\<lparr>pc := Latching\<rparr>) (?s\<lparr>pc := Waiting\<rparr>)"
    using pipe_step.worker_latch [of "?s\<lparr>pc := Latching\<rparr>"] by (simp add: pipe_start_def latch_eof_def)
  have "finish_round (Exited 256) [ReadEof] [ReadEof] (?s\<lparr>pc := Waiting\<rparr>) = finished_channel"
    by (simp add: worker_defs finished_channel_def pipe_start_def exit_status_def drop_bit_eq_div)
  then have 4: "pipe_step (?s\<lparr>pc := Waiting\<rparr>) finished_channel"
    using pipe_step.worker_wait [of "?s\<lparr>pc := Waiting\<rparr>" "Exited 256" "[ReadEof]" "[ReadEof]"]
    by (simp add: pipe_start_def)
  from 1 2 3 4 show ?thesis by (meson converse_rtranclp_into_rtranclp r_into_rtranclp)
qed

theorem exit_status_comes_last_witness:
  "child_exited finished_channel \<and> stdout_eof finished_channel \<and>
   (\<exists>out. messages finished_channel = out @ [ExitStatus 1 1, Close 1] \<and> \<not> list_ex ends out)"
proof -
  have m: "messages finished_channel = [ExecStarted 1] @ ExitStatus 1 1 # [Close 1]" "ends (ExitStatus 1 1)"
    "pc_id finished_channel = 1" "wait_status finished_channel = 256"
    by (simp_all add: finished_channel_def ends_def pipe_start_def)
  from exit_status_comes_last [OF reach_finished m(1,2)] m(3,4) show ?thesis
    by (simp add: exit_status_def drop_bit_eq_div)
qed

end
