(* ===== verification/Locks.thy ===== *)
theory Locks
  imports Protocol Types Deterministic Machine
begin

text \<open>
  The instance locks, \<open>src/src/runner/locks.rs\<close>: who a process is, what a holder records in a lock
  file, and the acquisition of \<open>flock\<close> locks on files that may be moved away with their instance.
  Threads of any number of processes take the steps of the source one system call at a time, in
  any order.
\<close>

subsection \<open>Processes\<close>

text \<open>\<open>/proc/<pid>/stat\<close>: the fields after the last closing parenthesis; the start time is the
  twentieth of them.\<close>

definition process_start_time :: "string \<Rightarrow> nat option" where
  "process_start_time stat =
     Option.bind (rsplit_once (CHR '')'') stat) (\<lambda>(_, rest).
     let words = split_whitespace rest in
     if 19 < length words then parse_uint U64_MAX (words ! 19) else None)"

text \<open>\<open>start\<close> is the start time of the process that now runs under a pid, if there is one.\<close>

definition identity_of :: "(int \<Rightarrow> nat option) \<Rightarrow> int \<Rightarrow> ProcessIdentity option" where
  "identity_of start p =
     (if p \<le> 0 then None else map_option (\<lambda>s. \<lparr>pid = p, started = s\<rparr>) (start p))"

definition current_identity :: "(int \<Rightarrow> nat option) \<Rightarrow> int \<Rightarrow> ProcessIdentity" where
  "current_identity start me =
     (case identity_of start me of Some p \<Rightarrow> p | None \<Rightarrow> \<lparr>pid = me, started = 0\<rparr>)"

definition is_running :: "(int \<Rightarrow> nat option) \<Rightarrow> ProcessIdentity \<Rightarrow> bool" where
  "is_running start p \<longleftrightarrow> identity_of start (pid p) = Some p"

text \<open>Signals: \<open>kill\<close> returns 0 or an error number, and is called with a negative pid for a group.\<close>

datatype signal_result = Signalled | InvalidPid | SignalError nat

definition ESRCH :: nat where "ESRCH = 3"

definition signal_process_group :: "(int \<Rightarrow> nat \<Rightarrow> nat) \<Rightarrow> int \<Rightarrow> nat \<Rightarrow> signal_result" where
  "signal_process_group kill p signal =
     (if p \<le> 0 then InvalidPid
      else let group_error = kill (- p) signal in
        if group_error = 0 then Signalled
        else let error = kill p signal in
          if error = 0 \<or> error = ESRCH then Signalled else SignalError group_error)"

definition signal_process :: "(int \<Rightarrow> nat \<Rightarrow> nat) \<Rightarrow> int \<Rightarrow> nat \<Rightarrow> signal_result" where
  "signal_process kill p signal =
     (if p \<le> 0 then InvalidPid
      else let error = kill p signal in
        if error = 0 \<or> error = ESRCH then Signalled else SignalError error)"

definition signal_identity ::
    "(int \<Rightarrow> nat option) \<Rightarrow> (int \<Rightarrow> nat \<Rightarrow> signal_result) \<Rightarrow> ProcessIdentity \<Rightarrow> nat \<Rightarrow> signal_result" where
  "signal_identity start send p signal =
     (if is_running start p then send (pid p) signal else Signalled)"

subsection \<open>Leases\<close>

datatype LeaseRole = Owner | Maintenance | Starter

record Lease =
  role :: LeaseRole
  process :: ProcessIdentity
  protocol_version :: nat
  agent_source_stamp :: string
  binary_path :: string

text \<open>What a thread needs to know: its process, its program, and the JSON encoding of a lease.\<close>

type_synonym thread = nat

record lock_env =
  identity :: "thread \<Rightarrow> ProcessIdentity"
  source_stamp :: string
  current_exe :: string
  enc_lease :: "Lease \<Rightarrow> string"
  dec_lease :: "string \<Rightarrow> Lease option"

definition for_current_process :: "lock_env \<Rightarrow> thread \<Rightarrow> LeaseRole \<Rightarrow> Lease" where
  "for_current_process E t r =
     \<lparr>role = r, process = identity E t, protocol_version = PROTOCOL_VERSION,
      agent_source_stamp = source_stamp E, binary_path = current_exe E\<rparr>"

definition lease_text :: "lock_env \<Rightarrow> thread \<Rightarrow> LeaseRole \<Rightarrow> string" where
  "lease_text E t r = enc_lease E (for_current_process E t r) @ [CHR 0x0A]"

text \<open>A torn record names nobody.\<close>

definition read_lease_from :: "lock_env \<Rightarrow> string \<Rightarrow> Lease option" where
  "read_lease_from E content =
     (if trim content = [] then None else dec_lease E (trim content))"

datatype InstanceLockState =
    Free "Lease option"
  | Held "Lease option"

fun live_owner :: "InstanceLockState \<Rightarrow> Lease option" where
  "live_owner (Held (Some l)) = (if role l = Owner then Some l else None)"
| "live_owner _ = None"

fun is_held :: "InstanceLockState \<Rightarrow> bool" where
  "is_held (Held _) = True"
| "is_held (Free _) = False"

subsection \<open>The locks of one instance\<close>

datatype lock_name = INSTANCE_LOCK | INSTANCE_LOCK_GUARD | OWNER_START_LOCK

definition LOCK_FILES :: "lock_name list" where
  "LOCK_FILES = [INSTANCE_LOCK, INSTANCE_LOCK_GUARD, OWNER_START_LOCK]"

instantiation lock_name :: enum
begin

definition enum_lock_name :: "lock_name list" where
  "enum_lock_name = LOCK_FILES"

definition enum_all_lock_name :: "(lock_name \<Rightarrow> bool) \<Rightarrow> bool" where
  "enum_all_lock_name P \<longleftrightarrow> list_all P LOCK_FILES"

definition enum_ex_lock_name :: "(lock_name \<Rightarrow> bool) \<Rightarrow> bool" where
  "enum_ex_lock_name P \<longleftrightarrow> list_ex P LOCK_FILES"

instance
proof
  have all: "k \<in> set LOCK_FILES" for k by (cases k) (simp_all add: LOCK_FILES_def)
  then show "UNIV = set (enum_class.enum :: lock_name list)" by (auto simp: enum_lock_name_def)
  show "distinct (enum_class.enum :: lock_name list)" by (simp add: enum_lock_name_def LOCK_FILES_def)
  show "enum_class.enum_all P \<longleftrightarrow> Ball UNIV P" for P :: "lock_name \<Rightarrow> bool"
    using all by (auto simp: enum_all_lock_name_def list_all_iff)
  show "enum_class.enum_ex P \<longleftrightarrow> Bex UNIV P" for P :: "lock_name \<Rightarrow> bool"
    using all by (auto simp: enum_ex_lock_name_def list_ex_iff)
qed

end

type_synonym ino = nat

text \<open>Why a thread takes the guard, and which function called \<open>HeldLock::try_acquire\<close>.\<close>

datatype purpose = Take LeaseRole | Look

datatype caller =
    ForGuard purpose
  | ForInstance ino LeaseRole
  | ForStart

fun lock_path :: "caller \<Rightarrow> lock_name" where
  "lock_path (ForGuard _) = INSTANCE_LOCK_GUARD"
| "lock_path (ForInstance _ _) = INSTANCE_LOCK"
| "lock_path ForStart = OWNER_START_LOCK"

text \<open>Where a thread is. The files it has locked are named in the order it locked them, the guard
  first.\<close>

datatype place =
    Idle
  | Exited
  | Acquiring bool caller
  | Opening caller
  | Opened ino caller
  | Flocked ino caller
  | Waiting purpose
  | Busy ino LeaseRole
  | Taken ino ino LeaseRole
  | Recording ino ino LeaseRole
  | Writing ino ino LeaseRole
  | Leaving ino ino LeaseRole
  | Owned ino LeaseRole
  | Moved ino LeaseRole "lock_name \<Rightarrow> ino option"
  | StartRecording ino
  | StartWriting ino
  | Starting ino
  | Probing ino
  | ProbeOpened ino ino
  | ProbeShared ino ino
  | Acting "ino option" InstanceLockState

text \<open>The instance directory and its lock files (a file is its inode, so moving the directory away
  does not change what is locked; a new file is empty), the locks of the kernel, and the threads. A child between
  \<open>fork\<close> and \<open>exec\<close> keeps an inherited lock.\<close>

record lock_world =
  instance_there :: bool
  at_path :: "lock_name \<Rightarrow> ino option"
  next_ino :: ino
  contents_of :: "ino \<Rightarrow> string"
  flocked_by :: "ino \<Rightarrow> thread option"
  inherited :: "ino \<Rightarrow> bool"
  shared_by :: "ino \<Rightarrow> thread list"
  gone :: "ProcessIdentity \<Rightarrow> bool"
  place_of :: "thread \<Rightarrow> place"

definition names_a_live_holder :: "lock_world \<Rightarrow> Lease option \<Rightarrow> bool" where
  "names_a_live_holder w l = (case l of None \<Rightarrow> False | Some l \<Rightarrow> \<not> gone w (process l))"

definition read_lease_at :: "lock_env \<Rightarrow> lock_world \<Rightarrow> Lease option" where
  "read_lease_at E w =
     (case at_path w INSTANCE_LOCK of
        None \<Rightarrow> None
      | Some i \<Rightarrow> read_lease_from E (contents_of w i))"

definition go :: "thread \<Rightarrow> place \<Rightarrow> lock_world \<Rightarrow> lock_world" where
  "go t p w = w\<lparr>place_of := (place_of w)(t := p)\<rparr>"

definition put_contents :: "ino \<Rightarrow> string \<Rightarrow> lock_world \<Rightarrow> lock_world" where
  "put_contents i c w = w\<lparr>contents_of := (contents_of w)(i := c)\<rparr>"

definition close_file :: "ino \<Rightarrow> lock_world \<Rightarrow> lock_world" where
  "close_file i w = w\<lparr>flocked_by := (flocked_by w)(i := None)\<rparr>"

text \<open>\<open>Drop for HeldLock\<close>: a cleanly released lock carries no lease.\<close>

definition drop_held :: "bool \<Rightarrow> ino \<Rightarrow> lock_world \<Rightarrow> lock_world" where
  "drop_held clear_lease_on_release i w =
     close_file i (if clear_lease_on_release then put_contents i [] w else w)"

fun drop_caller :: "caller \<Rightarrow> lock_world \<Rightarrow> lock_world" where
  "drop_caller (ForInstance g _) w = drop_held True g w"
| "drop_caller _ w = w"

text \<open>What follows \<open>HeldLock::try_acquire\<close> in its callers.\<close>

fun granted :: "ino \<Rightarrow> caller \<Rightarrow> place" where
  "granted i (ForGuard (Take r)) = Acquiring False (ForInstance i r)"
| "granted i (ForGuard Look) = Probing i"
| "granted i (ForInstance g r) = Taken g i r"
| "granted i ForStart = StartRecording i"

fun not_granted :: "caller \<Rightarrow> place" where
  "not_granted (ForGuard p) = Waiting p"
| "not_granted (ForInstance g r) = Busy g r"
| "not_granted ForStart = Idle"

definition flock_free :: "ino \<Rightarrow> lock_world \<Rightarrow> bool" where
  "flock_free i w \<longleftrightarrow> flocked_by w i = None \<and> \<not> inherited w i \<and> shared_by w i = []"

definition flock_shared_free :: "ino \<Rightarrow> lock_world \<Rightarrow> bool" where
  "flock_shared_free i w \<longleftrightarrow> flocked_by w i = None \<and> \<not> inherited w i"

definition open_lock_file :: "lock_name \<Rightarrow> lock_world \<Rightarrow> ino \<times> lock_world" where
  "open_lock_file k w =
     (case at_path w k of
        Some i \<Rightarrow> (i, w\<lparr>instance_there := True\<rparr>)
      | None \<Rightarrow>
          (next_ino w,
           w\<lparr>instance_there := True, at_path := (at_path w)(k := Some (next_ino w)),
             next_ino := Suc (next_ino w)\<rparr>))"

definition is_file_at :: "ino \<Rightarrow> lock_name \<Rightarrow> lock_world \<Rightarrow> bool" where
  "is_file_at i k w \<longleftrightarrow> at_path w k = Some i"

text \<open>\<open>HeldLock::try_acquire\<close>: open, lock, and keep the lock only if the file is still the one at
  the path.\<close>

fun held_lock_try_acquire :: "thread \<Rightarrow> place \<Rightarrow> lock_world \<Rightarrow> lock_world option" where
  "held_lock_try_acquire t (Acquiring retry c) w = Some
     (if retry \<and> \<not> instance_there w then go t Idle (drop_caller c w) else go t (Opening c) w)"
| "held_lock_try_acquire t (Opening c) w =
     (let (i, w1) = open_lock_file (lock_path c) w in Some (go t (Opened i c) w1))"
| "held_lock_try_acquire t (Opened i c) w = Some
     (if flock_free i w then go t (Flocked i c) (w\<lparr>flocked_by := (flocked_by w)(i := Some t)\<rparr>)
      else go t (not_granted c) w)"
| "held_lock_try_acquire t (Flocked i c) w = Some
     (if is_file_at i (lock_path c) w then go t (granted i c) w
      else go t (Acquiring True c) (close_file i w))"
| "held_lock_try_acquire t _ w = None"

text \<open>\<open>InstanceLock::try_acquire\<close>, once it holds the guard.\<close>

fun instance_lock_try_acquire :: "lock_env \<Rightarrow> thread \<Rightarrow> place \<Rightarrow> lock_world \<Rightarrow> lock_world option" where
  "instance_lock_try_acquire E t (Waiting p) w = Some
     (go t (Acquiring False (ForGuard p)) w)"
| "instance_lock_try_acquire E t (Busy g r) w = Some
     (if names_a_live_holder w (read_lease_at E w) then go t Idle (drop_held True g w)
      else go t (Acquiring False (ForInstance g r)) w)"
| "instance_lock_try_acquire E t (Taken g i r) w = Some (go t (Recording g i r) w)"
| "instance_lock_try_acquire E t (Recording g i r) w = Some (go t (Writing g i r) (put_contents i [] w))"
| "instance_lock_try_acquire E t (Writing g i r) w = Some
     (go t (Leaving g i r) (put_contents i (lease_text E t r) w))"
| "instance_lock_try_acquire E t (Leaving g i r) w = Some (go t (Owned i r) (drop_held True g w))"
| "instance_lock_try_acquire E t _ w = None"

fun owner_start_try_acquire :: "lock_env \<Rightarrow> thread \<Rightarrow> place \<Rightarrow> lock_world \<Rightarrow> lock_world option" where
  "owner_start_try_acquire E t (StartRecording i) w = Some (go t (StartWriting i) (put_contents i [] w))"
| "owner_start_try_acquire E t (StartWriting i) w = Some
     (go t (Starting i) (put_contents i (lease_text E t Starter) w))"
| "owner_start_try_acquire E t _ w = None"

fun probe_instance_lock :: "lock_env \<Rightarrow> thread \<Rightarrow> place \<Rightarrow> lock_world \<Rightarrow> lock_world option" where
  "probe_instance_lock E t (Probing g) w = Some
     (case at_path w INSTANCE_LOCK of
        None \<Rightarrow> go t (Acting (Some g) (Free None)) w
      | Some i \<Rightarrow> go t (ProbeOpened g i) w)"
| "probe_instance_lock E t (ProbeOpened g i) w = Some
     (if flock_shared_free i w
      then go t (ProbeShared g i) (w\<lparr>shared_by := (shared_by w)(i := t # shared_by w i)\<rparr>)
      else let lease = read_lease_from E (contents_of w i) in
        if names_a_live_holder w lease then go t (Acting (Some g) (Held lease)) w else w)"
| "probe_instance_lock E t (ProbeShared g i) w = Some
     (go t (Acting (Some g) (Free (read_lease_from E (contents_of w i))))
        (w\<lparr>shared_by := (shared_by w)(i := remove1 t (shared_by w i))\<rparr>))"
| "probe_instance_lock E t _ w = None"

text \<open>The value that holds a lock is dropped.\<close>

fun release_lock :: "thread \<Rightarrow> place \<Rightarrow> lock_world \<Rightarrow> lock_world option" where
  "release_lock t (Owned i _) w = Some (go t Idle (drop_held True i w))"
| "release_lock t (Moved i _ _) w = Some (go t Idle (drop_held True i w))"
| "release_lock t (Starting i) w = Some (go t Idle (drop_held True i w))"
| "release_lock t (Acting (Some g) _) w = Some (go t Idle (drop_held True g w))"
| "release_lock t (Acting None _) w = Some (go t Idle w)"
| "release_lock t _ w = None"

text \<open>A call in progress returns an error, and \<open>?\<close> drops what the function holds.\<close>

fun call_fails :: "thread \<Rightarrow> place \<Rightarrow> lock_world \<Rightarrow> lock_world option" where
  "call_fails t (Opening c) w = Some (go t Idle (drop_caller c w))"
| "call_fails t (Opened i c) w = Some (go t Idle (drop_caller c w))"
| "call_fails t (Flocked i c) w = Some (go t Idle (drop_caller c (close_file i w)))"
| "call_fails t (Busy g r) w = Some (go t Idle (drop_held True g w))"
| "call_fails t (Taken g i r) w = Some (go t Idle (drop_held True g (drop_held True i w)))"
| "call_fails t (Recording g i r) w = Some (go t Idle (drop_held True g (drop_held True i w)))"
| "call_fails t (Writing g i r) w = Some (go t Idle (drop_held True g (drop_held True i w)))"
| "call_fails t (StartRecording i) w = Some (go t Idle (drop_held True i w))"
| "call_fails t (StartWriting i) w = Some (go t Idle (drop_held True i w))"
| "call_fails t (Probing g) w = Some (go t Idle (drop_held True g w))"
| "call_fails t (ProbeOpened g i) w = Some (go t Idle (drop_held True g w))"
| "call_fails t (ProbeShared g i) w = Some
     (go t Idle (drop_held True g (w\<lparr>shared_by := (shared_by w)(i := remove1 t (shared_by w i))\<rparr>)))"
| "call_fails t _ w = None"

text \<open>A deadline passes.\<close>

fun deadline_passes :: "lock_env \<Rightarrow> thread \<Rightarrow> place \<Rightarrow> lock_world \<Rightarrow> lock_world option" where
  "deadline_passes E t (Waiting p) w = Some (go t Idle w)"
| "deadline_passes E t (Busy g r) w = Some (go t Idle (drop_held True g w))"
| "deadline_passes E t (ProbeOpened g i) w =
     (if flock_shared_free i w then None
      else Some (go t (Acting (Some g) (Held (read_lease_from E (contents_of w i)))) w))"
| "deadline_passes E t _ w = None"

subsection \<open>Everything that can happen\<close>

datatype lock_event =
    Begin thread LeaseRole
  | BeginLook thread
  | BeginStart thread
  | Proceed thread
  | CallFails thread
  | DeadlinePasses thread
  | Refuse thread
  | Tear thread nat
  | ProcessDies ProcessIdentity
  | Forked ino
  | Exec ino
  | MoveAway thread
  | PutBack thread
  | Install

definition first_some :: "'a option \<Rightarrow> 'a option \<Rightarrow> 'a option" where
  "first_some a b = (case a of None \<Rightarrow> b | Some x \<Rightarrow> Some x)"

fun move_away :: "thread \<Rightarrow> place \<Rightarrow> lock_world \<Rightarrow> lock_world option" where
  "move_away t (Owned i r) w =
     (if instance_there w
      then Some (go t (Moved i r (at_path w)) (w\<lparr>instance_there := False, at_path := \<lambda>_. None\<rparr>))
      else None)"
| "move_away t _ w = None"

fun put_back :: "thread \<Rightarrow> place \<Rightarrow> lock_world \<Rightarrow> lock_world option" where
  "put_back t (Moved i r saved) w =
     (if instance_there w then None
      else Some (go t (Owned i r) (w\<lparr>instance_there := True, at_path := saved\<rparr>)))"
| "put_back t _ w = None"

text \<open>A process that dies, however it dies, loses its locks; its leases stay. A \<open>write_all\<close> may
  have written a part of the lease.\<close>

definition process_dies :: "lock_env \<Rightarrow> ProcessIdentity \<Rightarrow> lock_world \<Rightarrow> lock_world" where
  "process_dies E p w =
     w\<lparr>gone := (gone w)(p := True),
       flocked_by := (\<lambda>i. case flocked_by w i of
          None \<Rightarrow> None | Some t \<Rightarrow> if identity E t = p then None else Some t),
       shared_by := (\<lambda>i. filter (\<lambda>t. identity E t \<noteq> p) (shared_by w i)),
       place_of := (\<lambda>t. if identity E t = p then Exited else place_of w t)\<rparr>"

fun tear :: "lock_env \<Rightarrow> nat \<Rightarrow> thread \<Rightarrow> place \<Rightarrow> lock_world \<Rightarrow> lock_world option" where
  "tear E n t (Writing g i r) w = Some (put_contents i (take n (lease_text E t r)) w)"
| "tear E n t _ w = None"

fun refuse :: "thread \<Rightarrow> place \<Rightarrow> lock_world \<Rightarrow> lock_world option" where
  "refuse t (Taken g i r) w = Some (go t Idle (drop_held True g (drop_held False i w)))"
| "refuse t _ w = None"

definition proceed :: "lock_env \<Rightarrow> thread \<Rightarrow> lock_world \<Rightarrow> lock_world option" where
  "proceed E t w =
     (let p = place_of w t in
      first_some (held_lock_try_acquire t p w)
      (first_some (instance_lock_try_acquire E t p w)
      (first_some (owner_start_try_acquire E t p w)
      (first_some (probe_instance_lock E t p w) (release_lock t p w)))))"

text \<open>\<open>with_instance_guard\<close> does not create the instance to look at it.\<close>

definition with_instance_guard :: "thread \<Rightarrow> lock_world \<Rightarrow> lock_world" where
  "with_instance_guard t w =
     (if instance_there w then go t (Acquiring False (ForGuard Look)) w
      else go t (Acting None (Free None)) w)"

fun happens :: "lock_env \<Rightarrow> lock_event \<Rightarrow> lock_world \<Rightarrow> lock_world option" where
  "happens E (Begin t r) w =
     (if place_of w t = Idle then Some (go t (Acquiring False (ForGuard (Take r))) w)
      else None)"
| "happens E (BeginLook t) w =
     (if place_of w t = Idle then Some (with_instance_guard t w) else None)"
| "happens E (BeginStart t) w =
     (if place_of w t = Idle then Some (go t (Acquiring False ForStart) w) else None)"
| "happens E (Proceed t) w = proceed E t w"
| "happens E (CallFails t) w = call_fails t (place_of w t) w"
| "happens E (DeadlinePasses t) w = deadline_passes E t (place_of w t) w"
| "happens E (Refuse t) w = refuse t (place_of w t) w"
| "happens E (Tear t n) w = tear E n t (place_of w t) w"
| "happens E (ProcessDies p) w = Some (process_dies E p w)"
| "happens E (Forked i) w =
     (if flocked_by w i = None then None else Some (w\<lparr>inherited := (inherited w)(i := True)\<rparr>))"
| "happens E (Exec i) w = Some (w\<lparr>inherited := (inherited w)(i := False)\<rparr>)"
| "happens E (MoveAway t) w = move_away t (place_of w t) w"
| "happens E (PutBack t) w = put_back t (place_of w t) w"
| "happens E Install w = (if instance_there w then None else Some (w\<lparr>instance_there := True\<rparr>))"

fun lock_run :: "lock_env \<Rightarrow> lock_event list \<Rightarrow> lock_world \<Rightarrow> lock_world option" where
  "lock_run E [] w = Some w"
| "lock_run E (a # as) w = Option.bind (happens E a w) (lock_run E as)"

definition lock_step :: "lock_env \<Rightarrow> lock_world \<Rightarrow> lock_world \<Rightarrow> bool" where
  "lock_step E w w' \<longleftrightarrow> (\<exists>a. happens E a w = Some w')"

definition no_locks :: lock_world where
  "no_locks =
     \<lparr>instance_there = False, at_path = \<lambda>_. None, next_ino = 0, contents_of = \<lambda>_. [],
      flocked_by = \<lambda>_. None, inherited = \<lambda>_. False, shared_by = \<lambda>_. [],
      gone = \<lambda>_. False, place_of = \<lambda>_. Idle\<rparr>"

end
