(* ===== verification/LocksProps.thy ===== *)
theory LocksProps
  imports Locks
begin

text \<open>
  Exclusion: however the threads of any processes interleave, die, fork, and move instances away
  under each other, at most one of them owns the instance, and its lease names it.
\<close>

subsection \<open>The invariant\<close>

fun caller_holds :: "caller \<Rightarrow> ino list" where
  "caller_holds (ForInstance g _) = [g]"
| "caller_holds _ = []"

fun holding :: "place \<Rightarrow> ino list" where
  "holding (Acquiring _ c) = caller_holds c"
| "holding (Opening c) = caller_holds c"
| "holding (Opened _ c) = caller_holds c"
| "holding (Flocked i c) = i # caller_holds c"
| "holding (Busy g _) = [g]"
| "holding (Taken g i _) = [g, i]"
| "holding (Recording g i _) = [g, i]"
| "holding (Writing g i _) = [g, i]"
| "holding (Leaving g i _) = [g, i]"
| "holding (Owned i _) = [i]"
| "holding (Moved i _ _) = [i]"
| "holding (StartRecording i) = [i]"
| "holding (StartWriting i) = [i]"
| "holding (Starting i) = [i]"
| "holding (Probing g) = [g]"
| "holding (ProbeOpened g _) = [g]"
| "holding (ProbeShared g _) = [g]"
| "holding (Acting (Some g) _) = [g]"
| "holding _ = []"

text \<open>The instance lock a thread has been granted, while the instance is where it was.\<close>

fun owns :: "place \<Rightarrow> ino option" where
  "owns (Taken _ i _) = Some i"
| "owns (Recording _ i _) = Some i"
| "owns (Writing _ i _) = Some i"
| "owns (Leaving _ i _) = Some i"
| "owns (Owned i _) = Some i"
| "owns _ = None"

fun recorded :: "place \<Rightarrow> (ino \<times> LeaseRole) option" where
  "recorded (Leaving _ i r) = Some (i, r)"
| "recorded (Owned i r) = Some (i, r)"
| "recorded (Moved i r _) = Some (i, r)"
| "recorded _ = None"

fun moved_from :: "place \<Rightarrow> (ino \<times> (lock_name \<Rightarrow> ino option)) option" where
  "moved_from (Moved i _ saved) = Some (i, saved)"
| "moved_from _ = None"

definition thread_ok :: "lock_env \<Rightarrow> lock_world \<Rightarrow> thread \<Rightarrow> bool" where
  "thread_ok E w t \<longleftrightarrow>
     distinct (holding (place_of w t)) \<and>
     (\<forall>x \<in> set (holding (place_of w t)). flocked_by w x = Some t) \<and>
     (\<forall>i. owns (place_of w t) = Some i \<longrightarrow> at_path w INSTANCE_LOCK = Some i) \<and>
     (\<forall>i r. recorded (place_of w t) = Some (i, r) \<longrightarrow> contents_of w i = lease_text E t r) \<and>
     (\<forall>i saved. moved_from (place_of w t) = Some (i, saved) \<longrightarrow> saved INSTANCE_LOCK = Some i)"

definition lock_inv :: "lock_env \<Rightarrow> lock_world \<Rightarrow> bool" where
  "lock_inv E w \<longleftrightarrow>
     (\<forall>t. thread_ok E w t) \<and> (\<not> instance_there w \<longrightarrow> at_path w INSTANCE_LOCK = None)"

lemma owns_holding: "owns p = Some i \<Longrightarrow> i \<in> set (holding p)"
  by (cases p) auto

lemma recorded_holding: "recorded p = Some (i, r) \<Longrightarrow> i \<in> set (holding p)"
  by (cases p) auto

lemma lock_invD:
  "lock_inv E w \<Longrightarrow> thread_ok E w t"
  "lock_inv E w \<Longrightarrow> \<not> instance_there w \<Longrightarrow> at_path w INSTANCE_LOCK = None"
  by (simp_all add: lock_inv_def)

lemma lock_inv_owns:
  "lock_inv E w \<Longrightarrow> owns (place_of w t) = Some i \<Longrightarrow> at_path w INSTANCE_LOCK = Some i"
  "lock_inv E w \<Longrightarrow> owns (place_of w t) = Some i \<Longrightarrow> flocked_by w i = Some t"
  by (auto simp: lock_inv_def thread_ok_def dest: owns_holding)

text \<open>A step of one thread leaves another alone when it takes or gives back only its own locks, writes
  only files it has locked, and does not move the instance lock of the other.\<close>

lemma thread_frame:
  assumes "thread_ok E w u" "place_of w' u = place_of w u"
    "\<And>x. flocked_by w x = Some u \<Longrightarrow> flocked_by w' x = Some u \<and> contents_of w' x = contents_of w x"
    "\<And>i. owns (place_of w u) = Some i \<Longrightarrow> at_path w' INSTANCE_LOCK = at_path w INSTANCE_LOCK"
  shows "thread_ok E w' u"
proof -
  have "contents_of w' i = contents_of w i" if "recorded (place_of w u) = Some (i, r)" for i r
    using recorded_holding [OF that] assms(1,3) by (simp add: thread_ok_def)
  then show ?thesis using assms unfolding thread_ok_def by auto
qed

lemma step_inv:
  assumes "lock_inv E w"
    and "\<And>u. u \<noteq> t \<Longrightarrow> place_of w' u = place_of w u"
    and "\<And>x u. u \<noteq> t \<Longrightarrow> flocked_by w x = Some u \<Longrightarrow> flocked_by w' x = Some u \<and> contents_of w' x = contents_of w x"
    and "\<And>u i. u \<noteq> t \<Longrightarrow> owns (place_of w u) = Some i \<Longrightarrow> at_path w' INSTANCE_LOCK = at_path w INSTANCE_LOCK"
    and "thread_ok E w' t" and "\<not> instance_there w' \<Longrightarrow> at_path w' INSTANCE_LOCK = None"
  shows "lock_inv E w'"
  unfolding lock_inv_def
proof (intro conjI allI impI)
  fix u
  show "thread_ok E w' u"
  proof (cases "u = t")
    case False
    show ?thesis
      by (rule thread_frame [OF lock_invD(1) [OF assms(1), of u]]) (use assms(2-4) False in blast)+
  qed (simp add: assms(5))
qed (use assms(6) in blast)

subsection \<open>Every step keeps it\<close>

lemma world_of_go [simp]:
  "place_of (go t p w) = (place_of w)(t := p)" "instance_there (go t p w) = instance_there w"
  "at_path (go t p w) = at_path w" "flocked_by (go t p w) = flocked_by w"
  "contents_of (go t p w) = contents_of w" "shared_by (go t p w) = shared_by w"
  by (simp_all add: go_def)

lemma world_of_drop_held [simp]:
  "place_of (drop_held b i w) = place_of w" "instance_there (drop_held b i w) = instance_there w"
  "at_path (drop_held b i w) = at_path w" "flocked_by (drop_held b i w) = (flocked_by w)(i := None)"
  "contents_of (drop_held b i w) = (if b then (contents_of w)(i := []) else contents_of w)"
  by (simp_all add: drop_held_def close_file_def put_contents_def)

lemma world_of_drop_caller [simp]:
  "place_of (drop_caller c w) = place_of w" "instance_there (drop_caller c w) = instance_there w"
  "at_path (drop_caller c w) = at_path w"
  "flocked_by (drop_caller c w) x = (if x \<in> set (caller_holds c) then None else flocked_by w x)"
  "contents_of (drop_caller c w) x = (if x \<in> set (caller_holds c) then [] else contents_of w x)"
  by (cases c; simp)+

lemma places_after_acquiring [simp]:
  "set (holding (granted i c)) = insert i (set (caller_holds c))"
  "distinct (holding (granted i c)) \<longleftrightarrow> distinct (i # caller_holds c)"
  "owns (granted i c) = (if lock_path c = INSTANCE_LOCK then Some i else None)"
  "recorded (granted i c) = None" "moved_from (granted i c) = None"
  "holding (not_granted c) = caller_holds c" "owns (not_granted c) = None"
  "recorded (not_granted c) = None" "moved_from (not_granted c) = None"
  by (cases "(i, c)" rule: granted.cases; auto)+

lemmas lock_ops = put_contents_def close_file_def open_lock_file_def flock_free_def is_file_at_def

lemma held_lock_inv:
  assumes "lock_inv E w" "held_lock_try_acquire t (place_of w t) w = Some w'"
  shows "lock_inv E w'"
  using lock_invD(1) [OF assms(1), of t] assms(2)
  by (intro step_inv [OF assms(1), of t]; cases "place_of w t")
    (auto simp: lock_ops thread_ok_def lock_invD(2) [OF assms(1)] Let_def
      dest!: lock_inv_owns(1) [OF assms(1)] split: if_splits option.splits prod.splits)

lemma instance_lock_inv:
  assumes "lock_inv E w" "instance_lock_try_acquire E t (place_of w t) w = Some w'"
  shows "lock_inv E w'"
  using lock_invD(1) [OF assms(1), of t] assms(2)
  by (intro step_inv [OF assms(1), of t]; cases "place_of w t")
    (auto simp: lock_ops thread_ok_def lock_invD(2) [OF assms(1)] split: if_splits)

lemma owner_start_inv:
  assumes "lock_inv E w" "owner_start_try_acquire E t (place_of w t) w = Some w'"
  shows "lock_inv E w'"
  using lock_invD(1) [OF assms(1), of t] assms(2)
  by (intro step_inv [OF assms(1), of t]; cases "place_of w t")
    (auto simp: lock_ops thread_ok_def lock_invD(2) [OF assms(1)])

lemma probe_inv:
  assumes "lock_inv E w" "probe_instance_lock E t (place_of w t) w = Some w'"
  shows "lock_inv E w'"
  using lock_invD(1) [OF assms(1), of t] lock_invD(2) [OF assms(1)] assms(2)
  by (intro step_inv [OF assms(1), of t]; cases "place_of w t")
    (auto simp: thread_ok_def Let_def split: if_splits option.splits)

lemma release_lock_inv:
  assumes "lock_inv E w" "release_lock t (place_of w t) w = Some w'"
  shows "lock_inv E w'"
  using lock_invD(1) [OF assms(1), of t] assms(2)
  by (intro step_inv [OF assms(1), of t]; cases "(t, place_of w t, w)" rule: release_lock.cases)
    (auto simp: thread_ok_def lock_invD(2) [OF assms(1)])

lemma call_fails_inv:
  assumes "lock_inv E w" "call_fails t (place_of w t) w = Some w'"
  shows "lock_inv E w'"
  using lock_invD(1) [OF assms(1), of t] assms(2)
  by (intro step_inv [OF assms(1), of t]; cases "place_of w t")
    (auto simp: lock_ops thread_ok_def lock_invD(2) [OF assms(1)] split: if_splits)

lemma deadline_inv:
  assumes "lock_inv E w" "deadline_passes E t (place_of w t) w = Some w'"
  shows "lock_inv E w'"
  using lock_invD(1) [OF assms(1), of t] assms(2)
  by (intro step_inv [OF assms(1), of t]; cases "place_of w t")
    (auto simp: thread_ok_def lock_invD(2) [OF assms(1)] split: if_splits)

lemma refuse_inv:
  assumes "lock_inv E w" "refuse t (place_of w t) w = Some w'"
  shows "lock_inv E w'"
  using lock_invD(1) [OF assms(1), of t] assms(2)
  by (intro step_inv [OF assms(1), of t]; cases "place_of w t")
    (auto simp: thread_ok_def lock_invD(2) [OF assms(1)])

lemma tear_inv:
  assumes "lock_inv E w" "tear E n t (place_of w t) w = Some w'"
  shows "lock_inv E w'"
  using lock_invD(1) [OF assms(1), of t] assms(2)
  by (intro step_inv [OF assms(1), of t]; cases "place_of w t")
    (auto simp: lock_ops thread_ok_def lock_invD(2) [OF assms(1)])

text \<open>Only the owner moves the instance away, so nobody else loses its lock file.\<close>

lemma move_away_inv:
  assumes "lock_inv E w" "move_away t (place_of w t) w = Some w'"
  shows "lock_inv E w'"
proof -
  from assms(2) obtain i r where p: "place_of w t = Owned i r"
    and w': "w' = go t (Moved i r (at_path w)) (w\<lparr>instance_there := False, at_path := \<lambda>_. None\<rparr>)"
    by (cases "place_of w t") (auto split: if_splits)
  have "False" if "u \<noteq> t" "owns (place_of w u) = Some j" for u j
    using that lock_inv_owns [OF assms(1), of u j] lock_inv_owns [OF assms(1), of t i] p by simp
  then show ?thesis
    using lock_invD(1) [OF assms(1), of t] p unfolding w'
    by (intro step_inv [OF assms(1), of t]) (auto simp: thread_ok_def)
qed

lemma put_back_inv:
  assumes "lock_inv E w" "put_back t (place_of w t) w = Some w'"
  shows "lock_inv E w'"
  using lock_invD(1) [OF assms(1), of t] assms(2) lock_invD(2) [OF assms(1)]
  by (intro step_inv [OF assms(1), of t]; cases "place_of w t")
    (auto simp: thread_ok_def dest!: lock_inv_owns(1) [OF assms(1)] split: if_splits)

lemma process_dies_inv:
  assumes "lock_inv E w"
  shows "lock_inv E (process_dies E p w)"
  unfolding lock_inv_def
proof (intro conjI allI impI)
  fix t
  show "thread_ok E (process_dies E p w) t"
  proof (cases "identity E t = p")
    case True
    then show ?thesis by (simp add: thread_ok_def process_dies_def)
  next
    case False
    then show ?thesis
      by (intro thread_frame [OF lock_invD(1) [OF assms, of t]]) (simp_all add: process_dies_def)
  qed
qed (simp add: process_dies_def lock_invD(2) [OF assms])

lemma proceed_inv:
  assumes "lock_inv E w" "proceed E t w = Some w'"
  shows "lock_inv E w'"
proof -
  let ?p = "place_of w t"
  from assms(2) consider "held_lock_try_acquire t ?p w = Some w'" | "instance_lock_try_acquire E t ?p w = Some w'"
    | "owner_start_try_acquire E t ?p w = Some w'" | "probe_instance_lock E t ?p w = Some w'"
    | "release_lock t ?p w = Some w'"
    by (auto simp: proceed_def Let_def first_some_def split: option.splits)
  then show ?thesis
    by cases (rule held_lock_inv instance_lock_inv owner_start_inv probe_inv release_lock_inv, rule assms, assumption)+
qed

lemma begin_inv:
  assumes "lock_inv E w" "place_of w t = Idle" "holding p = []" "owns p = None" "recorded p = None"
    "moved_from p = None"
  shows "lock_inv E (go t p w)"
  using assms(2-) lock_invD(2) [OF assms(1)]
  by (intro step_inv [OF assms(1), of t]) (auto simp: thread_ok_def)

lemma inherited_inv: "lock_inv E (w\<lparr>inherited := x\<rparr>) = lock_inv E w"
  by (simp add: lock_inv_def thread_ok_def)

lemma install_inv:
  assumes "lock_inv E w"
  shows "lock_inv E (w\<lparr>instance_there := True\<rparr>)"
  using assms by (simp add: lock_inv_def thread_ok_def)

lemma happens_inv:
  assumes inv: "lock_inv E w" and a: "happens E a w = Some w'"
  shows "lock_inv E w'"
proof (cases a)
  case (Begin t r)
  with a inv show ?thesis by (auto intro!: begin_inv split: if_splits)
next
  case (BeginLook t)
  with a inv show ?thesis by (auto simp: with_instance_guard_def intro!: begin_inv split: if_splits)
next
  case (BeginStart t)
  with a inv show ?thesis by (auto intro!: begin_inv split: if_splits)
next
  case (Proceed t)
  with a show ?thesis by (simp add: proceed_inv [OF inv])
next
  case (CallFails t)
  with a show ?thesis by (simp add: call_fails_inv [OF inv])
next
  case (DeadlinePasses t)
  with a show ?thesis by (simp add: deadline_inv [OF inv])
next
  case (Refuse t)
  with a show ?thesis by (simp add: refuse_inv [OF inv])
next
  case (Tear t n)
  with a show ?thesis by (simp add: tear_inv [OF inv])
next
  case (MoveAway t)
  with a show ?thesis by (simp add: move_away_inv [OF inv])
next
  case (PutBack t)
  with a show ?thesis by (simp add: put_back_inv [OF inv])
next
  case (ProcessDies p)
  with a process_dies_inv [OF inv, of p] show ?thesis by simp
qed (use a inv in \<open>auto simp: inherited_inv install_inv split: if_splits\<close>)

interpretation lock_machine: machine "lock_step E" "lock_inv E" for E
  by unfold_locales (auto simp: lock_step_def intro: happens_inv)

lemma no_locks_inv: "lock_inv E no_locks"
  by (simp add: lock_inv_def thread_ok_def no_locks_def)

lemma lock_run_reaches: "lock_run E as w = Some w' \<Longrightarrow> (lock_step E)\<^sup>*\<^sup>* w w'"
proof (induction as arbitrary: w)
  case (Cons a as)
  then obtain w1 where "happens E a w = Some w1" "lock_run E as w1 = Some w'"
    by (auto split: bind_splits)
  with Cons.IH show ?case
    by (meson converse_rtranclp_into_rtranclp lock_step_def)
qed simp

subsection \<open>At most one owner\<close>

text \<open>C8: at most one thread of all processes owns an instance, whatever they do and however they are
  interleaved: threads that wait, time out, fail, are killed or fork, instances that are moved away,
  replaced or put back while others wait for their locks. The owner holds the kernel's lock on the
  very file that is at the path of the instance lock, and once it is past taking it, the lease in that
  file is its own.\<close>

theorem one_owner:
  assumes "(lock_step E)\<^sup>*\<^sup>* no_locks w"
    and "owns (place_of w t) = Some i" and "owns (place_of w u) = Some j"
  shows "t = u \<and> i = j \<and> at_path w INSTANCE_LOCK = Some i \<and> flocked_by w i = Some t \<and>
    (\<forall>r. recorded (place_of w t) = Some (i, r) \<longrightarrow> contents_of w i = lease_text E t r)"
proof -
  have inv: "lock_inv E w" using assms(1) no_locks_inv by (rule lock_machine.reach_good)
  note t = lock_inv_owns [OF inv assms(2)] and u = lock_inv_owns [OF inv assms(3)]
  from t u have "t = u" "i = j" by auto
  moreover have "contents_of w i = lease_text E t r" if "recorded (place_of w t) = Some (i, r)" for r
    using lock_invD(1) [OF inv, of t] that by (simp add: thread_ok_def)
  ultimately show ?thesis using t by blast
qed

text \<open>Three processes. The first owns the instance and moves it away while the second waits with the
  old lock file open; a new instance is installed, and the second gets the lock of the new one.\<close>

definition sample_locks :: lock_env where
  "sample_locks =
     \<lparr>identity = (\<lambda>t. \<lparr>pid = int t + 100, started = 7\<rparr>), source_stamp = ''s'', current_exe = ''lnx'',
      enc_lease = (\<lambda>l. case role l of Owner \<Rightarrow> ''o'' | Maintenance \<Rightarrow> ''m'' | Starter \<Rightarrow> ''s''),
      dec_lease = (\<lambda>_. None)\<rparr>"

abbreviation owner_takes :: "lock_event list" where
  "owner_takes \<equiv> Begin 0 Owner # replicate 12 (Proceed 0)"

definition replaced_under_waiter :: "lock_event list" where
  "replaced_under_waiter =
     owner_takes @ Begin 1 Maintenance # replicate 6 (Proceed 1) @
     [MoveAway 0, Install, Proceed 0] @ replicate 10 (Proceed 1)"

theorem one_owner_witness:
  "\<exists>w. lock_run sample_locks replaced_under_waiter no_locks = Some w \<and> owns (place_of w 1) = Some 2 \<and>
     at_path w INSTANCE_LOCK = Some 2 \<and> flocked_by w 2 = Some 1 \<and>
     contents_of w 2 = lease_text sample_locks 1 Maintenance"
proof -
  let ?r = "lock_run sample_locks replaced_under_waiter no_locks"
  have "?r \<noteq> None" by code_simp
  then obtain w where w: "?r = Some w" by auto
  have "map_option (\<lambda>w. place_of w 1) ?r = Some (Owned 2 Maintenance)" by code_simp
  with w have p: "place_of w 1 = Owned 2 Maintenance" by simp
  from one_owner [OF lock_run_reaches [OF w], of 1 2 1 2] p w show ?thesis by auto
qed

subsection \<open>What the guard does not do\<close>

text \<open>A thread that holds the guard of an instance that is then moved away goes on to take the instance
  lock of whatever is at the path, while another thread runs its action under the new guard, believing
  the lock to be free.\<close>

definition guard_passed_by :: "lock_event list" where
  "guard_passed_by =
     owner_takes @ Begin 1 Maintenance # replicate 4 (Proceed 1) @ [MoveAway 0, Install, Proceed 0] @
     BeginLook 2 # replicate 5 (Proceed 2) @ replicate 8 (Proceed 1)"

lemma guard_does_not_exclude:
  "\<exists>w. (lock_step sample_locks)\<^sup>*\<^sup>* no_locks w \<and> place_of w 1 = Owned 3 Maintenance \<and>
     at_path w INSTANCE_LOCK_GUARD = Some 2 \<and> place_of w 2 = Acting (Some 2) (Free None)"
proof -
  let ?r = "lock_run sample_locks guard_passed_by no_locks"
  have "map_option (\<lambda>w. (place_of w 1, place_of w 2, at_path w INSTANCE_LOCK_GUARD)) ?r =
      Some (Owned 3 Maintenance, Acting (Some 2) (Free None), Some 2)" by code_simp
  then show ?thesis by (auto intro: lock_run_reaches)
qed

text \<open>A thread that waits for an instance while it is deleted brings the empty directory back.\<close>

definition deleted_under_waiter :: "lock_event list" where
  "deleted_under_waiter =
     owner_takes @ Begin 1 Owner # replicate 4 (Proceed 1) @ [MoveAway 0, Proceed 0] @ replicate 8 (Proceed 1)"

lemma waiter_revives_instance:
  "\<exists>w. (lock_step sample_locks)\<^sup>*\<^sup>* no_locks w \<and> instance_there w \<and> place_of w 1 = Owned 2 Owner \<and>
     at_path w INSTANCE_LOCK_GUARD = None"
proof -
  let ?r = "lock_run sample_locks deleted_under_waiter no_locks"
  have "map_option (\<lambda>w. (instance_there w, place_of w 1, at_path w INSTANCE_LOCK_GUARD)) ?r =
      Some (True, Owned 2 Owner, None)" by code_simp
  then show ?thesis by (auto intro: lock_run_reaches)
qed

subsection \<open>Who a process is\<close>

text \<open>A recycled pid is not the process that had it.\<close>

lemma recycled_pid_not_running:
  "start (pid p) = Some s \<Longrightarrow> s \<noteq> started p \<Longrightarrow> \<not> is_running start p"
  by (cases p) (auto simp: is_running_def identity_of_def)

lemma running_is_current: "is_running start p \<Longrightarrow> current_identity start (pid p) = p"
  by (simp add: is_running_def current_identity_def)

text \<open>The name of a process may hold spaces and parentheses; the start time is still field 22.\<close>

lemma words_of_fields:
  assumes "\<forall>f \<in> set xs. f \<noteq> [] \<and> list_all ascii_graphic f"
  shows "words_from w (concat (map (\<lambda>f. CHR '' '' # f) xs) @ [CHR 0x0A]) = (if w = [] then [] else [w]) @ xs"
  using assms
proof (induction xs arbitrary: w)
  case Nil
  have "space_len [CHR 0x0A] = 1" by (simp add: space1_def byte_def)
  then show ?case by (simp del: space_len.simps)
next
  case (Cons f xs)
  then show ?case by (simp add: words_from_space words_from_graphic del: words_from.simps)
qed

lemma start_time_is_field_22:
  assumes "\<forall>f \<in> set xs. f \<noteq> [] \<and> list_all ascii_graphic f \<and> CHR '')'' \<notin> set f" "19 < length xs"
  shows "process_start_time (p @ ''('' @ comm @ CHR '')'' # concat (map (\<lambda>f. CHR '' '' # f) xs) @ [CHR 0x0A]) =
    parse_uint U64_MAX (xs ! 19)"
proof -
  let ?rest = "concat (map (\<lambda>f. CHR '' '' # f) xs) @ [CHR 0x0A]"
  have "CHR '')'' \<notin> set ?rest" using assms(1) by auto
  from rsplit_once_append [OF this, of "p @ ''('' @ comm"]
  have "rsplit_once (CHR '')'') (p @ ''('' @ comm @ CHR '')'' # ?rest) = Some (p @ ''('' @ comm, ?rest)" by simp
  moreover have "split_whitespace ?rest = xs"
    unfolding split_whitespace_def using words_of_fields [of xs "[]"] assms(1) by simp
  ultimately show ?thesis using assms(2) by (simp add: process_start_time_def)
qed


end
