(* ===== verification/Session.thy ===== *)
theory Session
  imports Legacy Rootfs Broker StoreRefine Launch Deterministic
begin

text \<open>
  One run of an instance by its owner: \<open>src/src/runner/session.rs\<close> (the store side, from taking the
  instance over to committing or abandoning the run), \<open>src/src/runner/capture.rs\<close> and the parts of
  \<open>src/src/runner.rs\<close> that fill and take the snapshots. The VM itself is a parameter. Writing the log
  is left out.
\<close>

subsection \<open>The session\<close>

record RunSession =
  se_run :: Run
  se_instance :: string
  se_dirty :: bool
  se_last_capture :: "gen_id option"
  se_quiesced :: bool

definition LAST_RUN_NOTICE :: string where
  "LAST_RUN_NOTICE = ''last-run.notice''"

abbreviation base_id :: "Run \<Rightarrow> gen_id option" where
  "base_id r \<equiv> map_option (\<lambda>g. m_id (g_manifest g)) (r_base r)"

definition session_begin :: "Layout \<Rightarrow> path option \<Rightarrow> RunSession M" where
  "session_begin L explicit_snapshot =
     (let d = instance_dir L in
      bind (migrate_legacy_layout L) (\<lambda>_.
      bind (store_exists d) (\<lambda>there.
      if \<not> there then raise (Bail (''instance '' @ l_instance L @ '' has no saved state''))
      else
        bind (recover d) (\<lambda>_.
        bind (case explicit_snapshot of
                None \<Rightarrow> ret None
              | Some dir \<Rightarrow>
                  bind (store_record d) (\<lambda>r.
                  bind (import_dir d dir (Option.bind r latest) Import) (\<lambda>g.
                  ret (Some g)))) (\<lambda>from_gen.
        bind (begin_run d from_gen) (\<lambda>rn.
        ret \<lparr>se_run = rn, se_instance = l_instance L, se_dirty = False, se_last_capture = base_id rn,
             se_quiesced = False\<rparr>))))))"

text \<open>The flag is set only once the record says so.\<close>

definition session_mark_dirty :: "path \<Rightarrow> RunSession \<Rightarrow> RunSession M" where
  "session_mark_dirty d se =
     (if se_dirty se then ret se
      else
        bind (mark_dirty d (r_id (se_run se))) (\<lambda>_.
        ret (se\<lparr>se_dirty := True\<rparr>)))"

definition session_stage :: "path \<Rightarrow> RunSession \<Rightarrow> Staging M" where
  "session_stage d se =
     bind (stage d) (\<lambda>st.
     bind (case se_last_capture se of
             None \<Rightarrow> ret ()
           | Some b \<Rightarrow>
               bind (generation d b) (\<lambda>g.
               when_ok (has_memory (g_manifest g))
                 (each (\<lambda>k. clone_or_copy_file (g_dir g @ [k]) (st_dir st @ [k])) [VMSTATE, PAGES]))) (\<lambda>_.
     ret st))"

definition session_publish :: "path \<Rightarrow> RunSession \<Rightarrow> Staging \<Rightarrow> Origin \<Rightarrow> (gen_id \<times> RunSession) M" where
  "session_publish d se st orig =
     bind (publish d st (base_id (se_run se)) orig) (\<lambda>g.
     ret (g, se\<lparr>se_last_capture := Some g\<rparr>))"

definition commit_final :: "path \<Rightarrow> gen_id \<Rightarrow> unit M" where
  "commit_final d g = commit_latest d g"

definition session_advance :: "path \<Rightarrow> RunSession \<Rightarrow> gen_id \<Rightarrow> unit M" where
  "session_advance d se g = advance_latest d (r_id (se_run se)) g"

definition session_export :: "path \<Rightarrow> gen_id \<Rightarrow> path \<Rightarrow> unit M" where
  "session_export d g dest = bind (pin d g) (\<lambda>x. export_store x dest)"

definition guest_quiesced :: "RunSession \<Rightarrow> RunSession" where
  "guest_quiesced se = se\<lparr>se_quiesced := True\<rparr>"

definition session_abandon :: "path \<Rightarrow> string \<Rightarrow> RunSession \<Rightarrow> unit M" where
  "session_abandon d reason se =
     (if se_dirty se \<and> se_quiesced se then
        bind (salvage d) (\<lambda>_.
        write_file (d @ [LAST_RUN_NOTICE])
          (''lnx: the memory of '' @ se_instance se @ [CHR 0x27] @ ''s last run could not be saved ('' @ reason @
           ''); its disk was kept, so this run boots from it'' @ [CHR 0x0A]))
      else if se_dirty se then ret ()
      else abandon_run d (r_id (se_run se)))"

subsection \<open>Stamps that travel with a snapshot\<close>

definition RUNNING_AGENT_STAMP :: string where
  "RUNNING_AGENT_STAMP = ''running-agent.stamp''"

definition write_snapshot_metadata_file :: "path \<Rightarrow> string \<Rightarrow> unit M" where
  "write_snapshot_metadata_file dst bytes =
     bind (create_dir_all (parent_of dst)) (\<lambda>_.
     bind (write_file dst bytes) (\<lambda>_.
     sync_file dst))"

definition copy_snapshot_metadata_file :: "path \<Rightarrow> path \<Rightarrow> unit M" where
  "copy_snapshot_metadata_file src dst =
     bind (create_dir_all (parent_of dst)) (\<lambda>_.
     bind (read_file src) (\<lambda>bytes.
     bind (write_file dst bytes) (\<lambda>_.
     sync_file dst)))"

definition copy_clock_stamp :: "path \<Rightarrow> path \<Rightarrow> DeterministicClockState option \<Rightarrow> unit M" where
  "copy_clock_stamp stamp target dclock =
     (case dclock of
        Some st \<Rightarrow>
          bind (recover_with (bind (read_file stamp) (\<lambda>bytes. ret (Some bytes)))
                  (\<lambda>e. if e = Io NotFound then ret None else raise e)) (\<lambda>found.
          case found of
            Some bytes \<Rightarrow> write_snapshot_metadata_file target bytes
          | None \<Rightarrow> write_deterministic_clock_state target st)
      | None \<Rightarrow>
          bind (test_path exists_at stamp) (\<lambda>there.
          when_ok there (copy_snapshot_metadata_file stamp target)))"

text \<open>The trace log the timer jumps were imported into is the result.\<close>

definition copy_snapshot_stamp ::
  "(TraceLog \<Rightarrow> bool) \<Rightarrow> path \<Rightarrow> path \<Rightarrow> TraceLog option \<Rightarrow> DeterministicClockState option \<Rightarrow> TraceLog option M" where
  "copy_snapshot_stamp accepts snap stamp trace dclock =
     bind (import_deterministic_timer_jumps accepts stamp trace) (\<lambda>(trace', failed).
     case failed of
       Some e \<Rightarrow> raise e
     | None \<Rightarrow>
         bind (sync_deterministic_clock_event_sequence stamp trace') (\<lambda>_.
         bind (ensure_deterministic_clock_state_file stamp dclock) (\<lambda>_.
         bind (copy_snapshot_metadata_file (with_file_name stamp RUNNING_AGENT_STAMP) (snap @ [''initramfs.stamp''])) (\<lambda>_.
         bind (copy_snapshot_metadata_file (with_file_name stamp LAUNCH_METADATA) (snap @ [LAUNCH_METADATA])) (\<lambda>_.
         bind (copy_snapshot_metadata_file (with_file_name stamp ''deterministic.stamp'') (snap @ [''deterministic.stamp''])) (\<lambda>_.
         bind (copy_clock_stamp (with_file_name stamp DETERMINISTIC_CLOCK_STATE) (snap @ [DETERMINISTIC_CLOCK_STATE]) dclock) (\<lambda>_.
         ret trace')))))))"

subsection \<open>Captures\<close>

text \<open>\<open>snapshot_while_paused\<close> of the VM pauses it, writes its memory into a directory, runs the given
  action and lets it go on; it is a parameter.\<close>

type_synonym vm = "path \<Rightarrow> unit M \<Rightarrow> unit M"

definition capture_vm_state :: "vm \<Rightarrow> path \<Rightarrow> Run \<Rightarrow> unit M" where
  "capture_vm_state snapshot_while_paused dir rn =
     snapshot_while_paused dir
       (bind (clone_or_copy_file (r_dir rn @ [ROOTFS]) (dir @ [ROOTFS])) (\<lambda>_.
        clone_shares (r_dir rn) dir))"

record capture_context =
  cc_vm :: vm
  cc_accepts :: "TraceLog \<Rightarrow> bool"
  initramfs_stamp :: path
  cc_trace_log :: "TraceLog option"
  cc_clock :: "DeterministicClockState option"

text \<open>What a capture writes between staging and publishing.\<close>

definition capture_fill :: "capture_context \<Rightarrow> Run \<Rightarrow> path \<Rightarrow> unit M" where
  "capture_fill cx rn dir =
     bind (ensure_deterministic_clock_state_file (initramfs_stamp cx) (cc_clock cx)) (\<lambda>_.
     bind (capture_vm_state (cc_vm cx) dir rn) (\<lambda>_.
     bind (validate_snapshot_rootfs dir) (\<lambda>_.
     bind (copy_snapshot_stamp (cc_accepts cx) dir (initramfs_stamp cx) (cc_trace_log cx) (cc_clock cx)) (\<lambda>_.
     ret ()))))"

definition capture :: "capture_context \<Rightarrow> path \<Rightarrow> RunSession \<Rightarrow> Origin \<Rightarrow> (gen_id \<times> RunSession) M" where
  "capture cx d se orig =
     bind (session_stage d se) (\<lambda>st.
     bind (capture_fill cx (se_run se) (st_dir st)) (\<lambda>_.
     session_publish d se st orig))"

record CheckpointSpec =
  cs_id :: "string option"
  cs_name :: "string option"
  export_to :: "path option"

definition checkpoint_running :: "capture_context \<Rightarrow> path \<Rightarrow> RunSession \<Rightarrow> CheckpointSpec \<Rightarrow> RunSession M" where
  "checkpoint_running cx d se spec =
     bind (capture cx d se (Checkpoint (r_id (se_run se)))) (\<lambda>(g, se').
     bind (case cs_id spec of
             None \<Rightarrow> ret ()
           | Some i \<Rightarrow>
               bind read_clock (\<lambda>now.
               add_checkpoint d
                 \<lparr>ref_id = i, ref_name = cs_name spec, ref_generation = g,
                  ref_created_unix = now div 1000000000\<rparr>)) (\<lambda>_.
     bind (case export_to spec of
             None \<Rightarrow> ret ()
           | Some dest \<Rightarrow> session_export d g dest) (\<lambda>_.
     ret se')))"

definition snapshot_exit :: "capture_context \<Rightarrow> path \<Rightarrow> RunSession \<Rightarrow> nat \<Rightarrow> (Message \<times> RunSession) M" where
  "snapshot_exit cx d se channel_id =
     recover_with
       (bind (capture cx d se (SnapshotExit (r_id (se_run se)))) (\<lambda>(g, se').
        bind (session_advance d se' g) (\<lambda>_.
        ret (CheckpointCreated channel_id, se'))))
       (\<lambda>x. ret (Error channel_id ''snapshot-exit failed'', se))"

text \<open>The guest asks for the final snapshot on one connection and says it is ready on it or, after a
  reconnect, on another. The bytes each connection delivers are given.\<close>

definition FRAME_SNAPSHOT :: char where
  "FRAME_SNAPSHOT = CHR ''K''"

definition snapshot_ready :: "string \<Rightarrow> string option \<Rightarrow> err + unit" where
  "snapshot_ready stream reconnect =
     (if length stream < 5 then Inl (Io OtherIo)
      else if stream ! 0 \<noteq> FRAME_SNAPSHOT \<or> from_be (take 4 (drop 1 stream)) \<noteq> 0
      then Inl (Bail ''bad snapshot request'')
      else
        (case (drop 5 stream, reconnect) of
           (c # _, _) \<Rightarrow> if c = CHR ''R'' then Inr () else Inl (Bail ''bad snapshot ready'')
         | ([], Some (c # _)) \<Rightarrow> if c = CHR ''R'' then Inr () else Inl (Bail ''bad snapshot ready'')
         | ([], _) \<Rightarrow> Inl (Bail ''accept snapshot ready reconnect'')))"

text \<open>The final snapshot, and what \<open>run_owner\<close> does with its result: the session as the guest left it,
  and the result.\<close>

definition serve_snapshot ::
  "capture_context \<Rightarrow> path \<Rightarrow> string \<Rightarrow> string option \<Rightarrow> RunSession \<Rightarrow> gen_id M" where
  "serve_snapshot cx d stream reconnect se =
     bind (lift_res (snapshot_ready stream reconnect)) (\<lambda>_.
     bind (capture cx d (guest_quiesced se) (Snapshot (r_id (se_run se)))) (\<lambda>(g, _).
     ret g))"

definition final_snapshot ::
  "capture_context \<Rightarrow> path \<Rightarrow> string \<Rightarrow> string option \<Rightarrow> RunSession \<Rightarrow> unit M" where
  "final_snapshot cx d stream reconnect se =
     bind (serve_snapshot cx d stream reconnect se) (\<lambda>g. commit_final d g)"

text \<open>The owner's last acts: the final snapshot, or abandoning the run.\<close>

definition end_run :: "capture_context \<Rightarrow> path \<Rightarrow> string \<Rightarrow> string option \<Rightarrow> RunSession \<Rightarrow> unit M" where
  "end_run cx d stream reconnect se =
     recover_with (final_snapshot cx d stream reconnect se)
       (\<lambda>x. bind (ignore (session_abandon d ''error''
              (if snapshot_ready stream reconnect = Inr () then guest_quiesced se else se))) (\<lambda>_.
            raise x))"

end
