(* ===== verification/SessionProps.thy ===== *)
theory SessionProps
  imports Session StoreProps
begin

text \<open>
  The owner's run seen with the store under it and the broker above it: no command reaches the guest
  before the disk says that the run holds work, and no way of ending the run drops that work.
\<close>

subsection \<open>The record says dirty\<close>

definition recorded_dirty :: "path \<Rightarrow> run_id \<Rightarrow> env \<Rightarrow> node \<Rightarrow> bool" where
  "recorded_dirty d rn e t \<longleftrightarrow> codec_ok (codec e) \<and>
     (\<exists>l own. disk_record (codec e) d t = Some (new_record l (Dirty rn own)))"

lemma disk_record_new:
  assumes "disk_record C d t = Some r"
  shows "r = new_record (latest r) (phase r)"
  using disk_record_version [OF assms] by (cases r) (simp add: new_record_def)

lemma mark_dirty_Ok:
  assumes "mark_dirty d rn e s = (Ok u, s')" "codec_ok (codec e)"
  shows "recorded_dirty d rn e (fs s')"
proof -
  from assms(1) obtain r s1 where r: "require_record d e s = (Ok r, s1)"
    and b: "(case phase r of
       Running current owner \<Rightarrow>
         if current = rn then commit_record d (latest r) (Dirty rn owner)
         else raise (Bail ''cannot mark run dirty'')
     | Dirty current _ \<Rightarrow> if current = rn then ret () else raise (Bail ''cannot mark run dirty'')
     | Stopped \<Rightarrow> raise (Bail ''cannot mark run dirty'')) e s1 = (Ok u, s')"
    unfolding mark_dirty_def by (rule bind_OkE)
  note rec = require_record_Ok [OF r]
  show ?thesis
  proof (cases "phase r")
    case (Running x own)
    with b have c: "commit_record d (latest r) (Dirty rn own) e s1 = (Ok u, s')" and x: "x = rn"
      by (auto split: if_splits)
    have "record_ids_ok (new_record (latest r) (Dirty rn own))"
      using disk_record_ids [OF rec(1)] Running x by (simp add: record_ids_ok_def phase_ids_ok_def)
    from commit_record_disk(2) [OF c assms(2) this] assms(2) show ?thesis
      by (auto simp: recorded_dirty_def)
  next
    case (Dirty x own)
    with b rec disk_record_new [OF rec(1)] assms(2) show ?thesis
      by (auto simp: recorded_dirty_def split: if_splits)
  qed (use b in auto)
qed

lemma recorded_triple:
  assumes "\<And>own v. triple (dirty_at d rn own v) m (\<lambda>_. dirty_at d rn own v) (dirty_at d rn own v)"
  shows "triple (recorded_dirty d rn) m (\<lambda>_. recorded_dirty d rn) (recorded_dirty d rn)"
proof -
  have "recorded_dirty d rn e (fs s')" if m: "m e s = (r, s')" and p: "recorded_dirty d rn e (fs s)" for e s r s'
  proof -
    from p obtain own where "dirty_at d rn own (lookup (fs s) (run_dir d rn)) e (fs s)"
      by (auto simp: recorded_dirty_def dirty_at_def)
    from triple_anyD [OF assms this m] show ?thesis by (auto simp: recorded_dirty_def dirty_at_def)
  qed
  then show ?thesis by (intro tripleI) blast+
qed

lemma recorded_keeps:
  assumes "keeps (state_path d) m"
  shows "triple (recorded_dirty d rn) m (\<lambda>_. recorded_dirty d rn) (recorded_dirty d rn)"
proof -
  have "recorded_dirty d rn e (fs s')" if m: "m e s = (r, s')" and p: "recorded_dirty d rn e (fs s)" for e s r s'
    using p disk_record_cong [OF keepsD [OF assms m], of "codec e"] by (simp add: recorded_dirty_def)
  then show ?thesis by (intro tripleI) blast+
qed

lemma recorded_same: "same_store d t t' \<Longrightarrow> recorded_dirty d rn e t \<Longrightarrow> recorded_dirty d rn e t'"
  by (simp add: recorded_dirty_def same_store_record)

subsection \<open>Everything a session does\<close>

lemma triple_session_stage:
  assumes P: "\<And>e t t'. same_store d t t' \<Longrightarrow> P e t \<Longrightarrow> P e t'" "\<And>e t. P e t \<Longrightarrow> E e t"
  shows "triple P (session_stage d se) (\<lambda>st e t. P e t \<and> staging_ok d st) E"
  unfolding session_stage_def
proof (rule triple_bind [OF triple_stage [of d P]])
  fix st :: Staging
  let ?fill = "case se_last_capture se of
       None \<Rightarrow> ret ()
     | Some b \<Rightarrow>
         bind (generation d b) (\<lambda>g.
         when_ok (has_memory (g_manifest g))
           (each (\<lambda>k. clone_or_copy_file (g_dir g @ [k]) (st_dir st @ [k])) [VMSTATE, PAGES]))"
  have fill: "quiet d ?fill" if "staging_ok d st"
    by (rule quiet_at_staging [OF that])
      (auto intro!: keep_rules intro: apart_append1 simp del: each.simps split: option.splits)
  show "triple (\<lambda>e t. P e t \<and> staging_ok d st) (bind ?fill (\<lambda>_. ret st))
      (\<lambda>st e t. P e t \<and> staging_ok d st) E"
    by (rule triple_assuming, rule triple_bind, rule triple_quiet [OF fill, of P E])
      (auto intro: P triple_ret)
qed (auto intro: P)

lemma recorded_session_stage:
  "triple (recorded_dirty d rn) (session_stage d se) (\<lambda>_. recorded_dirty d rn) (recorded_dirty d rn)"
  by (rule triple_weaken [OF triple_session_stage [of d "recorded_dirty d rn" "recorded_dirty d rn"]])
    (auto intro: recorded_same)

lemma recorded_session_publish:
  assumes "staging_ok d st"
  shows "triple (recorded_dirty d rn) (session_publish d se st orig) (\<lambda>_. recorded_dirty d rn) (recorded_dirty d rn)"
  unfolding session_publish_def
  by (rule triple_bind [OF recorded_triple [OF dirty_publish [OF assms]]]) (rule triple_ret)

lemma keeps_export_store:
  assumes "apart dest d"
  shows "keeps (state_path d) (export_store g dest)"
proof -
  have "apart (generation_dir dest i) (state_path d)" "apart (state_path dest) (state_path d)"
    "apart (dest @ [STATE_FILE @ ''.tmp-'' @ i]) (state_path d)" for i
    using assms by (auto intro: apart_append1 apart_append2)
  then show ?thesis
    using assms unfolding export_store_def Let_def
    by (intro keep_rules) (auto intro: apart_append1 apart_append2 simp: apart_def)
qed

text \<open>What happens between taking the instance over and ending the run, in any order and with any
  failures: commands make the run dirty, captures are staged, filled, published, made the latest,
  recorded as checkpoints and exported, the VM and the captures write their files.\<close>

inductive session_step :: "codec \<Rightarrow> path \<Rightarrow> RunSession \<times> sys \<Rightarrow> RunSession \<times> sys \<Rightarrow> bool"
  for C :: codec and d :: path where
  marks:
    "codec e = C \<Longrightarrow> session_mark_dirty d se e s = (r, s') \<Longrightarrow>
     session_step C d (se, s) (case r of Ok se' \<Rightarrow> se' | _ \<Rightarrow> se, s')"
| stages:
    "codec e = C \<Longrightarrow> session_stage d se e s = (r, s') \<Longrightarrow> session_step C d (se, s) (se, s')"
| publishes:
    "codec e = C \<Longrightarrow> staging_ok d st \<Longrightarrow> session_publish d se st orig e s = (r, s') \<Longrightarrow>
     session_step C d (se, s) (case r of Ok (_, se') \<Rightarrow> se' | _ \<Rightarrow> se, s')"
| advances:
    "codec e = C \<Longrightarrow> session_advance d se g e s = (r, s') \<Longrightarrow> session_step C d (se, s) (se, s')"
| checkpoints:
    "codec e = C \<Longrightarrow> add_checkpoint d c e s = (r, s') \<Longrightarrow> session_step C d (se, s) (se, s')"
| exports:
    "codec e = C \<Longrightarrow> apart dest d \<Longrightarrow> session_export d g dest e s = (r, s') \<Longrightarrow>
     session_step C d (se, s) (se, s')"
| quiesces:
    "session_step C d (se, s) (guest_quiesced se, s)"
| writes:
    "lookup t (state_path d) = lookup (fs s) (state_path d) \<Longrightarrow> session_step C d (se, s) (se, s\<lparr>fs := t\<rparr>)"

definition session_good :: "codec \<Rightarrow> path \<Rightarrow> run_id \<Rightarrow> RunSession \<times> sys \<Rightarrow> bool" where
  "session_good C d rn = (\<lambda>(se, s).
     r_id (se_run se) = rn \<and>
     (se_dirty se \<longrightarrow> (\<exists>l own. disk_record C d (fs s) = Some (new_record l (Dirty rn own)))))"

lemma session_good_frame:
  assumes "triple (recorded_dirty d rn) m (\<lambda>_. recorded_dirty d rn) (recorded_dirty d rn)"
    "m e s = (r, s')" "codec e = C" "codec_ok C" "session_good C d rn (se, s)"
    "se_dirty se' = se_dirty se" "se_run se' = se_run se"
  shows "session_good C d rn (se', s')"
proof (cases "se_dirty se")
  case True
  with assms(3-5) have "recorded_dirty d rn e (fs s)" by (auto simp: recorded_dirty_def session_good_def)
  from triple_anyD [OF assms(1) this assms(2)] assms(3,5-7) show ?thesis
    by (auto simp: recorded_dirty_def session_good_def)
qed (use assms in \<open>auto simp: session_good_def\<close>)

lemma session_mark_dirty_Ok:
  assumes "session_mark_dirty d se e s = (Ok se', s')" "codec_ok (codec e)" "session_good (codec e) d rn (se, s)"
  shows "session_good (codec e) d rn (se', s') \<and> se_dirty se'"
proof (cases "se_dirty se")
  case True
  with assms(1,3) show ?thesis by (auto simp: session_mark_dirty_def)
next
  case False
  with assms(1) obtain u where "mark_dirty d (r_id (se_run se)) e s = (Ok u, s')" and "se' = se\<lparr>se_dirty := True\<rparr>"
    by (auto simp: session_mark_dirty_def elim!: bind_OkE)
  with mark_dirty_Ok [OF this(1) assms(2)] assms(3) show ?thesis
    by (auto simp: session_good_def recorded_dirty_def)
qed

lemma session_step_good:
  assumes "session_step C d x x'" "codec_ok C" "session_good C d rn x"
  shows "session_good C d rn x'"
  using assms(1)
proof cases
  case (marks e se s r s')
  note good = assms(3) [unfolded marks(1)]
  show ?thesis
  proof (cases r)
    case (Ok se')
    with session_mark_dirty_Ok [of d se e s se' s' rn] marks assms(2) good show ?thesis by simp
  next
    case (Err y)
    with marks have "\<not> se_dirty se" by (auto simp: session_mark_dirty_def ret_def)
    with Err good marks(2) show ?thesis by (auto simp: session_good_def)
  next
    case Killed
    with marks have "\<not> se_dirty se" by (auto simp: session_mark_dirty_def ret_def)
    with Killed good marks(2) show ?thesis by (auto simp: session_good_def)
  qed
next
  case (stages e se s r s')
  with session_good_frame [OF recorded_session_stage stages(4,3) assms(2), of rn se se] assms(3)
  show ?thesis by simp
next
  case (publishes e st se orig s r s')
  have "session_good C d rn (case r of Ok (_, se') \<Rightarrow> se' | _ \<Rightarrow> se, s')"
    using publishes(5) assms(3) unfolding publishes(1)
    by (intro session_good_frame [OF recorded_session_publish [OF publishes(4)] publishes(5,3) assms(2), of _ se])
      (auto simp: session_publish_def split: res.splits elim!: bind_OkE)
  then show ?thesis using publishes(2) by simp
next
  case (advances e se g s r s')
  from session_good_frame [OF recorded_triple [OF dirty_advance] advances(4) [unfolded session_advance_def]
      advances(3) assms(2), of rn se se] assms(3) advances
  show ?thesis by simp
next
  case (checkpoints e c s r s' se)
  from session_good_frame [OF recorded_triple [OF dirty_add_checkpoint] checkpoints(4,3) assms(2), of rn se se]
    assms(3) checkpoints
  show ?thesis by simp
next
  case (exports e dest g s r s' se)
  have "keeps (state_path d) (session_export d g dest)"
    unfolding session_export_def by (intro keep_rules keeps_export_store exports)
  from session_good_frame [OF recorded_keeps [OF this] exports(5,3) assms(2), of rn se se] assms(3) exports
  show ?thesis by simp
next
  case (quiesces se s)
  with assms(3) show ?thesis by (simp add: session_good_def guest_quiesced_def)
next
  case (writes t s se)
  with assms(3) disk_record_cong [OF writes(3), of C] show ?thesis by (simp add: session_good_def)
qed

interpretation session_machine: machine "\<lambda>x x'. codec_ok C \<and> session_step C d x x'" "session_good C d rn" for C d rn
  by unfold_locales (auto intro: session_step_good)

lemma session_begin_clean: "session_begin L x e s = (Ok se, s') \<Longrightarrow> \<not> se_dirty se \<and> \<not> se_quiesced se"
  unfolding session_begin_def by (auto simp: Let_def elim!: bind_OkE split: if_splits)

text \<open>C3: no command, and no connection into the guest, is handed to the agent before the record on disk
  says that the run holds work. Whatever the session did since it took the instance over, and whatever
  failed on the way, a message that opening a channel puts into the agent's queue is there only if the
  record names this run as dirty; so a crash from then on is found by recovery, which never drops a
  dirty run silently.\<close>

theorem dispatched_only_when_recorded:
  assumes "session_begin L explicit_snapshot e0 s0 = (Ok se0, s1)" and "codec_ok C"
    and "(session_step C (instance_dir L))\<^sup>*\<^sup>* (se0, s1) (se, s)"
    and "codec e = C" and "keeps (state_path (instance_dir L)) preparing"
    and "open_channel preparing (void (session_mark_dirty (instance_dir L) se)) channel_id channel msg b e s = (r, b', s')"
    and "agent_queue b' \<noteq> agent_queue b"
  shows "agent_queue b' = agent_queue b @ [msg] \<and>
    (\<exists>l own. disk_record C (instance_dir L) (fs s') = Some (new_record l (Dirty (r_id (se_run se0)) own)))"
proof -
  let ?d = "instance_dir L" and ?rn = "r_id (se_run se0)"
  have "session_good C ?d ?rn (se0, s1)"
    using session_begin_clean [OF assms(1)] by (simp add: session_good_def)
  moreover have "(\<lambda>x x'. codec_ok C \<and> session_step C ?d x x')\<^sup>*\<^sup>* (se0, s1) (se, s)"
    using assms(2,3) by simp
  ultimately have good: "session_good C ?d ?rn (se, s)" by (blast intro: session_machine.reach_good)
  from assms(6,7) obtain u where q: "agent_queue b' = agent_queue b @ [msg]"
    and m: "bind preparing (\<lambda>_. void (session_mark_dirty ?d se)) e s = (Ok u, s')"
    by (auto simp: open_channel_def agent_send_def Let_def split: if_splits prod.splits res.splits)
  from m obtain u1 s2 se' where p: "preparing e s = (Ok u1, s2)" and md: "session_mark_dirty ?d se e s2 = (Ok se', s')"
    by (auto simp: void_def elim!: bind_OkE)
  have "session_good C ?d ?rn (se, s2)"
    using session_good_frame [OF recorded_keeps [OF assms(5)] p assms(4,2) good] by simp
  with session_mark_dirty_Ok [OF md] assms(2,4) have "session_good C ?d ?rn (se', s') \<and> se_dirty se'" by simp
  then show ?thesis using q by (auto simp: session_good_def)
qed


definition session_layout :: Layout where
  "session_layout =
     \<lparr>base = [], l_instance = ''i'', kernel = [''k''], l_rootfs = None, instance_dir = here, l_run_dir = here,
      console_log = [''c'']\<rparr>"

text \<open>The first connection into the guest of a run that has just begun.\<close>

definition first_dispatch :: "(ChannelAdmission res \<times> BrokerState \<times> sys) option" where
  "first_dispatch =
     (case session_begin session_layout None sample_env sample_stopped of
        (Ok se, s) \<Rightarrow>
          Some (open_channel (ret ()) (void (session_mark_dirty here se)) 3 \<lparr>tx = 1, counts_as_active = True\<rparr>
            (OpenTcp 3 ''h'' 80) (new_broker True 0) sample_env s)
      | _ \<Rightarrow> None)"

theorem dispatched_only_when_recorded_witness:
  "\<exists>se s b' s'. session_begin session_layout None sample_env sample_stopped = (Ok se, s) \<and>
     first_dispatch = Some (Ok Opened, b', s') \<and> agent_queue b' = [OpenTcp 3 ''h'' 80] \<and>
     (\<exists>l own. disk_record sample_codec here (fs s') = Some (new_record l (Dirty (r_id (se_run se)) own)))"
proof -
  have "map_option (\<lambda>(r, b, _). (r, agent_queue b)) first_dispatch = Some (Ok Opened, [OpenTcp 3 ''h'' 80])"
    by code_simp
  then obtain b' s' where f: "first_dispatch = Some (Ok Opened, b', s')" "agent_queue b' = [OpenTcp 3 ''h'' 80]"
    by auto
  from f(1) obtain se s where b: "session_begin session_layout None sample_env sample_stopped = (Ok se, s)"
    and r: "open_channel (ret ()) (void (session_mark_dirty (instance_dir session_layout) se)) 3
      \<lparr>tx = 1, counts_as_active = True\<rparr> (OpenTcp 3 ''h'' 80) (new_broker True 0) sample_env s = (Ok Opened, b', s')"
    by (auto simp: first_dispatch_def session_layout_def split: prod.splits res.splits)
  have "agent_queue b' \<noteq> agent_queue (new_broker True 0)" using f(2) by (simp add: new_broker_def)
  from dispatched_only_when_recorded [OF b sample_codec_ok rtranclp.rtrancl_refl _ _ r this] f b
  show ?thesis by (auto simp: session_layout_def keeps_ret)
qed

subsection \<open>How a run ends\<close>

text \<open>The run is still at work, or the instance's latest state is the run's own final snapshot or the
  disk it left.\<close>

definition work_kept :: "run_id \<Rightarrow> spec_state \<Rightarrow> bool" where
  "work_kept rn v \<longleftrightarrow>
     (\<exists>r. fst v = Some r \<and>
        ((\<exists>own. phase r = Dirty rn own) \<or>
         phase r = Stopped \<and>
           (\<exists>g m. latest r = Some g \<and> snd v g = Some m \<and> m_origin m \<in> {Snapshot rn, Salvage rn})))"

lemma add_kept: "work_kept rn (rc, cat) \<Longrightarrow> cat g = None \<Longrightarrow> work_kept rn (rc, cat(g \<mapsto> m))"
  unfolding work_kept_def by force

lemma collect_kept:
  assumes "work_kept rn (Some r, cat)" "\<And>g. latest r = Some g \<Longrightarrow> cat' g = cat g"
  shows "work_kept rn (Some r, cat')"
  using assms unfolding work_kept_def by auto

lemma spec_step_kept:
  assumes "spec_step op v v'" "work_kept rn v"
    "op = SalvageRun \<or> (\<exists>g m. op = CommitLatest g \<and> snd v g = Some m \<and> m_origin m = Snapshot rn)"
  shows "work_kept rn v'"
  using assms(1)
proof cases
  case (add cat g m rc)
  with assms(2) show ?thesis by (auto intro: add_kept)
next
  case (replace cat rc r')
  with assms(2,3) show ?thesis by (auto simp: work_kept_def)
next
  case (collect cat' cat r)
  with assms(2) show ?thesis by (blast intro: collect_kept)
qed

lemma salvage_kept: "spec_reach SalvageRun v v' \<Longrightarrow> work_kept rn v \<Longrightarrow> work_kept rn v'"
  by (induction rule: rtranclp_induct) (auto intro: spec_step_kept)

text \<open>The final snapshot is in the catalogue, unchanged, until it is collected, and then it cannot be
  committed any more.\<close>

lemma commit_latest_catalogue:
  assumes "spec_step (CommitLatest g) v v'" "snd v g \<in> {x, None}"
  shows "snd v' g \<in> {x, None}"
  using assms(1)
proof cases
  case (collect cat' cat r)
  from collect(4) [of g] collect(1,2) assms(2) show ?thesis by auto
qed (use assms(2) in auto)

lemma commit_latest_kept:
  assumes "spec_reach (CommitLatest g) v v'" "work_kept rn v" "snd v g = Some m" "m_origin m = Snapshot rn"
  shows "work_kept rn v'"
proof -
  have "work_kept rn v' \<and> snd v' g \<in> {Some m, None}"
    using assms(1)
  proof (induction rule: rtranclp_induct)
    case base
    with assms show ?case by simp
  next
    case (step y z)
    show ?case
    proof (cases "snd y g = Some m")
      case True
      with step spec_step_kept [OF step(2), of rn] commit_latest_catalogue [OF step(2), of "Some m"] assms(4)
      show ?thesis by simp
    next
      case False
      with step have none: "snd y g = None" by auto
      have "work_kept rn z"
        using step(2)
      proof cases
        case (collect cat' cat r)
        with step.IH show ?thesis by (blast intro: collect_kept)
      qed (use none in auto)
      with commit_latest_catalogue [OF step(2), of "Some m"] none show ?thesis by simp
    qed
  qed
  then show ?thesis by blast
qed

definition keeping :: "path \<Rightarrow> run_id \<Rightarrow> env \<Rightarrow> node \<Rightarrow> bool" where
  "keeping d rn e t \<longleftrightarrow> sound d e t \<and> work_kept rn (store_state (codec e) d t)"

lemma keeping_same: "same_store d t t' \<Longrightarrow> keeping d rn e t \<Longrightarrow> keeping d rn e t'"
  by (auto simp: keeping_def same_store_state intro: same_store_inv)

lemma keeping_quiet: "quiet d m \<Longrightarrow> triple (keeping d rn) m (\<lambda>_. keeping d rn) (keeping d rn)"
  by (rule triple_quiet) (auto intro: keeping_same)

text \<open>An operation that follows the contract, with a precondition on the contract's state.\<close>

lemma keeping_follows:
  assumes "\<And>v. triple (follows d op v) m (\<lambda>_. follows d op v) (follows d op v)"
    "\<And>v v'. spec_reach op v v' \<Longrightarrow> work_kept rn v \<Longrightarrow> Q v \<Longrightarrow> work_kept rn v'"
  shows "triple (\<lambda>e t. keeping d rn e t \<and> Q (store_state (codec e) d t)) m (\<lambda>_. keeping d rn) (keeping d rn)"
proof -
  have "keeping d rn e (fs s')"
    if m: "m e s = (r, s')" and p: "keeping d rn e (fs s) \<and> Q (store_state (codec e) d (fs s))" for e s r s'
  proof -
    have "follows d op (store_state (codec e) d (fs s)) e (fs s)" using p by (simp add: follows_def keeping_def)
    from triple_anyD [OF assms(1) this m] p show ?thesis
      by (auto simp: follows_def keeping_def intro: assms(2))
  qed
  then show ?thesis by (intro tripleI) blast+
qed

lemma keeping_salvage: "triple (keeping d rn) (salvage d) (\<lambda>_. keeping d rn) (keeping d rn)"
  using keeping_follows [OF follows_salvage, of rn "\<lambda>_. True"] by (auto intro: salvage_kept)

lemma keeping_publish:
  assumes "staging_ok d st" "link_ids_ok par orig"
  shows "triple (keeping d rn) (publish d st par orig)
    (\<lambda>g e t. keeping d rn e t \<and> (\<exists>m. complete_gen (codec e) d t g = Some m \<and> m_origin m = orig)) (keeping d rn)"
proof -
  have "keeping d rn e (fs s') \<and> (\<forall>g. r = Ok g \<longrightarrow> (\<exists>m. complete_gen (codec e) d (fs s') g = Some m \<and> m_origin m = orig))"
    if m: "publish d st par orig e s = (r, s')" and p: "keeping d rn e (fs s)" for e s r s'
  proof -
    have i: "sound d e (fs s)" using p by (simp add: keeping_def)
    have snd: "sound d e (fs s')" using triple_anyD [OF triple_publish_sound [OF assms] i m] .
    show ?thesis
    proof (rule publish_state [OF m i assms], goal_cases)
      case 1
      with p snd show ?case by (auto simp: keeping_def)
    next
      case (2 k)
      with p snd show ?case
        by (auto simp: keeping_def store_state_def intro: add_kept)
    qed
  qed
  then show ?thesis by (intro tripleI) blast+
qed

lemma keeping_commit_final:
  "triple (\<lambda>e t. keeping d rn e t \<and> (\<exists>m. complete_gen (codec e) d t g = Some m \<and> m_origin m = Snapshot rn))
     (commit_final d g) (\<lambda>_. keeping d rn) (keeping d rn)"
proof -
  have f: "triple (follows d (CommitLatest g) v) (commit_latest d g)
      (\<lambda>_. follows d (CommitLatest g) v) (follows d (CommitLatest g) v)" for v
    by (rule follows_commit_latest) auto
  show ?thesis unfolding commit_final_def
    by (rule triple_pre [OF keeping_follows [OF f, of rn "\<lambda>v. \<exists>m. snd v g = Some m \<and> m_origin m = Snapshot rn"]])
      (auto intro: commit_latest_kept simp: store_state_def)
qed

text \<open>What the capture relies on: the VM's snapshot writes only into the directory it is given and runs the
  given action once, and the stamps of the running VM are not files of the store.\<close>

definition vm_ok :: "vm \<Rightarrow> bool" where
  "vm_ok snapshot_while_paused \<longleftrightarrow>
     (\<forall>dir m q. apart dir q \<longrightarrow> keeps q m \<longrightarrow> keeps q (snapshot_while_paused dir m))"

definition stamps_apart :: "path \<Rightarrow> path \<Rightarrow> bool" where
  "stamps_apart d stamp \<longleftrightarrow>
     (\<forall>q \<in> protected d. apart (with_file_name stamp DETERMINISTIC_CLOCK_STATE) q \<and>
        apart (with_file_name stamp DETERMINISTIC_TIMER_JUMPS_CURSOR) q)"

lemmas keeps_read_to_string = readonly_read_to_string [THEN readonly_keeps]

lemma keeps_ensure_clock:
  assumes "apart (with_file_name stamp DETERMINISTIC_CLOCK_STATE) q"
  shows "keeps q (ensure_deterministic_clock_state_file stamp st)"
    "keeps q (sync_deterministic_clock_event_sequence stamp trace)"
  using assms
  unfolding ensure_deterministic_clock_state_file_def sync_deterministic_clock_event_sequence_def
    write_deterministic_clock_state_def Let_def
  by (auto intro!: keep_rules keeps_read_to_string split: option.splits)

lemma keeps_import_jumps:
  assumes "apart (with_file_name stamp DETERMINISTIC_TIMER_JUMPS_CURSOR) q"
  shows "keeps q (import_deterministic_timer_jumps accepts stamp trace)"
  using assms unfolding import_deterministic_timer_jumps_def Let_def
  by (auto intro!: keep_rules keeps_read_to_string split: option.splits prod.splits)

lemma keeps_metadata_files:
  assumes "apart dir q"
  shows "keeps q (write_snapshot_metadata_file (dir @ [k]) bytes)"
    "keeps q (copy_snapshot_metadata_file src (dir @ [k]))"
    "keeps q (copy_clock_stamp stamp (dir @ [k]) c)"
proof -
  have a: "apart (dir @ [k]) q" "\<not> prefix q dir" using assms by (simp_all add: apart_append1) (simp add: apart_def)
  then show w: "keeps q (write_snapshot_metadata_file (dir @ [k]) b)" for b
    unfolding write_snapshot_metadata_file_def by (auto intro!: keep_rules)
  show c: "keeps q (copy_snapshot_metadata_file src (dir @ [k]))" for src
    unfolding copy_snapshot_metadata_file_def using a by (auto intro!: keep_rules)
  show "keeps q (copy_clock_stamp stamp (dir @ [k]) c)"
    unfolding copy_clock_stamp_def write_deterministic_clock_state_def using a w c
    by (auto intro!: keep_rules split: option.splits)
qed

lemma quiet_capture_fill:
  assumes "vm_ok (cc_vm cx)" "stamps_apart d (initramfs_stamp cx)" "staging_ok d st"
  shows "quiet d (capture_fill cx rn (st_dir st))"
  unfolding quiet_def
proof
  fix q
  assume q: "q \<in> protected d"
  have a: "apart (st_dir st) q" by (rule protected_apart_staging [OF assms(3) q])
  have ro: "keeps q (validate_snapshot_rootfs (st_dir st))"
    unfolding validate_snapshot_rootfs_def ensure_ext4_has_no_errors_def read_ext4_superblock_def
    by (intro readonly_keeps read_rules)
  have vm: "keeps q (capture_vm_state (cc_vm cx) (st_dir st) rn)"
  proof -
    have "keeps q (bind (clone_or_copy_file (r_dir rn @ [ROOTFS]) (st_dir st @ [ROOTFS])) (\<lambda>_.
        clone_shares (r_dir rn) (st_dir st)))"
      by (intro keep_rules a apart_append1)
    with assms(1) a show ?thesis unfolding capture_vm_state_def vm_ok_def by blast
  qed
  have stamps: "keeps q (copy_snapshot_stamp ac (st_dir st) (initramfs_stamp cx) tr cl)" for ac tr cl
    unfolding copy_snapshot_stamp_def
    using assms(2) q a
    by (auto intro!: keep_rules keeps_import_jumps keeps_ensure_clock keeps_metadata_files
        simp: stamps_apart_def split: option.splits)
  show "keeps q (capture_fill cx rn (st_dir st))"
    unfolding capture_fill_def using assms(2) q
    by (intro keep_rules keeps_ensure_clock vm ro stamps) (simp add: stamps_apart_def)
qed

lemma keeping_capture:
  assumes "vm_ok (cc_vm cx)" "stamps_apart d (initramfs_stamp cx)" "link_ids_ok (base_id (se_run se)) orig"
  shows "triple (keeping d rn) (capture cx d se orig)
    (\<lambda>x e t. keeping d rn e t \<and> (\<exists>m. complete_gen (codec e) d t (fst x) = Some m \<and> m_origin m = orig))
    (keeping d rn)"
  unfolding capture_def
proof (rule triple_bind [OF triple_session_stage [of d "keeping d rn" "keeping d rn"]])
  fix st
  have pub: "triple (keeping d rn) (session_publish d se st orig)
     (\<lambda>x e t. keeping d rn e t \<and> (\<exists>m. complete_gen (codec e) d t (fst x) = Some m \<and> m_origin m = orig))
     (keeping d rn)" if "staging_ok d st"
    unfolding session_publish_def
    by (rule triple_bind [OF keeping_publish [OF that assms(3)]]) (rule triple_ret, simp)
  show "triple (\<lambda>e t. keeping d rn e t \<and> staging_ok d st)
     (bind (capture_fill cx (se_run se) (st_dir st)) (\<lambda>_. session_publish d se st orig))
     (\<lambda>x e t. keeping d rn e t \<and> (\<exists>m. complete_gen (codec e) d t (fst x) = Some m \<and> m_origin m = orig))
     (keeping d rn)"
    by (rule triple_assuming, rule triple_bind [OF keeping_quiet [OF quiet_capture_fill [OF assms(1,2)]]])
      (auto intro: pub)
qed (auto intro: keeping_same)

lemma triple_recover_with:
  assumes "triple P m Q E" "\<And>x. triple E (h x) Q E"
  shows "triple P (recover_with m h) Q E"
proof (rule tripleI, goal_cases)
  case (1 e s x s')
  then show ?case
    using assms by (auto simp: recover_with_def split: prod.splits res.splits
        dest: triple_okD [OF assms(1)] triple_failD [OF assms(1)] triple_okD [OF assms(2)])
next
  case (2 e s r s')
  then show ?case
    using assms by (auto simp: recover_with_def split: prod.splits res.splits
        dest: triple_okD [OF assms(1)] triple_failD [OF assms(1)] triple_failD [OF assms(2)])
qed

lemma commit_latest_Ok:
  assumes "commit_latest d g e s = (Ok u, s')" "codec_ok (codec e)" "complete_gen (codec e) d (fs s) g = Some m"
  shows "disk_record (codec e) d (fs s') = Some (new_record (Some g) Stopped) \<and>
    complete_gen (codec e) d (fs s') g = Some m"
proof -
  from assms(1) obtain x s1 u2 s2 u3 where 1: "generation d g e s = (Ok x, s1)"
    and 2: "commit_record d (Some g) Stopped e s1 = (Ok u2, s2)" and 3: "collect_garbage d e s2 = (Ok u3, s')"
    unfolding commit_latest_def by (auto elim!: bind_OkE)
  have ids: "record_ids_ok (new_record (Some g) Stopped)"
    using complete_gen_valid [OF assms(3)] by (simp add: record_ids_ok_def phase_ids_ok_def)
  note rc = commit_record_disk(2) [OF 2 assms(2) ids]
  have "lookup (fs s') (generation_dir d g) = lookup (fs s) (generation_dir d g)"
    using gc_keeps_latest [OF 3 rc] keepsD [OF commit_record_gen 2] generation_Ok(3) [OF 1] by simp
  then show ?thesis using gc_record [OF 3] rc complete_gen_cong assms(3) by metis
qed

definition finished :: "path \<Rightarrow> run_id \<Rightarrow> env \<Rightarrow> node \<Rightarrow> bool" where
  "finished d rn e t \<longleftrightarrow>
     (\<exists>g m. disk_record (codec e) d t = Some (new_record (Some g) Stopped) \<and>
        complete_gen (codec e) d t g = Some m \<and> m_origin m = Snapshot rn)"

lemma commit_final_finishes:
  "triple (\<lambda>e t. keeping d rn e t \<and> (\<exists>m. complete_gen (codec e) d t g = Some m \<and> m_origin m = Snapshot rn))
     (commit_final d g) (\<lambda>_ e t. keeping d rn e t \<and> finished d rn e t) (keeping d rn)"
proof (rule tripleI, goal_cases)
  case (1 e s x s')
  from triple_okD [OF keeping_commit_final 1(2,1)] 1 show ?case
    by (auto simp: finished_def keeping_def commit_final_def dest: commit_latest_Ok)
next
  case (2 e s r s')
  from triple_failD [OF keeping_commit_final 2(2,1)] 2 show ?case by blast
qed

lemma keeping_abandon:
  assumes "se_dirty se"
  shows "triple (keeping d rn) (session_abandon d reason se) (\<lambda>_. keeping d rn) (keeping d rn)"
proof -
  have q: "quiet d (write_file (d @ [LAST_RUN_NOTICE]) c)" for c
    by (rule quietI) (auto intro!: keep_rules simp: LAST_RUN_NOTICE_def)
  show ?thesis unfolding session_abandon_def
    by (cases "se_quiesced se")
      (simp_all only: assms simp_thms if_True if_False
        triple_bind [OF keeping_salvage keeping_quiet [OF q]] triple_ret)
qed

text \<open>C4: however a run that served commands ends, its work is kept. The owner takes the final snapshot and
  commits it or, when anything on that way fails, abandons the run; whatever fails in either, and
  wherever the owner dies, the record afterwards still says that the run holds work, or it names a
  complete generation that is this run's final snapshot or the disk it left. The owner reports success
  only when the final snapshot is the instance's saved state.\<close>

theorem run_end_keeps_work:
  assumes "end_run cx d stream reconnect se e s = (res, s')"
    and "vm_ok (cc_vm cx)" and "stamps_apart d (initramfs_stamp cx)"
    and "codec_ok (codec e)" and "store_inv (codec e) d (fs s)"
    and "se_dirty se" and "link_ids_ok (base_id (se_run se)) (Snapshot (r_id (se_run se)))"
    and "disk_record (codec e) d (fs s) = Some (new_record l (Dirty (r_id (se_run se)) own))"
  shows "work_kept (r_id (se_run se)) (store_state (codec e) d (fs s')) \<and>
    (res = Ok () \<longrightarrow> finished d (r_id (se_run se)) e (fs s'))"
proof -
  let ?rn = "r_id (se_run se)" and ?K = "keeping d (r_id (se_run se))"
  have serve: "triple ?K (serve_snapshot cx d stream reconnect se)
      (\<lambda>g e t. ?K e t \<and> (\<exists>m. complete_gen (codec e) d t g = Some m \<and> m_origin m = Snapshot ?rn)) ?K"
    unfolding serve_snapshot_def
    by (rule triple_bind [OF triple_reading], intro read_rules, assumption,
        rule triple_bind [OF keeping_capture [OF assms(2,3)]])
      (use assms(7) in \<open>auto simp: guest_quiesced_def split: prod.splits intro!: triple_ret\<close>)
  have final: "triple ?K (final_snapshot cx d stream reconnect se) (\<lambda>_ e t. ?K e t \<and> finished d ?rn e t) ?K"
    unfolding final_snapshot_def by (rule triple_bind [OF serve commit_final_finishes])
  have giveup: "triple ?K (bind (ignore (session_abandon d y se')) (\<lambda>_. raise x)) Q ?K" if "se_dirty se'" for y se' x Q
    unfolding ignore_def
    by (rule triple_bind [where R = "\<lambda>_. ?K"], rule triple_recover_with [where Q = "\<lambda>_. ?K"],
        rule triple_then [OF keeping_abandon [OF that]])
      (auto intro!: triple_ret triple_raise)
  have "triple ?K (end_run cx d stream reconnect se) (\<lambda>_ e t. ?K e t \<and> finished d ?rn e t) ?K"
    unfolding end_run_def
    by (rule triple_recover_with [OF final]) (use assms(6) in \<open>auto intro: giveup simp: guest_quiesced_def\<close>)
  moreover have "?K e (fs s)" using assms(4,5,8) by (auto simp: keeping_def work_kept_def store_state_def)
  ultimately show ?thesis using assms(1)
    by (cases res) (auto simp: keeping_def dest: triple_okD triple_failD)
qed

text \<open>The guest of a dirty run quiesces, but its disk is not an image a snapshot may hold; the disk is kept
  all the same.\<close>

definition sample_capture :: capture_context where
  "sample_capture =
     \<lparr>cc_vm = (\<lambda>_ m. m), cc_accepts = (\<lambda>_. True), initramfs_stamp = here @ [''initramfs.stamp''],
      cc_trace_log = None, cc_clock = None\<rparr>"

definition sample_session :: RunSession where
  "sample_session =
     \<lparr>se_run = \<lparr>r_id = sample_run, r_dir = run_dir here sample_run, r_base = None\<rparr>, se_instance = ''i'',
      se_dirty = True, se_last_capture = None, se_quiesced = False\<rparr>"

definition sample_end :: "unit res \<times> sys" where
  "sample_end = end_run sample_capture here (FRAME_SNAPSHOT # replicate 4 (CHR 0x00) @ ''R'') None sample_session
     sample_env sample_dirty"

theorem run_end_keeps_work_witness:
  "map_option phase (disk_record sample_codec here (fs (snd sample_end))) = Some Stopped \<and>
   work_kept sample_run (store_state sample_codec here (fs (snd sample_end)))"
proof
  show "map_option phase (disk_record sample_codec here (fs (snd sample_end))) = Some Stopped"
    by code_simp
  have rc: "disk_record (codec sample_env) here (fs sample_dirty) =
      Some (new_record (Some sample_gen) (Dirty (r_id (se_run sample_session)) sample_owner))"
    by (simp add: sample_facts sample_session_def)
  have vm: "vm_ok (cc_vm sample_capture)" by (simp add: vm_ok_def sample_capture_def)
  have st: "stamps_apart here (initramfs_stamp sample_capture)"
    by (auto simp: stamps_apart_def sample_capture_def protected_def with_file_name_def parent_of_def
        DETERMINISTIC_CLOCK_STATE_def DETERMINISTIC_TIMER_JUMPS_CURSOR_def)
  have l: "link_ids_ok (base_id (se_run sample_session)) (Snapshot (r_id (se_run sample_session)))"
    by code_simp
  have e: "end_run sample_capture here (FRAME_SNAPSHOT # replicate 4 (CHR 0x00) @ ''R'') None sample_session
      sample_env sample_dirty = (fst sample_end, snd sample_end)"
    by (simp add: sample_end_def)
  have "se_dirty sample_session" "codec_ok (codec sample_env)" "store_inv (codec sample_env) here (fs sample_dirty)"
    using sample_inv(3) sample_codec_ok by (simp_all add: sample_session_def)
  from run_end_keeps_work [OF e vm st this(2,3,1) l rc]
  show "work_kept sample_run (store_state sample_codec here (fs (snd sample_end)))"
    by (simp add: sample_session_def)
qed


end
