(* ===== verification/HostShare.thy ===== *)
theory HostShare
  imports Store
begin

text \<open>
  The copy-on-write state of the host shares, \<open>src/src/host_share.rs\<close>: which share a host path is on,
  where the state of that path is kept below the state directory (\<open>TAG/upper\<close> holds what the guest
  wrote, \<open>TAG/whiteouts\<close> what it deleted), reading it, listing it and removing it. The removal runs on
  directory handles and follows no symbolic link; a handle is the path of its directory. Then the two
  users of the state: \<open>fs unshare --remove\<close> of \<open>src/src/cli.rs\<close> and the check a run makes of its working
  directory, \<open>preflight_host_share_cwd\<close> of \<open>src/src/runner.rs\<close>.
\<close>

subsection \<open>Paths as the standard library reads them\<close>

datatype component = RootDir | CurDir | ParentDir | Normal string

type_synonym rust_path = "component list"

text \<open>\<open>Component\<close> is ordered by its constructors, then by the bytes of the name.\<close>

fun component_rank :: "component \<Rightarrow> nat" where
  "component_rank RootDir = 0"
| "component_rank CurDir = 1"
| "component_rank ParentDir = 2"
| "component_rank (Normal k) = 3"

fun component_name :: "component \<Rightarrow> string" where
  "component_name (Normal k) = k"
| "component_name _ = []"

instantiation component :: linorder
begin

definition less_eq_component :: "component \<Rightarrow> component \<Rightarrow> bool" where
  "less_eq_component a b \<longleftrightarrow>
     component_rank a < component_rank b \<or>
     component_rank a = component_rank b \<and> component_name a \<le> component_name b"

definition less_component :: "component \<Rightarrow> component \<Rightarrow> bool" where
  "less_component a b \<longleftrightarrow> a \<le> b \<and> \<not> b \<le> (a :: component)"

instance
proof
  fix a b c :: component
  show "a < b \<longleftrightarrow> a \<le> b \<and> \<not> b \<le> a" by (rule less_component_def)
  show "a \<le> a" by (simp add: less_eq_component_def)
  show "a \<le> b \<Longrightarrow> b \<le> c \<Longrightarrow> a \<le> c" by (auto simp: less_eq_component_def)
  show "a \<le> b \<Longrightarrow> b \<le> a \<Longrightarrow> a = b" by (cases a; cases b) (auto simp: less_eq_component_def)
  show "a \<le> b \<or> b \<le> a" by (auto simp: less_eq_component_def)
qed

end

definition component_of :: "string \<Rightarrow> component" where
  "component_of k = (if k = ''..'' then ParentDir else Normal k)"

text \<open>\<open>Path::components\<close>: repeated separators and \<open>.\<close> are dropped, except a leading \<open>.\<close>.\<close>

definition path_components :: "string \<Rightarrow> rust_path" where
  "path_components p =
     (let pieces = split_on (CHR ''/'') p in
      (if starts_with p ''/'' then [RootDir] else if hd pieces = ''.'' then [CurDir] else []) @
      map component_of (filter (\<lambda>k. k \<noteq> [] \<and> k \<noteq> ''.'') pieces))"

definition is_absolute :: "rust_path \<Rightarrow> bool" where
  "is_absolute p \<longleftrightarrow> p \<noteq> [] \<and> hd p = RootDir"

text \<open>\<open>Path::join\<close>: an absolute path replaces what it is joined to.\<close>

definition path_join :: "rust_path \<Rightarrow> rust_path \<Rightarrow> rust_path" where
  "path_join p q = (if is_absolute q \<or> p = [] then q else p @ filter (\<lambda>c. c \<noteq> CurDir) q)"

text \<open>The path of the file system an absolute path without \<open>..\<close> stands for, and back.\<close>

fun normal_names :: "rust_path \<Rightarrow> path" where
  "normal_names [] = []"
| "normal_names (Normal k # p) = k # normal_names p"
| "normal_names (_ # p) = normal_names p"

definition absolute_path :: "path \<Rightarrow> rust_path" where
  "absolute_path p = RootDir # map Normal p"

subsection \<open>Which share a path is on\<close>

record HostShareTarget =
  t_tag :: string
  share_root :: rust_path
  t_suffix :: rust_path
  t_absolute :: rust_path

abbreviation state_root :: "path \<Rightarrow> path" where
  "state_root instance_dir \<equiv> instance_dir @ [''host-share-state'']"

fun normalize_step :: "bool \<Rightarrow> rust_path \<Rightarrow> component \<Rightarrow> rust_path" where
  "normalize_step absolute normalized RootDir = [RootDir]"
| "normalize_step absolute normalized CurDir = normalized"
| "normalize_step absolute normalized ParentDir =
     (if normalized \<noteq> [] \<and> component_rank (last normalized) = 3 then butlast normalized
      else if \<not> absolute then normalized @ [ParentDir] else normalized)"
| "normalize_step absolute normalized (Normal k) = normalized @ [Normal k]"

definition lexical_normalize :: "rust_path \<Rightarrow> rust_path" where
  "lexical_normalize p = foldl (normalize_step (is_absolute p)) [] p"

definition targets_for_normalized_absolute_path ::
  "rust_path \<Rightarrow> rust_path \<Rightarrow> rust_path option \<Rightarrow> HostShareTarget list" where
  "targets_for_normalized_absolute_path absolute cwd home =
     (case Option.bind home (strip_prefix absolute) of
        Some rest \<Rightarrow>
          [\<lparr>t_tag = ''home'', share_root = the home, t_suffix = rest, t_absolute = absolute\<rparr>]
      | None \<Rightarrow> []) @
     (if home \<noteq> None \<and> starts_with cwd (the home) then []
      else (case strip_prefix absolute cwd of
              Some rest \<Rightarrow>
                [\<lparr>t_tag = ''cwd'', share_root = cwd, t_suffix = rest, t_absolute = absolute\<rparr>]
            | None \<Rightarrow> []))"

abbreviation normalized_home :: "rust_path option \<Rightarrow> rust_path option" where
  "normalized_home home \<equiv>
     Option.bind (map_option lexical_normalize home) (\<lambda>h. if is_absolute h then Some h else None)"

definition targets_for_absolute_path ::
  "rust_path \<Rightarrow> rust_path \<Rightarrow> rust_path option \<Rightarrow> HostShareTarget list" where
  "targets_for_absolute_path p cwd home =
     (let absolute = lexical_normalize p; cwd' = lexical_normalize cwd in
      if \<not> is_absolute absolute \<or> \<not> is_absolute cwd' then []
      else targets_for_normalized_absolute_path absolute cwd' (normalized_home home))"

definition targets_for_path_with_home ::
  "rust_path \<Rightarrow> rust_path \<Rightarrow> rust_path option \<Rightarrow> err + HostShareTarget list" where
  "targets_for_path_with_home p cwd home =
     (if list_ex (\<lambda>c. c = ParentDir) p then Inl (Bail ''host-share state paths must not contain '')
      else
        (let cwd' = lexical_normalize cwd in
         if \<not> is_absolute cwd' then Inl (Bail ''host-share working directory is not absolute'')
         else
           (let absolute =
              (if is_absolute p then lexical_normalize p else lexical_normalize (path_join cwd' p)) in
            Inr (targets_for_normalized_absolute_path absolute cwd' (normalized_home home)))))"

definition checked_state_path :: "path \<Rightarrow> HostShareTarget \<Rightarrow> string \<Rightarrow> err + rust_path" where
  "checked_state_path root target namespace =
     (if t_tag target \<noteq> ''home'' \<and> t_tag target \<noteq> ''cwd'' then Inl (Bail ''unsafe host-share tag'')
      else if is_absolute (t_suffix target) \<or>
              list_ex (\<lambda>c. c = RootDir \<or> c = ParentDir) (t_suffix target)
      then Inl (Bail ''unsafe host-share state path'')
      else
        (let namespace_root =
               lexical_normalize (path_join (path_join (absolute_path root) [Normal (t_tag target)]) [Normal namespace]);
             state_path = lexical_normalize (path_join namespace_root (t_suffix target)) in
         if \<not> starts_with state_path namespace_root
         then Inl (Bail ''host-share state path escapes'')
         else Inr state_path))"

subsection \<open>Removing the state of a path\<close>

text \<open>A system call that finds nothing is no error.\<close>

definition found :: "'a M \<Rightarrow> 'a option M" where
  "found m =
     recover_with (bind m (\<lambda>x. ret (Some x))) (\<lambda>x. if x = Io NotFound then ret None else raise x)"

text \<open>\<open>openat\<close> with \<open>O_DIRECTORY\<close> and \<open>O_NOFOLLOW\<close>: neither a file nor a symbolic link opens.\<close>

definition open_dir_no_follow :: "path \<Rightarrow> unit M" where
  "open_dir_no_follow p =
     observe (\<lambda>t. case lookup t p of
        None \<Rightarrow> Inl (missing_kind t p)
      | Some (Sub es) \<Rightarrow> Inr ()
      | Some _ \<Rightarrow> Inl OtherIo)"

definition open_root_dir_no_follow :: "path \<Rightarrow> path option M" where
  "open_root_dir_no_follow p = bind (found (open_dir_no_follow p)) (\<lambda>x. ret (map_option (\<lambda>_. p) x))"

definition open_child_dir_no_follow :: "path \<Rightarrow> string \<Rightarrow> path option M" where
  "open_child_dir_no_follow parent k =
     bind (found (open_dir_no_follow (parent @ [k]))) (\<lambda>x. ret (map_option (\<lambda>_. parent @ [k]) x))"

text \<open>Removing an entry and, for a directory, its contents first. Only the removal itself changes the
  tree, so the recursion follows the node found at its root.\<close>

fun remove_found :: "node \<Rightarrow> path \<Rightarrow> string \<Rightarrow> unit M"
and remove_directory_contents :: "dir \<Rightarrow> path \<Rightarrow> unit M" where
  "remove_found (Sub es) parent k =
     bind (open_child_dir_no_follow parent k) (\<lambda>directory.
     case directory of
       None \<Rightarrow> raise (Bail ''host-share state directory disappeared during removal'')
     | Some directory \<Rightarrow>
         bind (read_dir directory) (\<lambda>_.
         bind (remove_directory_contents es directory) (\<lambda>_.
         remove_dir (parent @ [k]))))"
| "remove_found (Lnk l) parent k = remove_file (parent @ [k])"
| "remove_found (Reg c b) parent k = remove_file (parent @ [k])"
| "remove_directory_contents [] directory = ret ()"
| "remove_directory_contents ((k, n) # es) directory =
     bind (found (symlink_metadata (directory @ [k]))) (\<lambda>st.
     bind (case st of None \<Rightarrow> ret () | Some _ \<Rightarrow> remove_found n directory k) (\<lambda>_.
     remove_directory_contents es directory))"

definition remove_entry_at :: "path \<Rightarrow> string \<Rightarrow> unit M" where
  "remove_entry_at parent k =
     bind (found (symlink_metadata (parent @ [k]))) (\<lambda>st.
     case st of None \<Rightarrow> ret () | Some n \<Rightarrow> remove_found n parent k)"

text \<open>\<open>CString::new\<close>.\<close>

definition c_name :: "string \<Rightarrow> err + string" where
  "c_name k = (if CHR 0x00 \<in> set k then Inl (Bail ''component contains NUL'') else Inr k)"

fun suffix_names :: "rust_path \<Rightarrow> err + path" where
  "suffix_names [] = Inr []"
| "suffix_names (Normal k # p) =
     (case c_name k of
        Inl x \<Rightarrow> Inl x
      | Inr k \<Rightarrow> (case suffix_names p of Inl x \<Rightarrow> Inl x | Inr ks \<Rightarrow> Inr (k # ks)))"
| "suffix_names (_ # p) = Inl (Bail ''unsafe host-share state suffix'')"

text \<open>Opening one directory below another; the first one that is missing ends the walk.\<close>

fun open_beneath :: "path \<Rightarrow> string list \<Rightarrow> path option M" where
  "open_beneath parent [] = ret (Some parent)"
| "open_beneath parent (k # ks) =
     bind (open_child_dir_no_follow parent k) (\<lambda>next.
     case next of None \<Rightarrow> ret None | Some parent \<Rightarrow> open_beneath parent ks)"

definition remove_entry_beneath :: "path \<Rightarrow> string \<Rightarrow> string \<Rightarrow> rust_path \<Rightarrow> unit M" where
  "remove_entry_beneath root tag namespace sfx =
     bind (open_root_dir_no_follow root) (\<lambda>opened.
     case opened of
       None \<Rightarrow> ret ()
     | Some parent \<Rightarrow>
         bind (open_beneath parent [tag, namespace]) (\<lambda>opened.
         case opened of
           None \<Rightarrow> ret ()
         | Some parent \<Rightarrow>
             bind (lift_res (suffix_names sfx)) (\<lambda>ks.
             if ks = [] then raise (Bail ''refusing to remove an empty host-share state suffix'')
             else
               bind (open_beneath parent (butlast ks)) (\<lambda>opened.
               case opened of
                 None \<Rightarrow> ret ()
               | Some parent \<Rightarrow> remove_entry_at parent (last ks)))))"

definition remove_state_path_if_exists :: "path \<Rightarrow> HostShareTarget \<Rightarrow> string \<Rightarrow> unit M" where
  "remove_state_path_if_exists root target namespace =
     bind (lift_res (checked_state_path root target namespace)) (\<lambda>_.
     remove_entry_beneath root (t_tag target) namespace (t_suffix target))"

definition remove_path_state :: "path \<Rightarrow> HostShareTarget \<Rightarrow> unit M" where
  "remove_path_state root target =
     (if t_suffix target = [] then raise (Bail ''refusing to remove all host-share copy-on-write state'')
      else
        bind (remove_state_path_if_exists root target ''upper'') (\<lambda>_.
        remove_state_path_if_exists root target ''whiteouts''))"

subsection \<open>Reading the state of a path\<close>

abbreviation WHITEOUT_MARKER :: string where
  "WHITEOUT_MARKER \<equiv> ''.lnx-whiteout''"

definition node_is_dir :: "node option \<Rightarrow> bool" where
  "node_is_dir n = (case n of Some (Sub _) \<Rightarrow> True | _ \<Rightarrow> False)"

abbreviation path_metadata :: "path \<Rightarrow> node option M" where
  "path_metadata p \<equiv> found (symlink_metadata p)"

abbreviation has_path :: "path \<Rightarrow> bool M" where
  "has_path p \<equiv> bind (found (symlink_metadata p)) (\<lambda>n. ret (n \<noteq> None))"

definition direct_whiteout_exists :: "path \<Rightarrow> bool M" where
  "direct_whiteout_exists p =
     bind (found (symlink_metadata p)) (\<lambda>n.
     if n = None then ret False
     else if node_is_dir n then has_path (p @ [WHITEOUT_MARKER])
     else ret True)"

definition has_descendant_state :: "path \<Rightarrow> bool M" where
  "has_descendant_state p =
     bind (recover_with (bind (symlink_metadata p) (\<lambda>n. ret (Some n))) (\<lambda>_. ret None)) (\<lambda>n.
     if \<not> node_is_dir n then ret False
     else bind (read_dir p) (\<lambda>es. ret (es \<noteq> [])))"

text \<open>The path and its parents, the longest first, without the empty one.\<close>

fun ancestors :: "nat \<Rightarrow> rust_path \<Rightarrow> rust_path list" where
  "ancestors 0 p = []"
| "ancestors (Suc n) p = take (Suc n) p # ancestors n p"

fun first_whiteout :: "path \<Rightarrow> rust_path list \<Rightarrow> rust_path option M" where
  "first_whiteout whiteouts [] = ret None"
| "first_whiteout whiteouts (ancestor # rest) =
     bind (direct_whiteout_exists (whiteouts @ normal_names ancestor)) (\<lambda>there.
     if there then ret (Some ancestor) else first_whiteout whiteouts rest)"

definition covering_whiteout :: "path \<Rightarrow> HostShareTarget \<Rightarrow> rust_path option M" where
  "covering_whiteout root target =
     first_whiteout (root @ [t_tag target, ''whiteouts''])
       (ancestors (length (t_suffix target)) (t_suffix target))"

record PathState =
  ps_target :: HostShareTarget
  upper_path :: rust_path
  whiteout_path :: rust_path
  upper_exists :: bool
  direct_whiteout :: bool
  ps_covering :: "rust_path option"
  descendant_state :: bool

definition path_state :: "path \<Rightarrow> HostShareTarget \<Rightarrow> PathState M" where
  "path_state root target =
     bind (lift_res (checked_state_path root target ''upper'')) (\<lambda>upper.
     bind (lift_res (checked_state_path root target ''whiteouts'')) (\<lambda>whiteout.
     bind (direct_whiteout_exists (normal_names whiteout)) (\<lambda>direct.
     bind (path_metadata (normal_names upper)) (\<lambda>upper_metadata.
     bind (path_metadata (normal_names (t_absolute target))) (\<lambda>lower_metadata.
     let upper_namespace = node_is_dir upper_metadata \<and> node_is_dir lower_metadata in
     bind (path_metadata (normal_names whiteout)) (\<lambda>whiteout_metadata.
     let whiteout_namespace = node_is_dir whiteout_metadata \<and> \<not> direct in
     bind (covering_whiteout root target) (\<lambda>covering.
     bind (if upper_namespace \<or> whiteout_namespace then ret True
           else has_descendant_state (normal_names upper)) (\<lambda>descendant.
     ret \<lparr>ps_target = target, upper_path = upper, whiteout_path = whiteout,
          upper_exists = (upper_metadata \<noteq> None \<and> \<not> upper_namespace),
          direct_whiteout = direct, ps_covering = covering, descendant_state = descendant\<rparr>))))))))"

subsection \<open>Listing\<close>

datatype StateEntryKind = Copied | Hidden | DescendantState

fun state_entry_kind_str :: "StateEntryKind \<Rightarrow> string" where
  "state_entry_kind_str Copied = ''copied''"
| "state_entry_kind_str Hidden = ''hidden''"
| "state_entry_kind_str DescendantState = ''descendant-state''"

record StateEntry =
  se_tag :: string
  se_kind :: StateEntryKind
  logical_path :: rust_path
  se_state_path :: path

text \<open>Every entry below a directory, as the path to it from there. The ordered map the code fills has
  these paths as its keys.\<close>

fun collect_found :: "path \<Rightarrow> path \<Rightarrow> dir \<Rightarrow> path list M" where
  "collect_found root current [] = ret []"
| "collect_found root current ((k, n) # es) =
     bind (case n of
             Sub sub \<Rightarrow>
               bind (found (read_dir (root @ current @ [k]))) (\<lambda>l.
               case l of None \<Rightarrow> ret [] | Some _ \<Rightarrow> collect_found root (current @ [k]) sub)
           | _ \<Rightarrow> ret []) (\<lambda>below.
     bind (collect_found root current es) (\<lambda>rest.
     ret ((current @ [k]) # below @ rest)))"

definition collect_paths :: "path \<Rightarrow> path list M" where
  "collect_paths root =
     bind (found (read_dir root)) (\<lambda>l.
     case l of
       None \<Rightarrow> ret []
     | Some es \<Rightarrow> bind (collect_found root [] es) (\<lambda>ps. ret (sort (remdups ps))))"

definition collect_upper_entries :: "path \<Rightarrow> string \<Rightarrow> rust_path \<Rightarrow> StateEntry list M" where
  "collect_upper_entries root tag share =
     bind (collect_paths root) (\<lambda>ps.
     folding (\<lambda>entries p.
       let lower_path = path_join share (map Normal p) in
       bind (path_metadata (root @ p)) (\<lambda>upper.
       bind (if node_is_dir upper then path_metadata (normal_names lower_path) else ret None) (\<lambda>lower.
       ret (entries @
         [\<lparr>se_tag = tag, se_kind = (if node_is_dir upper \<and> node_is_dir lower then DescendantState else Copied),
           logical_path = lower_path, se_state_path = root @ p\<rparr>])))) [] ps)"

definition collect_whiteout_entries :: "path \<Rightarrow> string \<Rightarrow> rust_path \<Rightarrow> StateEntry list M" where
  "collect_whiteout_entries root tag share =
     bind (collect_paths root) (\<lambda>ps.
     folding (\<lambda>entries p.
       if last p = WHITEOUT_MARKER then ret entries
       else
         bind (direct_whiteout_exists (root @ p)) (\<lambda>direct.
         ret (entries @
           [\<lparr>se_tag = tag, se_kind = (if direct then Hidden else DescendantState),
             logical_path = path_join share (map Normal p), se_state_path = root @ p\<rparr>]))) [] ps)"

text \<open>Sorted by path, then kind, then share: three stable sorts.\<close>

abbreviation sort_entries :: "StateEntry list \<Rightarrow> StateEntry list" where
  "sort_entries es \<equiv>
     sort_key logical_path (sort_key (\<lambda>x. state_entry_kind_str (se_kind x)) (sort_key se_tag es))"

definition list_state_entries_with_home ::
  "path \<Rightarrow> rust_path \<Rightarrow> rust_path option \<Rightarrow> StateEntry list M" where
  "list_state_entries_with_home root cwd home =
     (let shares =
        (case home of Some h \<Rightarrow> [(''home'', h)] | None \<Rightarrow> []) @
        (if home \<noteq> None \<and> starts_with cwd (the home) then [] else [(''cwd'', cwd)]) in
      bind (folding (\<lambda>entries (tag, share).
        bind (collect_upper_entries (root @ [tag, ''upper'']) tag share) (\<lambda>upper.
        bind (collect_whiteout_entries (root @ [tag, ''whiteouts'']) tag share) (\<lambda>whiteouts.
        ret (entries @ upper @ whiteouts)))) [] shares) (\<lambda>entries.
      ret (sort_entries entries)))"

subsection \<open>Using the state\<close>

text \<open>\<open>fs unshare --remove PATH\<close> with the instance lock held: the state is removed from a copy of the
  latest generation, which then becomes the latest.\<close>

definition unshare_edit :: "HostShareTarget list \<Rightarrow> path \<Rightarrow> unit M" where
  "unshare_edit targets staging = each (remove_path_state (staging @ [HOST_SHARE_STATE])) targets"

definition fs_unshare_remove :: "path \<Rightarrow> rust_path \<Rightarrow> rust_path \<Rightarrow> rust_path option \<Rightarrow> gen_id M" where
  "fs_unshare_remove d p cwd home =
     bind (lift_res (targets_for_path_with_home p cwd home)) (\<lambda>targets.
     if targets = [] then raise (Bail ''path is not on a host share'')
     else
       bind (recover d) (\<lambda>_.
       derive d (unshare_edit targets)))"

text \<open>The check of the working directory before a run starts.\<close>

definition preflight_host_share_cwd_with_home :: "path \<Rightarrow> path \<Rightarrow> bool \<Rightarrow> path \<Rightarrow> unit M" where
  "preflight_host_share_cwd_with_home d cwd no_host_shares host_home =
     (if no_host_shares then ret ()
      else
        bind (test_path exists_at cwd) (\<lambda>there.
        if \<not> there then raise (Bail ''working directory does not exist on macOS'')
        else
          each (\<lambda>target.
              bind (path_state (state_root d) target) (\<lambda>st.
              if ps_covering st \<noteq> None
              then raise (Bail ''working directory is hidden by host-share copy-on-write state'')
              else ret ()))
            (targets_for_absolute_path (absolute_path cwd) (absolute_path cwd) (Some (absolute_path host_home)))))"

end
