(* ===== verification/HostShareProps.thy ===== *)
theory HostShareProps
  imports HostShare StoreReach Calm SampleStore
begin

text \<open>
  What removing host-share state does: it touches nothing but the state of the paths it is given,
  whatever fails, and when it succeeds that state is gone.
\<close>

subsection \<open>Opening directories\<close>

lemma readonly_found [read_rules]: "readonly m \<Longrightarrow> readonly (found m)"
  unfolding found_def by (intro read_rules)

lemma readonly_open [read_rules]:
  "readonly (open_dir_no_follow p)" "readonly (open_root_dir_no_follow p)"
  "readonly (open_child_dir_no_follow p k)"
  by (simp_all add: open_dir_no_follow_def open_root_dir_no_follow_def open_child_dir_no_follow_def
      read_rules)

lemma readonly_open_beneath [read_rules]: "readonly (open_beneath p ks)"
  by (induction p ks rule: open_beneath.induct) (auto intro!: read_rules)

lemma found_Ok:
  assumes "found m e s = (Ok r, s')"
  shows "(\<exists>x. r = Some x \<and> m e s = (Ok x, s')) \<or> (r = None \<and> m e s = (Err (Io NotFound), s'))"
  using assms
  by (auto simp: found_def recover_with_def bind_def ret_def raise_def split: prod.splits res.splits if_splits)

lemma missing_NotFound: "observe f e s = (Err (Io NotFound), s') \<Longrightarrow> f (fs s) = Inl NotFound"
  by (auto simp: observe_def call_def Let_def split: fault.splits sum.splits prod.splits)

lemma found_metadata:
  assumes "found (symlink_metadata p) e s = (Ok r, s')"
  shows "r = lookup (fs s) p" "fs s' = fs s"
proof -
  show "r = lookup (fs s) p"
    using found_Ok [OF assms]
    by (auto simp: symlink_metadata_def dest!: missing_NotFound elim!: observe_OkE split: option.splits)
  show "fs s' = fs s" using readonlyD [OF readonly_found assms] by (simp add: read_rules)
qed

lemma open_child_Ok:
  assumes "open_child_dir_no_follow p k e s = (Ok r, s')"
  shows "fs s' = fs s"
    and "r = Some x \<Longrightarrow> x = p @ [k] \<and> is_dir (fs s) (p @ [k])"
    and "r = None \<Longrightarrow> lookup (fs s) (p @ [k]) = None"
proof -
  show "fs s' = fs s" using readonly_open(3) assms by (rule readonlyD)
  from assms obtain o' where o': "found (open_dir_no_follow (p @ [k])) e s = (Ok o', s')"
    and r: "r = map_option (\<lambda>_. p @ [k]) o'"
    unfolding open_child_dir_no_follow_def by (auto elim!: bind_OkE)
  note cases = found_Ok [OF o', unfolded open_dir_no_follow_def]
  show "r = Some x \<Longrightarrow> x = p @ [k] \<and> is_dir (fs s) (p @ [k])"
    using r cases by (auto simp: is_dir_code elim!: observe_OkE split: option.splits node.splits)
  show "r = None \<Longrightarrow> lookup (fs s) (p @ [k]) = None"
    using r cases by (auto dest!: missing_NotFound split: option.splits node.splits)
qed

lemma open_root_Ok:
  assumes "open_root_dir_no_follow p e s = (Ok r, s')"
  shows "fs s' = fs s" and "r = Some x \<Longrightarrow> x = p" and "r = None \<Longrightarrow> lookup (fs s) p = None"
proof -
  show "fs s' = fs s" using readonly_open(2) assms by (rule readonlyD)
  from assms obtain o' where o': "found (open_dir_no_follow p) e s = (Ok o', s')"
    and r: "r = map_option (\<lambda>_. p) o'"
    unfolding open_root_dir_no_follow_def by (auto elim!: bind_OkE)
  show "r = Some x \<Longrightarrow> x = p" using r by auto
  show "r = None \<Longrightarrow> lookup (fs s) p = None"
    using r found_Ok [OF o', unfolded open_dir_no_follow_def]
    by (auto dest!: missing_NotFound split: option.splits node.splits)
qed

lemma lookup_above_None: "lookup t p = None \<Longrightarrow> lookup t (p @ q) = None"
  by (rule lookup_append_None)

lemma open_beneath_Ok:
  assumes "open_beneath p ks e s = (Ok r, s')"
  shows "(r = Some x \<longrightarrow> x = p @ ks) \<and> (r = None \<longrightarrow> lookup (fs s) (p @ ks) = None)"
  using assms
proof (induction p ks arbitrary: s rule: open_beneath.induct)
  case (2 p k ks)
  from "2.prems" obtain o' s1 where o': "open_child_dir_no_follow p k e s = (Ok o', s1)"
    and rest: "(case o' of None \<Rightarrow> ret None | Some q \<Rightarrow> open_beneath q ks) e s1 = (Ok r, s')"
    by (auto elim!: bind_OkE)
  note child = open_child_Ok [OF o']
  show ?case
  proof (cases o')
    case None
    with child(3) rest lookup_above_None [of "fs s" "p @ [k]" ks] show ?thesis by simp
  next
    case (Some q)
    with child(2) have q: "q = p @ [k]" by simp
    with Some rest have "open_beneath (p @ [k]) ks e s1 = (Ok r, s')" by simp
    from "2.IH" [OF this [folded q], simplified q] child(1) show ?thesis by simp
  qed
qed auto

lemma bind_of_ret: "bind (ret x) f = f x"
  by (intro ext) (simp add: bind_def ret_def)

subsection \<open>What a removal leaves alone\<close>

lemma stable_bind_ok:
  assumes "stable P m" "\<And>x e s s'. m e s = (Ok x, s') \<Longrightarrow> stable P (f x)"
  shows "stable P (bind m f)"
  unfolding stable_def
proof (intro allI impI)
  fix e and s :: sys
  assume P: "P (fs s)"
  obtain r s' where "bind m f e s = (r, s')" by fastforce
  then have "P (fs s')"
  proof (cases rule: bind_cases)
    case (step x s1)
    with assms P show ?thesis by (blast dest: stableD)
  qed (use assms(1) P in \<open>auto dest: stableD\<close>)
  then show "P (fs (snd (bind m f e s)))" using \<open>bind m f e s = (r, s')\<close> by simp
qed

lemma stable_call_remove:
  assumes "\<And>t x t'. f t = Inr (x, t') \<Longrightarrow> t' = put p None t" "\<And>t. P t \<Longrightarrow> P (put p None t)"
  shows "stable P (call intact f)"
  unfolding stable_def call_def Let_def
  by (auto simp: intact_def assms(2) dest!: assms(1) split: fault.splits sum.splits prod.splits)

lemma stable_remove:
  assumes "\<And>t. P t \<Longrightarrow> P (put p None t)"
  shows "stable P (remove_file p)" "stable P (remove_dir p)"
  unfolding remove_file_def remove_dir_def
  by (rule stable_call_remove [where p = p]; auto simp: assms split: option.splits node.splits list.splits)+

lemmas stable_opens =
  readonly_open [THEN stable_readonly] readonly_open_beneath [THEN stable_readonly]
  readonly_found [OF readonly_observers(1), THEN stable_readonly] readonly_lift_res [THEN stable_readonly]

text \<open>Whatever of the tree survives the removal of single entries below a place survives a removal
  there: its only writes are such removals.\<close>

lemma stable_remove_found:
  "(\<And>p t. prefix (parent @ [k]) p \<Longrightarrow> P t \<Longrightarrow> P (put p None t)) \<Longrightarrow> stable P (remove_found n parent k)"
  "(\<And>p t. strict_prefix directory p \<Longrightarrow> P t \<Longrightarrow> P (put p None t)) \<Longrightarrow>
     stable P (remove_directory_contents es directory)"
proof (induction n parent k and es directory rule: remove_found_remove_directory_contents.induct)
  case (1 es parent k)
  show ?case unfolding remove_found.simps
  proof (rule stable_bind_ok)
    fix x e s s'
    assume "open_child_dir_no_follow parent k e s = (Ok x, s')"
    with open_child_Ok(2) have "x = Some y \<Longrightarrow> y = parent @ [k]" for y by blast
    with 1 show "stable P (case x of
        None \<Rightarrow> raise (Bail ''host-share state directory disappeared during removal'')
      | Some directory \<Rightarrow>
          bind (read_dir directory) (\<lambda>_.
          bind (remove_directory_contents es directory) (\<lambda>_. remove_dir (parent @ [k]))))"
      by (cases x) (auto intro!: stable_rules stable_remove)
  qed (rule stable_opens)
next
  case (5 k n es directory)
  have "strict_prefix directory p" if "prefix (directory @ [k]) p" for p
    using that by (auto simp: prefix_def strict_prefix_def)
  with 5 show ?case by (auto intro!: stable_rules stable_opens split: option.splits)
qed (auto intro!: stable_rules stable_remove)

lemma stable_remove_entry_at:
  "(\<And>p t. prefix (parent @ [k]) p \<Longrightarrow> P t \<Longrightarrow> P (put p None t)) \<Longrightarrow> stable P (remove_entry_at parent k)"
  unfolding remove_entry_at_def
  by (auto intro!: stable_rules stable_opens stable_remove_found(1) split: option.splits)

text \<open>The names of a suffix, as far as it can be removed.\<close>

lemma normal_names_Normal [simp]: "normal_names (map Normal ks) = ks"
  by (induction ks) auto

lemma suffix_names_Ok: "suffix_names p = Inr ks \<Longrightarrow> ks = normal_names p \<and> p = map Normal ks"
  by (induction p arbitrary: ks rule: suffix_names.induct)
    (auto simp: c_name_def split: sum.splits if_splits)

definition share_state :: "path \<Rightarrow> HostShareTarget \<Rightarrow> string \<Rightarrow> path" where
  "share_state root target namespace = root @ [t_tag target, namespace] @ normal_names (t_suffix target)"

lemma remove_last_cases:
  assumes "bind (open_beneath p (butlast ks)) (\<lambda>opened.
      case opened of None \<Rightarrow> ret () | Some parent \<Rightarrow> remove_entry_at parent (last ks)) e s = (r, s')"
    and "ks \<noteq> []"
  shows "(\<forall>x. r \<noteq> Ok x) \<and> fs s' = fs s \<or> fs s' = fs s \<and> lookup (fs s) (p @ ks) = None \<or>
    (\<exists>s1. fs s1 = fs s \<and> remove_entry_at (p @ butlast ks) (last ks) e s1 = (r, s'))"
  using assms(1)
proof (cases rule: bind_cases)
  case (step opened s1)
  have same: "fs s1 = fs s" using readonlyD [OF readonly_open_beneath step(1)] .
  have ks: "p @ ks = (p @ butlast ks) @ [last ks]" using assms(2) by simp
  show ?thesis
  proof (cases opened)
    case None
    with open_beneath_Ok [OF step(1)] have "lookup (fs s) (p @ butlast ks) = None" by simp
    then have "lookup (fs s) (p @ ks) = None" unfolding ks by (rule lookup_append_None)
    with None step same show ?thesis by (auto simp: ret_def)
  next
    case (Some q)
    with open_beneath_Ok [OF step(1), of q] step same show ?thesis by auto
  qed
qed (auto dest: readonlyD [OF readonly_open_beneath])

lemma remove_walk_cases:
  assumes "bind (open_beneath p ns) (\<lambda>opened.
      case opened of
        None \<Rightarrow> ret ()
      | Some parent \<Rightarrow>
          bind (lift_res (suffix_names sfx)) (\<lambda>ks.
          if ks = [] then raise (Bail x)
          else
            bind (open_beneath parent (butlast ks)) (\<lambda>opened.
            case opened of None \<Rightarrow> ret () | Some parent \<Rightarrow> remove_entry_at parent (last ks)))) e s = (r, s')"
  shows "(\<forall>x. r \<noteq> Ok x) \<and> fs s' = fs s \<or>
    fs s' = fs s \<and> lookup (fs s) (p @ ns @ normal_names sfx) = None \<or>
    (\<exists>parent k s1. fs s1 = fs s \<and> remove_entry_at parent k e s1 = (r, s') \<and>
       parent @ [k] = p @ ns @ normal_names sfx)"
  using assms
proof (cases rule: bind_cases)
  case (step opened s1)
  have same: "fs s1 = fs s" using readonlyD [OF readonly_open_beneath step(1)] .
  show ?thesis
  proof (cases opened)
    case None
    with open_beneath_Ok [OF step(1)] have "lookup (fs s) (p @ ns) = None" by simp
    from lookup_append_None [OF this] None step same show ?thesis by (auto simp: ret_def)
  next
    case (Some q)
    with open_beneath_Ok [OF step(1), of q] have q: "q = p @ ns" by simp
    show ?thesis
    proof (cases "suffix_names sfx")
      case (Inl y)
      with step Some same show ?thesis by (auto simp: lift_res_def bind_def raise_def)
    next
      case (Inr ks)
      show ?thesis
      proof (cases "ks = []")
        case True
        with Inr step Some same show ?thesis by (auto simp: lift_res_def bind_def ret_def raise_def)
      next
        case False
        have run: "bind (open_beneath (p @ ns) (butlast ks)) (\<lambda>opened.
             case opened of None \<Rightarrow> ret () | Some parent \<Rightarrow> remove_entry_at parent (last ks)) e s1 = (r, s')"
          using step(2) False unfolding Some option.case Inr lift_res_def sum.case bind_of_ret q by (simp only: if_False)
        have "normal_names sfx = ks" using suffix_names_Ok [OF Inr] by blast
        moreover have "(p @ ns @ butlast ks) @ [last ks] = p @ ns @ ks" using False by simp
        ultimately show ?thesis using remove_last_cases [OF run False] same by (metis append.assoc)
      qed
    qed
  qed
qed (auto dest: readonlyD [OF readonly_open_beneath])

text \<open>How a removal ends: refused or failing before it changes anything, at a place where nothing is,
  or in the removal of the entry.\<close>

lemma remove_entry_beneath_cases:
  assumes "remove_entry_beneath root tag namespace sfx e s = (r, s')"
  shows "(\<forall>x. r \<noteq> Ok x) \<and> fs s' = fs s \<or>
    fs s' = fs s \<and> lookup (fs s) (root @ [tag, namespace] @ normal_names sfx) = None \<or>
    (\<exists>parent k s1. fs s1 = fs s \<and> remove_entry_at parent k e s1 = (r, s') \<and>
       parent @ [k] = root @ [tag, namespace] @ normal_names sfx)"
  using assms unfolding remove_entry_beneath_def
proof (cases rule: bind_cases)
  case (step opened s1)
  note at_root = open_root_Ok [OF step(1)]
  show ?thesis
  proof (cases opened)
    case None
    with at_root(3) have "lookup (fs s) root = None" by simp
    from lookup_append_None [OF this] None step at_root(1) show ?thesis by (auto simp: ret_def)
  next
    case (Some p)
    with at_root(2) have "p = root" by simp
    with Some step have "bind (open_beneath root [tag, namespace]) (\<lambda>opened.
      case opened of
        None \<Rightarrow> ret ()
      | Some parent \<Rightarrow>
          bind (lift_res (suffix_names sfx)) (\<lambda>ks.
          if ks = [] then raise (Bail ''refusing to remove an empty host-share state suffix'')
          else
            bind (open_beneath parent (butlast ks)) (\<lambda>opened.
            case opened of None \<Rightarrow> ret () | Some parent \<Rightarrow> remove_entry_at parent (last ks)))) e s1 = (r, s')"
      by simp
    from remove_walk_cases [OF this] at_root(1) show ?thesis by simp
  qed
qed (auto dest: readonlyD [OF readonly_open(2)])

lemma stable_remove_entry_beneath:
  assumes "\<And>p t. prefix (root @ [tag, namespace] @ normal_names sfx) p \<Longrightarrow> P t \<Longrightarrow> P (put p None t)"
  shows "stable P (remove_entry_beneath root tag namespace sfx)"
  unfolding stable_def
proof (intro allI impI)
  fix e and s :: sys
  assume P: "P (fs s)"
  obtain r s' where run: "remove_entry_beneath root tag namespace sfx e s = (r, s')" by fastforce
  have "P (fs s')"
    using remove_entry_beneath_cases [OF run] P assms stableD [OF stable_remove_entry_at] by metis
  with run show "P (fs (snd (remove_entry_beneath root tag namespace sfx e s)))" by simp
qed

definition spaces :: "string set" where
  "spaces = {''upper'', ''whiteouts''}"

lemma stable_remove_state_path:
  "(\<And>p t. prefix (share_state root target namespace) p \<Longrightarrow> P t \<Longrightarrow> P (put p None t)) \<Longrightarrow>
   stable P (remove_state_path_if_exists root target namespace)"
  unfolding remove_state_path_if_exists_def share_state_def
  by (intro stable_rules stable_opens stable_remove_entry_beneath) auto

lemma stable_remove_path_state:
  assumes "\<And>namespace p t. namespace \<in> spaces \<Longrightarrow> prefix (share_state root target namespace) p \<Longrightarrow>
    P t \<Longrightarrow> P (put p None t)"
  shows "stable P (remove_path_state root target)"
  unfolding remove_path_state_def
  using assms by (intro stable_rules stable_remove_state_path) (auto simp: spaces_def)

lemma keeps_stable: "(\<And>v. stable (\<lambda>t. lookup t q = v) m) \<Longrightarrow> keeps q m"
  by (auto simp: keeps_def stable_def)

lemma lookup_put_below_apart: "prefix p p' \<Longrightarrow> apart p q \<Longrightarrow> lookup (put p' v t) q = lookup t q"
  by (auto simp: prefix_def intro: lookup_put_apart apart_append1)

lemma keeps_remove_state_path:
  "apart (share_state root target namespace) q \<Longrightarrow> keeps q (remove_state_path_if_exists root target namespace)"
  by (intro keeps_stable stable_remove_state_path) (simp add: lookup_put_below_apart)

lemma keeps_remove_path_state:
  "(\<And>namespace. namespace \<in> spaces \<Longrightarrow> apart (share_state root target namespace) q) \<Longrightarrow>
   keeps q (remove_path_state root target)"
  by (intro keeps_stable stable_remove_path_state) (simp add: lookup_put_below_apart)

lemma unshare_confined: "confined (unshare_edit targets)"
  unfolding confined_def unshare_edit_def
proof (intro allI impI keep_rules keeps_remove_path_state)
  fix p q target namespace
  assume "apart p q"
  then show "apart (share_state (p @ [HOST_SHARE_STATE]) target namespace) q"
    unfolding share_state_def append.assoc by (rule apart_append1)
qed

subsection \<open>What a removal removes\<close>

text \<open>Removing never makes anything appear.\<close>

lemma lookup_put_None_absent: "lookup t q = None \<Longrightarrow> lookup (put p None t) q = None"
proof (induction p "None :: node option" t arbitrary: q rule: put.induct)
  case (2 k p es)
  then obtain k' q' where q: "q = k' # q'" by (cases q) auto
  with 2 show ?case by (auto simp: delete_conv' split: option.splits)
qed auto

lemma absent_remove_path_state: "stable (\<lambda>t. lookup t q = None) (remove_path_state root target)"
  by (rule stable_remove_path_state) (rule lookup_put_None_absent)

text \<open>The last system call of a removal that succeeds takes the entry away.\<close>

lemma removed_Ok:
  "remove_file (p @ [k]) e s = (Ok x, s') \<Longrightarrow> lookup (fs s') (p @ [k]) = None"
  "remove_dir (p @ [k]) e s = (Ok x, s') \<Longrightarrow> lookup (fs s') (p @ [k]) = None"
  unfolding remove_file_def remove_dir_def
  by (auto elim!: call_OkE simp: lookup_put_same [OF lookup_parent_dir]
      split: option.splits node.splits list.splits)

lemma remove_found_Ok: "remove_found n parent k e s = (Ok x, s') \<Longrightarrow> lookup (fs s') (parent @ [k]) = None"
  by (cases n) (auto elim!: bind_OkE dest: removed_Ok split: option.splits)

lemma remove_entry_at_Ok:
  assumes "remove_entry_at parent k e s = (Ok x, s')"
  shows "lookup (fs s') (parent @ [k]) = None"
proof -
  from assms obtain st s1 where st: "found (symlink_metadata (parent @ [k])) e s = (Ok st, s1)"
    and rest: "(case st of None \<Rightarrow> ret () | Some n \<Rightarrow> remove_found n parent k) e s1 = (Ok x, s')"
    unfolding remove_entry_at_def by (auto elim!: bind_OkE)
  show ?thesis using rest found_metadata [OF st] by (auto dest: remove_found_Ok split: option.splits)
qed

lemma remove_state_path_Ok:
  assumes "remove_state_path_if_exists root target namespace e s = (Ok x, s')"
  shows "lookup (fs s') (share_state root target namespace) = None"
proof -
  from assms obtain s1 where
    "remove_entry_beneath root (t_tag target) namespace (t_suffix target) e s1 = (Ok x, s')"
    unfolding remove_state_path_if_exists_def by (auto elim!: bind_OkE)
  from remove_entry_beneath_cases [OF this] show ?thesis
    unfolding share_state_def by (metis remove_entry_at_Ok)
qed

lemma remove_path_state_Ok:
  assumes "remove_path_state root target e s = (Ok x, s')" "namespace \<in> spaces"
  shows "lookup (fs s') (share_state root target namespace) = None"
proof -
  from assms(1) obtain y s1 where up: "remove_state_path_if_exists root target ''upper'' e s = (Ok y, s1)"
    and wh: "remove_state_path_if_exists root target ''whiteouts'' e s1 = (Ok x, s')"
    unfolding remove_path_state_def by (auto elim!: bind_OkE split: if_splits)
  have "apart (share_state root target ''whiteouts'') (share_state root target ''upper'')"
    by (simp add: share_state_def)
  from keepsD [OF keeps_remove_state_path [OF this] wh] remove_state_path_Ok [OF up]
    remove_state_path_Ok [OF wh] assms(2)
  show ?thesis by (auto simp: spaces_def)
qed

lemma unshare_edit_Ok:
  assumes "each (remove_path_state root) targets e s = (Ok x, s')"
    and "target \<in> set targets" "namespace \<in> spaces"
  shows "lookup (fs s') (share_state root target namespace) = None"
  using assms(1,2)
proof (induction targets arbitrary: s)
  case (Cons a targets)
  then obtain y s1 where first: "remove_path_state root a e s = (Ok y, s1)"
    and rest: "each (remove_path_state root) targets e s1 = (Ok x, s')"
    by (auto elim!: bind_OkE)
  show ?case
  proof (cases "target \<in> set targets")
    case True
    with Cons.IH rest show ?thesis by blast
  next
    case False
    with Cons.prems(2) first assms(3) have gone: "lookup (fs s1) (share_state root target namespace) = None"
      by (auto intro: remove_path_state_Ok)
    have "stable (\<lambda>t. lookup t (share_state root target namespace) = None) (each (remove_path_state root) targets)"
      by (induction targets) (auto intro!: stable_rules absent_remove_path_state)
    from stableD [OF this rest gone] show ?thesis .
  qed
qed simp

subsection \<open>When nothing is in the way\<close>

lemma missing_child: "is_dir t p \<Longrightarrow> lookup t (p @ [k]) = None \<Longrightarrow> missing_kind t (p @ [k]) = NotFound"
proof (induction p arbitrary: t)
  case Nil
  then show ?case by (cases t) (auto simp: is_dir_def split: option.splits)
next
  case (Cons a p)
  then show ?case by (cases t) (auto simp: is_dir_def split: option.splits)
qed

lemma found_metadata_calm:
  assumes "calm e" "is_dir (fs s) p"
  shows "found (symlink_metadata (p @ [k])) e s = (Ok (lookup (fs s) (p @ [k])), ticked s)"
  using assms missing_child [OF assms(2), of k]
  by (auto simp: found_def symlink_metadata_def observe_calm run_rules split: option.splits)

lemma open_child_calm:
  assumes "calm e" "is_dir (fs s) p" "exists_at (fs s) (p @ [k]) \<Longrightarrow> is_dir (fs s) (p @ [k])"
  shows "open_child_dir_no_follow p k e s =
    (Ok (if exists_at (fs s) (p @ [k]) then Some (p @ [k]) else None), ticked s)"
  using assms missing_child [OF assms(2), of k]
  by (auto simp: open_child_dir_no_follow_def open_dir_no_follow_def found_def observe_calm run_rules
      exists_at_def is_dir_def split: option.splits node.splits)

lemma empty_dir: "is_dir t p \<Longrightarrow> (\<And>k. lookup t (p @ [k]) = None) \<Longrightarrow> lookup t p = Some (Sub [])"
proof -
  assume "is_dir t p" and none: "\<And>k. lookup t (p @ [k]) = None"
  then obtain es where es: "lookup t p = Some (Sub es)" by (auto simp: is_dir_def)
  have "map_of es k = None" for k using none [of k] es by (auto simp: lookup_append split: option.splits)
  then have "es = []" by (cases es) (auto, metis option.distinct(1))
  with es show ?thesis by simp
qed

lemma is_dir_put_None: "is_dir t d \<Longrightarrow> \<not> prefix p d \<Longrightarrow> is_dir (put p None t) d"
  by (cases "prefix d p") (auto simp: apart_def strict_prefix_def is_dir_put_apart intro: is_dir_put_above)

lemma is_dir_remove_found:
  "stable (\<lambda>t. is_dir t parent) (remove_found n parent k)"
  by (rule stable_remove_found) (auto intro!: is_dir_put_None simp: prefix_def)

lemma is_dir_remove_contents:
  "stable (\<lambda>t. is_dir t directory) (remove_directory_contents es directory)"
  by (rule stable_remove_found) (auto intro!: is_dir_put_None simp: prefix_def strict_prefix_def)

lemma remove_file_calm:
  "calm e \<Longrightarrow> lookup (fs s) p = Some (Lnk l) \<Longrightarrow> \<exists>s'. remove_file p e s = (Ok (), s')"
  "calm e \<Longrightarrow> lookup (fs s) p = Some (Reg c b) \<Longrightarrow> \<exists>s'. remove_file p e s = (Ok (), s')"
  by (simp_all add: remove_file_def call_calm)

lemma remove_dir_calm:
  "calm e \<Longrightarrow> lookup (fs s) p = Some (Sub []) \<Longrightarrow> \<exists>s'. remove_dir p e s = (Ok (), s')"
  by (simp add: remove_dir_def call_calm)

lemma keeps_remove_found: "j \<noteq> k \<Longrightarrow> keeps (parent @ [j]) (remove_found n parent k)"
  by (intro keeps_stable stable_remove_found(1)) (auto intro: lookup_put_below_apart)

text \<open>The contents of a directory are removed entirely, so that the directory itself can be.\<close>

lemma remove_found_calm:
  fixes s :: sys
  shows "calm e \<Longrightarrow> lookup (fs s) (parent @ [k]) = Some n \<Longrightarrow> \<exists>s'. remove_found n parent k e s = (Ok (), s')"
    and "calm e \<Longrightarrow> is_dir (fs s) directory \<Longrightarrow>
      (\<And>j m. lookup (fs s) (directory @ [j]) = Some m \<Longrightarrow> map_of es j = Some m) \<Longrightarrow>
      \<exists>s'. remove_directory_contents es directory e s = (Ok (), s') \<and> (\<forall>j. lookup (fs s') (directory @ [j]) = None)"
proof (induction n parent k and es directory arbitrary: s and s rule: remove_found_remove_directory_contents.induct)
  case (1 es parent k)
  let ?d = "parent @ [k]"
  from 1 have at: "exists_at (fs s) ?d" "is_dir (fs s) ?d" "is_dir (fs s) parent"
    by (auto simp: exists_at_def is_dir_def dest: lookup_parent_dir)
  with 1 have opened: "open_child_dir_no_follow parent k e s = (Ok (Some ?d), ticked s)"
    by (simp add: open_child_calm)
  obtain ds s1 where listed: "read_dir ?d e (ticked s) = (Ok ds, s1)" "fs s1 = fs s"
    using 1 by (auto simp: read_dir_def observe_calm)
  have "lookup (fs s) (?d @ [j]) = Some m \<Longrightarrow> map_of es j = Some m" for j m
    using "1.prems"(2) lookup_append [of "fs s" ?d "[j]"] by (auto split: option.splits)
  then have "\<exists>s2. remove_directory_contents es ?d e s1 = (Ok (), s2) \<and> (\<forall>j. lookup (fs s2) (?d @ [j]) = None)"
    using "1.prems" at listed by (intro "1.IH") auto
  then obtain s2 where
    emptied: "remove_directory_contents es ?d e s1 = (Ok (), s2)" "\<And>j. lookup (fs s2) (?d @ [j]) = None"
    by auto
  have "is_dir (fs s2) ?d"
    using stableD [OF is_dir_remove_contents emptied(1)] at listed by simp
  from remove_dir_calm [OF "1.prems"(1) empty_dir [OF this emptied(2)]] obtain s3 where
    "remove_dir ?d e s2 = (Ok (), s3)" by blast
  with opened listed emptied show ?case by (simp add: bind_def)
next
  case (5 k n es directory)
  let ?st = "lookup (fs s) (directory @ [k])"
  have st: "found (symlink_metadata (directory @ [k])) e s = (Ok ?st, ticked s)"
    using 5 by (simp add: found_metadata_calm)
  show ?case
  proof (cases ?st)
    case None
    have "lookup (fs s) (directory @ [j]) = Some m \<Longrightarrow> map_of es j = Some m" for j m
      using "5.prems"(3) [of j m] None by (auto split: if_splits)
    then have "\<exists>s2. remove_directory_contents es directory e (ticked s) = (Ok (), s2) \<and>
        (\<forall>j. lookup (fs s2) (directory @ [j]) = None)"
      using "5.prems" by (intro "5.IH"(2)) auto
    then obtain s2 where
      "remove_directory_contents es directory e (ticked s) = (Ok (), s2)"
      "\<forall>j. lookup (fs s2) (directory @ [j]) = None" by auto
    with st None show ?thesis by (simp add: bind_def ret_def)
  next
    case (Some m)
    with "5.prems"(3) have n: "lookup (fs s) (directory @ [k]) = Some n" by fastforce
    then have "\<exists>s1. remove_found n directory k e (ticked s) = (Ok (), s1)"
      using "5.prems" by (intro "5.IH"(1)) auto
    then obtain s1 where gone: "remove_found n directory k e (ticked s) = (Ok (), s1)" by auto
    have others: "lookup (fs s1) (directory @ [j]) = lookup (fs s) (directory @ [j])" if "j \<noteq> k" for j
      using keepsD [OF keeps_remove_found [OF that] gone] by simp
    have "is_dir (fs s1) directory"
      using stableD [OF is_dir_remove_found gone] "5.prems" by simp
    moreover have "lookup (fs s1) (directory @ [j]) = Some m' \<Longrightarrow> map_of es j = Some m'" for j m'
      using others [of j] remove_found_Ok [OF gone] "5.prems"(3) [of j m'] by (cases "j = k") auto
    ultimately have "\<exists>s2. remove_directory_contents es directory e s1 = (Ok (), s2) \<and>
        (\<forall>j. lookup (fs s2) (directory @ [j]) = None)"
      using "5.prems" by (intro "5.IH"(2)) auto
    then obtain s2 where
      "remove_directory_contents es directory e s1 = (Ok (), s2)"
      "\<forall>j. lookup (fs s2) (directory @ [j]) = None" by auto
    with st Some gone show ?thesis by (simp add: bind_def)
  qed
next
  case (4 directory)
  then show ?case by (auto simp: ret_def) (metis option.exhaust)
qed (simp_all add: remove_file_calm)

text \<open>Nothing but directories on the way from one place to another below it.\<close>

definition unobstructed :: "node \<Rightarrow> path \<Rightarrow> path \<Rightarrow> bool" where
  "unobstructed t from1 q \<longleftrightarrow>
     list_all (\<lambda>j. exists_at t (take j q) \<longrightarrow> is_dir t (take j q)) [length from1..<length q]"

lemma unobstructedD:
  assumes "unobstructed t from1 q" "prefix from1 p" "strict_prefix p q" "exists_at t p"
  shows "is_dir t p"
proof -
  have p: "p = take (length p) q" using assms(3) by (auto simp: strict_prefix_def prefix_def)
  moreover have "length p \<in> set [length from1..<length q]"
    using assms(2,3) by (auto simp: prefix_length_le prefix_length_less)
  ultimately show ?thesis using assms(1,4) unfolding unobstructed_def list_all_iff by metis
qed

lemma unobstructed_remove:
  assumes "unobstructed t from1 q"
  shows "unobstructed (put p None t) from1 q"
proof -
  have "is_dir (put p None t) r" if "exists_at (put p None t) r" "exists_at t r \<longrightarrow> is_dir t r" for r
  proof -
    have "is_dir t r" using that lookup_put_None_absent by (auto simp: exists_at_def)
    show ?thesis
    proof (cases "prefix p r")
      case False
      with \<open>is_dir t r\<close> show ?thesis by (rule is_dir_put_None)
    next
      case True
      then obtain u where r: "r = p @ u" by (auto simp: prefix_def)
      show ?thesis
      proof (cases p rule: rev_cases)
        case Nil
        with \<open>is_dir t r\<close> show ?thesis by simp
      next
        case (snoc p' k)
        show ?thesis
        proof (cases "is_dir t p'")
          case True
          with lookup_put_None_below [OF True, of k u] that(1) r snoc show ?thesis
            by (simp add: exists_at_def)
        next
          case False
          with \<open>is_dir t r\<close> snoc show ?thesis by (simp add: put_no_parent)
        qed
      qed
    qed
  qed
  with assms show ?thesis unfolding unobstructed_def list_all_iff by blast
qed

lemma open_beneath_calm:
  assumes "calm e" "is_dir (fs s) p" "unobstructed (fs s) p (p @ ks @ [k])"
  shows "\<exists>r s'. open_beneath p ks e s = (Ok r, s') \<and> fs s' = fs s \<and> (r \<noteq> None \<longrightarrow> is_dir (fs s) (p @ ks))"
  using assms
proof (induction p ks arbitrary: s rule: open_beneath.induct)
  case (1 p)
  then show ?case by (simp add: ret_def)
next
  case (2 p a ks)
  let ?q = "p @ [a]"
  have child: "exists_at (fs s) ?q \<Longrightarrow> is_dir (fs s) ?q"
    using unobstructedD [OF "2.prems"(3), of ?q] by (auto simp: strict_prefix_def)
  then have opened: "open_child_dir_no_follow p a e s =
      (Ok (if exists_at (fs s) ?q then Some ?q else None), ticked s)"
    using "2.prems" by (simp add: open_child_calm)
  show ?case
  proof (cases "exists_at (fs s) ?q")
    case True
    have "unobstructed (fs (ticked s)) ?q (?q @ ks @ [k])"
      using "2.prems"(3) by (auto simp: unobstructed_def list_all_iff)
    with True child "2.prems" have "\<exists>r s'. open_beneath ?q ks e (ticked s) = (Ok r, s') \<and>
        fs s' = fs (ticked s) \<and> (r \<noteq> None \<longrightarrow> is_dir (fs (ticked s)) (?q @ ks))"
      by (intro "2.IH") auto
    with True opened show ?thesis by (auto simp: bind_def)
  next
    case False
    with opened show ?thesis by (simp add: bind_def ret_def)
  qed
qed

lemma remove_entry_at_calm:
  assumes "calm e" "is_dir (fs s) parent"
  shows "\<exists>s'. remove_entry_at parent k e s = (Ok (), s')"
proof (cases "lookup (fs s) (parent @ [k])")
  case None
  with found_metadata_calm [OF assms, of k] show ?thesis
    by (simp add: remove_entry_at_def bind_def ret_def)
next
  case (Some n)
  then have "lookup (fs (ticked s)) (parent @ [k]) = Some n" by simp
  from remove_found_calm(1) [OF assms(1) this] Some found_metadata_calm [OF assms, of k]
  show ?thesis by (auto simp: remove_entry_at_def bind_def)
qed

lemma open_root_calm:
  assumes "calm e" "is_dir (fs s) d" "exists_at (fs s) (d @ [h]) \<Longrightarrow> is_dir (fs s) (d @ [h])"
  shows "open_root_dir_no_follow (d @ [h]) e s =
    (Ok (if exists_at (fs s) (d @ [h]) then Some (d @ [h]) else None), ticked s)"
  using assms missing_child [OF assms(2), of h]
  by (auto simp: open_root_dir_no_follow_def open_dir_no_follow_def found_def observe_calm run_rules
      exists_at_def is_dir_def split: option.splits node.splits)

lemma suffix_names_plain:
  "list_all (\<lambda>k. CHR 0x00 \<notin> set k) ks \<Longrightarrow> suffix_names (map Normal ks) = Inr ks"
  by (induction ks) (auto simp: c_name_def)

lemma unobstructed_mono:
  assumes "unobstructed t from1 (q @ r)" "prefix from1 from2"
  shows "unobstructed t from2 q"
  unfolding unobstructed_def list_all_iff
proof (intro ballI impI)
  fix j
  assume j: "j \<in> set [length from2..<length q]" and there: "exists_at t (take j q)"
  have "j \<in> set [length from1..<length (q @ r)]" using j prefix_length_le [OF assms(2)] by simp
  with assms(1) have "exists_at t (take j (q @ r)) \<longrightarrow> is_dir t (take j (q @ r))"
    unfolding unobstructed_def list_all_iff by blast
  with j there show "is_dir t (take j q)" by simp
qed

lemma bind_after: "m e s = (Ok x, s') \<Longrightarrow> bind m f e s = f x e s'"
  by (simp add: bind_def)

lemma remove_entry_beneath_calm:
  assumes "calm e" "is_dir (fs s) d" "ks \<noteq> []" "list_all (\<lambda>k. CHR 0x00 \<notin> set k) ks"
    and "unobstructed (fs s) (d @ [h]) (d @ [h, tag, namespace] @ ks)"
  shows "\<exists>s'. remove_entry_beneath (d @ [h]) tag namespace (map Normal ks) e s = (Ok (), s')"
proof -
  define root where "root = d @ [h]"
  define space where "space = root @ [tag, namespace]"
  have clear: "unobstructed (fs s) root (space @ ks)" using assms(5) by (simp add: root_def space_def)
  have at_root: "is_dir (fs s) root" if "exists_at (fs s) root"
    using unobstructedD [OF clear _ _ that] by (simp add: space_def strict_prefix_def)
  have opened: "open_root_dir_no_follow root e s = (Ok (if exists_at (fs s) root then Some root else None), ticked s)"
    using open_root_calm [OF assms(1,2), of h] at_root unfolding root_def by blast
  note start = remove_entry_beneath_def [of root tag namespace "map Normal ks"] bind_after [of "open_root_dir_no_follow root" e s, OF opened]
  have "\<exists>s'. remove_entry_beneath root tag namespace (map Normal ks) e s = (Ok (), s')"
  proof (cases "exists_at (fs s) root")
    case False
    then show ?thesis unfolding start by (simp add: ret_def)
  next
    case True
    have "unobstructed (fs s) root ((root @ [tag, namespace] @ [hd ks]) @ tl ks)"
      using clear assms(3) by (simp add: space_def)
    then have "unobstructed (fs (ticked s)) root (root @ [tag, namespace] @ [hd ks])"
      using unobstructed_mono by fastforce
    with open_beneath_calm [OF assms(1) _ this] at_root [OF True]
    obtain r s1 where walk: "open_beneath root [tag, namespace] e (ticked s) = (Ok r, s1)" "fs s1 = fs s"
      and at_space: "r \<noteq> None \<longrightarrow> is_dir (fs s1) space" by (auto simp: space_def)
    show ?thesis
    proof (cases r)
      case None
      with True show ?thesis unfolding start by (simp add: bind_after [of "open_beneath root [tag, namespace]" e "ticked s", OF walk(1)] ret_def del: open_beneath.simps)
    next
      case (Some p)
      with open_beneath_Ok [OF walk(1), of p] have p: "p = space" by (simp add: space_def)
      have "unobstructed (fs s1) space (space @ butlast ks @ [last ks])"
        using unobstructed_mono [of "fs s" root "space @ ks" "[]" space] clear walk(2) assms(3)
        by (simp add: space_def)
      with open_beneath_calm [OF assms(1) _ this] at_space Some
      obtain r' s2 where walk': "open_beneath space (butlast ks) e s1 = (Ok r', s2)"
        and parent: "r' \<noteq> None \<longrightarrow> is_dir (fs s2) (space @ butlast ks)" by auto
      have "\<exists>s3. (case r' of None \<Rightarrow> ret () | Some parent \<Rightarrow> remove_entry_at parent (last ks)) e s2 = (Ok (), s3)"
      proof (cases r')
        case (Some q)
        with open_beneath_Ok [OF walk', of q] parent remove_entry_at_calm [OF assms(1)] show ?thesis by auto
      qed (simp add: ret_def)
      with True Some p assms(3) show ?thesis
        unfolding start
        by (simp add: bind_after [of "open_beneath root [tag, namespace]" e "ticked s", OF walk(1)] bind_after [of "open_beneath space (butlast ks)" e s1, OF walk'] suffix_names_plain [OF assms(4)]
            lift_res_def bind_of_ret del: open_beneath.simps)
    qed
  qed
  then show ?thesis by (simp add: root_def)
qed

subsection \<open>The targets of a path\<close>

definition plain :: "rust_path \<Rightarrow> bool" where
  "plain p \<longleftrightarrow> (\<exists>ks. p = RootDir # map Normal ks)"

lemma plain_steps:
  "plain p \<Longrightarrow> plain (foldl (normalize_step True) p q)"
proof (induction q arbitrary: p)
  case (Cons c q)
  then obtain ks where p: "p = RootDir # map Normal ks" by (auto simp: plain_def)
  have "plain (normalize_step True p c)"
  proof (cases c)
    case ParentDir
    then show ?thesis using p by (cases ks rule: rev_cases) (auto simp: plain_def)
  next
    case (Normal k)
    then have "normalize_step True p c = RootDir # map Normal (ks @ [k])" using p by simp
    then show ?thesis unfolding plain_def by blast
  qed (use p in \<open>auto simp: plain_def\<close>)
  with Cons.IH show ?case by simp
qed simp

lemma plain_normalize: "is_absolute p \<Longrightarrow> plain (lexical_normalize p)"
  by (cases p) (auto simp: is_absolute_def lexical_normalize_def intro: plain_steps simp: plain_def [of "[RootDir]"])

lemma normalize_plain: "lexical_normalize (absolute_path ks) = absolute_path ks"
proof -
  have "foldl (normalize_step True) p (map Normal ks) = p @ map Normal ks" for p
    by (induction ks arbitrary: p) auto
  from this [of "[RootDir]"] show ?thesis by (simp add: lexical_normalize_def absolute_path_def is_absolute_def)
qed

lemma plain_rest:
  assumes "plain p" "strip_prefix p h = Some rest" "h \<noteq> []"
  shows "h @ rest = p \<and> (\<exists>ks. rest = map Normal ks)"
proof -
  from assms obtain ks where p: "p = RootDir # map Normal ks" by (auto simp: plain_def)
  from assms(2) have "h @ rest = p" by (auto simp: strip_prefix_def starts_with_def split: if_splits) (metis append_take_drop_id)
  moreover from this p assms(3) have "set rest \<subseteq> Normal ` set ks" by (cases h) (auto, metis Un_iff image_set set_append)
  then have "\<exists>ks. rest = map Normal ks" by (induction rest) (auto, metis list.simps(9))
  ultimately show ?thesis by blast
qed

text \<open>A target of a share names the host path it is about, by a suffix of plain names.\<close>

definition target_ok :: "HostShareTarget \<Rightarrow> bool" where
  "target_ok t \<longleftrightarrow>
     t_tag t \<in> {''home'', ''cwd''} \<and> share_root t @ t_suffix t = t_absolute t \<and>
     t_suffix t = map Normal (normal_names (t_suffix t))"

lemma targets_normalized_ok:
  assumes "t \<in> set (targets_for_normalized_absolute_path p cwd home)"
    and "plain p" "cwd \<noteq> []" "home \<noteq> Some []"
  shows "target_ok t"
proof -
  have "\<exists>tag h rest. tag \<in> {''home'', ''cwd''} \<and> h \<noteq> [] \<and> strip_prefix p h = Some rest \<and>
    t = \<lparr>t_tag = tag, share_root = h, t_suffix = rest, t_absolute = p\<rparr>"
    using assms(1,3,4)
    by (cases home) (auto simp: targets_for_normalized_absolute_path_def split: option.splits if_splits)
  then obtain tag h rest where t: "tag \<in> {''home'', ''cwd''}" "h \<noteq> []" "strip_prefix p h = Some rest"
    "t = \<lparr>t_tag = tag, share_root = h, t_suffix = rest, t_absolute = p\<rparr>" by blast
  from plain_rest [OF assms(2) t(3,2)] t(1,4) show ?thesis by (auto simp: target_ok_def)
qed

lemma targets_for_path_ok:
  assumes "targets_for_path_with_home p cwd home = Inr targets" "t \<in> set targets"
  shows "target_ok t"
proof -
  let ?cwd = "lexical_normalize cwd"
  let ?p = "if is_absolute p then lexical_normalize p else lexical_normalize (path_join ?cwd p)"
  from assms have cwd: "is_absolute ?cwd"
    and t: "t \<in> set (targets_for_normalized_absolute_path ?p ?cwd (normalized_home home))"
    by (auto simp: targets_for_path_with_home_def Let_def split: if_splits)
  have "plain ?p"
    using cwd by (auto intro!: plain_normalize simp: path_join_def is_absolute_def)
  moreover have "?cwd \<noteq> []" using cwd by (simp add: is_absolute_def)
  moreover have "normalized_home home \<noteq> Some []"
    by (cases home) (auto simp: is_absolute_def)
  ultimately show ?thesis by (rule targets_normalized_ok [OF t])
qed

lemma checked_state_path_ok:
  assumes "target_ok t"
  shows "checked_state_path root t namespace = Inr (absolute_path (share_state root t namespace))"
proof -
  obtain ks where ks: "t_suffix t = map Normal ks" using assms unfolding target_ok_def by blast
  have plain_suffix: "\<not> is_absolute (map Normal ks)" "\<not> list_ex (\<lambda>c. c = RootDir \<or> c = ParentDir) (map Normal ks)"
    by (cases ks) (auto simp: is_absolute_def list_ex_iff)
  have joined: "path_join (absolute_path q) (map Normal l) = absolute_path (q @ l)" for q l
    by (cases l) (auto simp: path_join_def absolute_path_def is_absolute_def filter_id_conv)
  have one: "path_join (absolute_path q) [Normal k] = absolute_path (q @ [k])" for q k
    using joined [of q "[k]"] by simp
  have "starts_with (absolute_path (q @ l)) (absolute_path q)" for q l
    by (simp add: absolute_path_def starts_with_def)
  from this [of "root @ [t_tag t, namespace]" ks] assms show ?thesis
    unfolding checked_state_path_def Let_def ks
    by (auto simp: plain_suffix one joined normalize_plain share_state_def ks target_ok_def)
qed

subsection \<open>Unsharing a path\<close>

text \<open>What a removal needs to succeed when no system call fails: a path below the share, names that a
  system call takes, and nothing but directories above the entry to remove.\<close>

definition can_remove :: "node \<Rightarrow> path \<Rightarrow> HostShareTarget \<Rightarrow> bool" where
  "can_remove t root target \<longleftrightarrow>
     t_suffix target \<noteq> [] \<and>
     list_all (\<lambda>k. CHR 0x00 \<notin> set k) (normal_names (t_suffix target)) \<and>
     unobstructed t root (share_state root target ''upper'') \<and>
     unobstructed t root (share_state root target ''whiteouts'')"

lemma can_remove_put: "can_remove t root target \<Longrightarrow> can_remove (put p None t) root target"
  by (simp add: can_remove_def unobstructed_remove)

lemma remove_state_path_calm:
  assumes "calm e" "is_dir (fs s) d" "target_ok t" "can_remove (fs s) (d @ [h]) t" "namespace \<in> spaces"
  shows "\<exists>s'. remove_state_path_if_exists (d @ [h]) t namespace e s = (Ok (), s')"
proof -
  let ?ks = "normal_names (t_suffix t)"
  have sfx: "t_suffix t = map Normal ?ks" using assms(3) by (simp add: target_ok_def)
  have "?ks \<noteq> []" using assms(4) sfx by (auto simp: can_remove_def)
  moreover have "unobstructed (fs s) (d @ [h]) (d @ [h, t_tag t, namespace] @ ?ks)"
    using assms(4,5) by (auto simp: can_remove_def spaces_def share_state_def)
  ultimately obtain s' where
    "remove_entry_beneath (d @ [h]) (t_tag t) namespace (map Normal ?ks) e s = (Ok (), s')"
    using remove_entry_beneath_calm [OF assms(1,2)] assms(4) unfolding can_remove_def by blast
  then show ?thesis
    unfolding remove_state_path_if_exists_def checked_state_path_ok [OF assms(3)] lift_res_def sum.case
      bind_of_ret sfx [symmetric] by blast
qed

lemma survives_removal:
  fixes d :: path
  assumes "prefix (share_state (d @ [h]) t namespace) p"
    "is_dir t' d \<and> list_all (can_remove t' (d @ [h])) ts"
  shows "is_dir (put p None t') d \<and> list_all (can_remove (put p None t') (d @ [h])) ts"
proof -
  have "\<not> prefix p d" using assms(1) by (auto simp: share_state_def prefix_def)
  with assms(2) show ?thesis by (auto simp: list_all_iff can_remove_put is_dir_put_None)
qed

lemma unshare_calm:
  fixes s :: sys
  assumes "calm e" "is_dir (fs s) d" "list_all target_ok ts" "list_all (can_remove (fs s) (d @ [h])) ts"
  shows "\<exists>s'. each (remove_path_state (d @ [h])) ts e s = (Ok (), s')"
  using assms(2-4)
proof (induction ts arbitrary: s)
  case Nil
  then show ?case by (simp add: ret_def)
next
  case (Cons t ts)
  let ?P = "\<lambda>t'. is_dir t' d \<and> list_all (can_remove t' (d @ [h])) (t # ts)"
  have P: "?P (fs s)" using Cons.prems by simp
  have stable: "stable ?P (remove_state_path_if_exists (d @ [h]) t namespace)" for namespace
    by (rule stable_remove_state_path) (rule survives_removal)
  from Cons.prems assms(1) obtain s1 where
    up: "remove_state_path_if_exists (d @ [h]) t ''upper'' e s = (Ok (), s1)"
    using remove_state_path_calm [of e s d t h "''upper''"] by (auto simp: spaces_def)
  have P1: "?P (fs s1)" using stableD [OF stable up P] .
  with Cons.prems assms(1) obtain s2 where
    wh: "remove_state_path_if_exists (d @ [h]) t ''whiteouts'' e s1 = (Ok (), s2)"
    using remove_state_path_calm [of e s1 d t h "''whiteouts''"] by (auto simp: spaces_def)
  have P2: "?P (fs s2)" using stableD [OF stable wh P1] .
  with Cons.IH [of s2] Cons.prems obtain s3 where rest: "each (remove_path_state (d @ [h])) ts e s2 = (Ok (), s3)" by auto
  have "t_suffix t \<noteq> []" using Cons.prems by (simp add: can_remove_def)
  then have "remove_path_state (d @ [h]) t e s = (Ok (), s2)"
    using up wh by (simp add: remove_path_state_def bind_def)
  with rest show ?case by (simp add: bind_def)
qed

lemma keeps_unshare:
  assumes "\<And>t namespace. t \<in> set targets \<Longrightarrow> namespace \<in> spaces \<Longrightarrow>
    apart (share_state (staging @ [HOST_SHARE_STATE]) t namespace) q"
  shows "keeps q (unshare_edit targets staging)"
  unfolding unshare_edit_def using assms by (intro keep_rules keeps_remove_path_state)

text \<open>The whole command is a sequence of operations of the store.\<close>

lemma unshare_reachable:
  assumes "fs_unshare_remove d p cwd home e s = (r, s')"
  shows "reachable (codec e) d s s'"
proof (cases "targets_for_path_with_home p cwd home")
  case (Inl x)
  with assms show ?thesis by (simp add: fs_unshare_remove_def lift_res_def bind_def raise_def)
next
  case (Inr targets)
  have performed: "reachable (codec e) d s0 s1" if "perform d op e s0 = (r0, s1)" "op_ok d op" for op s0 r0 s1
    using that by (blast intro: r_into_rtranclp store_step.operation)
  show ?thesis
  proof (cases "targets = []")
    case True
    with Inr assms show ?thesis by (simp add: fs_unshare_remove_def lift_res_def bind_of_ret raise_def)
  next
    case False
    with Inr assms have "bind (recover d) (\<lambda>_. derive d (unshare_edit targets)) e s = (r, s')"
      by (simp add: fs_unshare_remove_def lift_res_def bind_of_ret)
    then show ?thesis
    proof (cases rule: bind_cases)
      case (step x s1)
      have "perform d Recover e s = (Ok (), s1)" using step(1) by (simp add: void_def bind_def ret_def)
      from performed [OF this] have "reachable (codec e) d s s1" by simp
      moreover obtain r1 where "perform d (Derive (unshare_edit targets)) e s1 = (r1, s')"
        using step(2) by (cases r) (auto simp: void_def bind_def ret_def)
      from performed [OF this] have "reachable (codec e) d s1 s'" by (simp add: unshare_confined)
      ultimately show ?thesis by (rule rtranclp_trans)
    next
      case (err x)
      then have "perform d Recover e s = (Err x, s')" by (simp add: void_def bind_def)
      from performed [OF this] show ?thesis by simp
    next
      case kill
      then have "perform d Recover e s = (Killed, s')" by (simp add: void_def bind_def)
      from performed [OF this] show ?thesis by simp
    qed
  qed
qed

text \<open>C10: removing the host-share state of a path touches only that state. Whatever fails, everything
  but the entries of the path in the \<open>upper\<close> and \<open>whiteouts\<close> directories of its shares is left as it was,
  and the command as a whole is a sequence of store operations; when the removal succeeds none of these
  entries is left; and it does succeed when no system call fails and nothing but directories is above the
  entries. The targets it works on are about the path named on the command line.\<close>

theorem unshare_removes_only_its_state:
  assumes "targets_for_path_with_home p cwd home = Inr targets"
    and "unshare_edit targets staging e s = (r, s')"
  shows "(\<forall>q. (\<forall>t\<in>set targets. \<forall>namespace\<in>spaces.
              apart (share_state (staging @ [HOST_SHARE_STATE]) t namespace) q) \<longrightarrow>
            lookup (fs s') q = lookup (fs s) q) \<and>
    (r = Ok () \<longrightarrow> (\<forall>t\<in>set targets. \<forall>namespace\<in>spaces.
       lookup (fs s') (share_state (staging @ [HOST_SHARE_STATE]) t namespace) = None)) \<and>
    (calm e \<and> is_dir (fs s) staging \<and>
       list_all (can_remove (fs s) (staging @ [HOST_SHARE_STATE])) targets \<longrightarrow> r = Ok ()) \<and>
    (\<forall>t\<in>set targets. share_root t @ t_suffix t = t_absolute t) \<and>
    (\<forall>r2 s2. fs_unshare_remove d p cwd home e s = (r2, s2) \<longrightarrow> reachable (codec e) d s s2)"
proof (intro conjI allI ballI impI)
  fix q
  assume "\<forall>t\<in>set targets. \<forall>namespace\<in>spaces. apart (share_state (staging @ [HOST_SHARE_STATE]) t namespace) q"
  then show "lookup (fs s') q = lookup (fs s) q" using keepsD [OF keeps_unshare assms(2)] by blast
next
  fix t namespace
  assume "r = Ok ()" "t \<in> set targets" "namespace \<in> spaces"
  with assms(2) show "lookup (fs s') (share_state (staging @ [HOST_SHARE_STATE]) t namespace) = None"
    unfolding unshare_edit_def by (blast intro: unshare_edit_Ok)
next
  assume "calm e \<and> is_dir (fs s) staging \<and> list_all (can_remove (fs s) (staging @ [HOST_SHARE_STATE])) targets"
  moreover have "list_all target_ok targets" using targets_for_path_ok [OF assms(1)] by (simp add: list_all_iff)
  ultimately show "r = Ok ()" using unshare_calm assms(2) unfolding unshare_edit_def by fastforce
next
  fix t assume "t \<in> set targets"
  with targets_for_path_ok [OF assms(1)] show "share_root t @ t_suffix t = t_absolute t" by (simp add: target_ok_def)
next
  fix r2 s2
  assume "fs_unshare_remove d p cwd home e s = (r2, s2)"
  then show "reachable (codec e) d s s2" by (rule unshare_reachable)
qed

definition share_tree :: node where
  "share_tree =
     Sub [(''st'', Sub
       [(''rootfs.ext4'', Reg ''disk'' True),
        (''host-share-state'', Sub
          [(''home'', Sub
             [(''upper'', Sub
                [(''src'', Sub [(''a'', Reg ''x'' False), (''b'', Sub [(''c'', Lnk ''/etc/passwd'')])]),
                 (''keep'', Reg ''y'' False)]),
              (''whiteouts'', Sub [(''src'', Reg [] False)])])])])]"

definition share_world :: sys where
  "share_world = \<lparr>fs = share_tree, tick = 0, seq = 0\<rparr>"

definition share_targets :: "HostShareTarget list" where
  "share_targets =
     [\<lparr>t_tag = ''home'', share_root = [RootDir, Normal ''h''], t_suffix = [Normal ''src''],
       t_absolute = [RootDir, Normal ''h'', Normal ''src'']\<rparr>]"

theorem unshare_removes_only_its_state_witness:
  "fst (unshare_edit share_targets [''st''] sample_env share_world) = Ok () \<and>
   lookup (fs (snd (unshare_edit share_targets [''st''] sample_env share_world)))
     [''st'', ''host-share-state'', ''home'', ''upper'', ''src''] = None \<and>
   lookup (fs (snd (unshare_edit share_targets [''st''] sample_env share_world)))
     [''st'', ''host-share-state'', ''home'', ''upper'', ''keep''] = Some (Reg ''y'' False)"
proof -
  let ?run = "unshare_edit share_targets [''st''] sample_env share_world"
  have targets: "targets_for_path_with_home (path_components ''./src'') (path_components ''/h'')
      (Some (path_components ''/h/'')) = Inr share_targets"
    by code_simp
  have start: "is_dir (fs share_world) [''st'']"
    "list_all (can_remove (fs share_world) ([''st''] @ [HOST_SHARE_STATE])) share_targets"
    by code_simp+
  have state: "share_state ([''st''] @ [HOST_SHARE_STATE]) t namespace =
      [''st'', ''host-share-state'', ''home'', namespace, ''src'']"
    if "t \<in> set share_targets" for t namespace
    using that by (simp add: share_targets_def share_state_def)
  have "lookup (fs share_world) [''st'', ''host-share-state'', ''home'', ''upper'', ''keep''] = Some (Reg ''y'' False)"
    by code_simp
  moreover note unshare_removes_only_its_state [OF targets prod.collapse [symmetric], of "[''st'']" sample_env share_world]
  ultimately show ?thesis
    using start state by (auto simp: spaces_def share_targets_def)
qed

subsection \<open>The check before a run\<close>

text \<open>The check looks below the instance directory, where the state was kept before the store. It passes
  whenever nothing is there, whatever the state of the current generation or run hides.\<close>

lemma missing_beneath:
  "is_dir t d \<Longrightarrow> lookup t (d @ [h]) = None \<Longrightarrow> missing_kind t (d @ h # r) = NotFound"
proof (induction d arbitrary: t)
  case Nil
  then show ?case by (cases t) (auto simp: is_dir_def split: option.splits)
next
  case (Cons a d)
  then show ?case by (cases t) (auto simp: is_dir_def split: option.splits)
qed

lemma nothing_found:
  assumes "calm e" "is_dir (fs s) d" "lookup (fs s) (d @ [h]) = None"
  shows "found (symlink_metadata (d @ h # r)) e s = (Ok None, ticked s)"
    and "direct_whiteout_exists (d @ h # r) e s = (Ok False, ticked s)"
    and "has_descendant_state (d @ h # r) e s = (Ok False, ticked s)"
  using assms missing_beneath [OF assms(2,3), of r] lookup_append_None [OF assms(3), of r]
  by (simp_all add: found_def symlink_metadata_def observe_calm run_rules direct_whiteout_exists_def
      has_descendant_state_def node_is_dir_def)

lemma no_whiteout:
  assumes "calm e" "is_dir (fs s) d" "lookup (fs s) (d @ [h]) = None"
  shows "\<exists>s'. first_whiteout (d @ h # r) ps e s = (Ok None, s') \<and> fs s' = fs s"
  using assms
proof (induction ps arbitrary: s)
  case (Cons p ps)
  have "direct_whiteout_exists ((d @ h # r) @ normal_names p) e s = (Ok False, ticked s)"
    using nothing_found(2) [OF Cons.prems, of "r @ normal_names p"] by simp
  with Cons.IH [of "ticked s"] Cons.prems show ?case by (auto simp: bind_def)
qed (simp add: ret_def)

lemma names_absolute: "normal_names (absolute_path p) = p"
  by (simp add: absolute_path_def)

lemma path_state_nothing:
  assumes "calm e" "is_dir (fs s) d" "lookup (fs s) (state_root d) = None"
    and "target_ok t" "exists_at (fs s) (normal_names (t_absolute t))"
  shows "\<exists>st s'. path_state (state_root d) t e s = (Ok st, s') \<and> ps_covering st = None \<and> fs s' = fs s"
proof -
  let ?h = "''host-share-state''" let ?ks = "normal_names (t_suffix t)"
  have none: "lookup (fs s) (d @ [?h]) = None" using assms(3) by simp
  have place: "normal_names (absolute_path (share_state (state_root d) t namespace)) = d @ ?h # [t_tag t, namespace] @ ?ks"
    for namespace by (simp add: names_absolute share_state_def)
  have whiteouts: "state_root d @ [t_tag t, ''whiteouts''] = d @ ?h # [t_tag t, ''whiteouts'']"
    by simp
  obtain n where n: "lookup (fs s) (normal_names (t_absolute t)) = Some n" using assms(5) by (auto simp: exists_at_def)
  let ?s = "ticked (ticked (ticked (ticked s)))"
  have lower: "found (symlink_metadata (normal_names (t_absolute t))) e (ticked (ticked s)) = (Ok (Some n), ticked (ticked (ticked s)))"
    using n assms(1) by (simp add: found_def symlink_metadata_def observe_calm run_rules)
  obtain s1 where covering: "covering_whiteout (state_root d) t e ?s = (Ok None, s1)" and same: "fs s1 = fs s"
    using no_whiteout [OF assms(1), of ?s d ?h] assms(2) none unfolding covering_whiteout_def whiteouts by auto
  have missing: "found (symlink_metadata (d @ ?h # r)) e s0 = (Ok None, ticked s0)"
    "direct_whiteout_exists (d @ ?h # r) e s0 = (Ok False, ticked s0)"
    "has_descendant_state (d @ ?h # r) e s0 = (Ok False, ticked s0)" if "fs s0 = fs s" for r s0
    using nothing_found [OF assms(1), of s0 d ?h r] that assms(2) none by auto
  show ?thesis
    unfolding path_state_def checked_state_path_ok [OF assms(4)] lift_res_def sum.case bind_of_ret place
    using lower covering same
    by (simp add: missing bind_def ret_def node_is_dir_def Let_def)
qed

lemma targets_nothing_hidden:
  assumes "calm e" "is_dir (fs s) d" "lookup (fs s) (state_root d) = None"
    and "list_all (\<lambda>t. target_ok t \<and> exists_at (fs s) (normal_names (t_absolute t))) ts"
  shows "\<exists>s'. each (\<lambda>target. bind (path_state (state_root d) target) (\<lambda>st.
      if ps_covering st \<noteq> None
      then raise (Bail ''working directory is hidden by host-share copy-on-write state'') else ret ())) ts e s = (Ok (), s')"
  using assms(2-)
proof (induction ts arbitrary: s)
  case (Cons t ts)
  then obtain st s1 where "path_state (state_root d) t e s = (Ok st, s1)" "ps_covering st = None" "fs s1 = fs s"
    using path_state_nothing [OF assms(1), of s d t] by auto
  with Cons.IH [of s1] Cons.prems show ?case by (auto simp: bind_def ret_def)
qed (simp add: ret_def)

lemma preflight_reads_instance_dir:
  assumes "calm e" "is_dir (fs s) d" "lookup (fs s) (state_root d) = None" "exists_at (fs s) cwd"
  shows "\<exists>s'. preflight_host_share_cwd_with_home d cwd False host_home e s = (Ok (), s')"
proof -
  let ?ts = "targets_for_absolute_path (absolute_path cwd) (absolute_path cwd) (Some (absolute_path host_home))"
  have ok: "target_ok t \<and> t_absolute t = absolute_path cwd" if "t \<in> set ?ts" for t
  proof
    have t: "t \<in> set (targets_for_normalized_absolute_path (absolute_path cwd) (absolute_path cwd)
        (normalized_home (Some (absolute_path host_home))))"
      using that unfolding targets_for_absolute_path_def normalize_plain Let_def by (simp split: if_splits)
    show "target_ok t"
      using t by (rule targets_normalized_ok)
        (auto simp: plain_def absolute_path_def is_absolute_def split: option.splits)
    show "t_absolute t = absolute_path cwd"
      using t by (auto simp: targets_for_normalized_absolute_path_def split: option.splits if_splits)
  qed
  have "list_all (\<lambda>t. target_ok t \<and> exists_at (fs (ticked s)) (normal_names (t_absolute t))) ?ts"
    using ok assms(4) by (auto simp: list_all_iff absolute_path_def)
  from targets_nothing_hidden [OF assms(1) _ _ this, of d] assms show ?thesis
    by (simp add: preflight_host_share_cwd_with_home_def bind_def test_path_calm)
qed

end
