(* ===== verification/Spec2Isabelle.thy ===== *)
theory Spec2Isabelle
  imports StoreProps StoreRefine LegacyProps PathsProps IngressProps ProtocolProps BrokerProps SnapshotsProps
    RootfsProps GuestProps NetlinkProps GuestChannelProps LocksProps SessionProps HostShareProps
begin

text \<open>
  A verification development for lnx, a command line tool that runs Linux virtual machines and saves
  their whole state (disk and memory) as snapshots. File names below are relative to the repository;
  \<open>src/src\<close> is the host program, \<open>src/lnx-protocol\<close> the messages, \<open>src/guest-agent\<close> the agent that runs
  as the first process of the guest.

  \<^bold>\<open>The program.\<close> An instance is a directory. Its store (\<open>src/src/store.rs\<close>) holds immutable generations,
  the directory of the current run, checkpoint references, and one record, \<open>state.json\<close>, that names the
  latest generation and the phase (stopped, running idle, running with unsaved work). One process at a
  time, the owner, holds the instance lock (\<open>runner/locks.rs\<close>), begins a run on a copy of the latest
  generation, starts the VM and serves clients through a broker (\<open>runner/broker.rs\<close>), which opens
  channels to the guest agent over framed messages. Checkpoints and the final snapshot
  (\<open>runner/session.rs\<close>, \<open>runner/capture.rs\<close>) are captured into a staging directory, published as a
  generation and committed to the record. The ingress (\<open>ingress.rs\<close>) routes host names to the ports of
  instances. Around this stand the layout of an instance (\<open>paths.rs\<close>), the migration of older layouts
  (\<open>store/legacy.rs\<close>), the checks of images and snapshots, the deterministic mode, and the
  copy-on-write state of the host directories that a guest sees (\<open>host_share.rs\<close>).

  \<^bold>\<open>How code is modelled.\<close> Text is a list of bytes. An operation on files is a function from an environment
  and a world to a result and a world (theory World): \<open>Ok\<close>, \<open>Err\<close> with the error that the code returns,
  or \<open>Killed\<close>. The world holds a tree of files, each with a flag that says whether it was synced. Each
  system call is a separate step that the fault schedule of the environment can make fail or make the
  point where the process dies, leaving a torn write or a half-done removal; a theorem about every
  environment is a theorem about every failure and every crash point. Code with threads or several
  processes is a step relation over their interleaved steps, and the locale \<open>machine\<close> gives reachability and
  invariants for all of them (its interpretations: the store, the broker and its barrier, the input and the
  end of a guest channel, the locks, the session); \<open>refinement\<close> extends it. Third-party code is an
  argument: JSON and postcard codecs (with the law that decoding inverts encoding), SHA-256, the VM's own
  snapshot, the host's file extents, e2fsprogs, and the sizes that differ between systems. Theory Sample
  has a codec that satisfies the law and a world without faults; the witnesses run in it.

  \<^bold>\<open>Shared theories.\<close> Prelude (errors, byte strings, ordered maps, the named collections of rules), Text
  (white space, UTF-8, numbers), Fs and World (trees, system calls, sequencing), Types (the JSON values),
  Footprint (which paths an operation leaves alone, and Hoare triples with a postcondition for failures),
  Copy and Views (\<open>fsutil.rs\<close>, \<open>sparse_copy.rs\<close>: a clone has the bytes of its source, syncing makes a tree
  durable), Calm (evaluation without faults), Machine (state machines), Forward.

  \<^bold>\<open>Store.\<close> Store has every operation of \<open>store.rs\<close> by its own name: \<open>stage\<close>, \<open>publish\<close>, \<open>commit_record\<close>,
  \<open>begin_run\<close>, \<open>mark_dirty\<close>, \<open>advance_latest\<close>, \<open>commit_latest\<close>, \<open>abandon_run\<close>, \<open>recover\<close>, \<open>salvage\<close>,
  \<open>discard_run\<close>, \<open>derive\<close>, \<open>drop_memory\<close>, the checkpoint references and \<open>collect_garbage\<close>. StoreFacts,
  StoreView, StoreGc, StoreSafe, StorePublish and StoreOps build up, operation by operation, that the safety
  invariant is kept at every point of failure: published generations are durable, and the record is
  readable and names a complete generation. StoreReach makes it an invariant of all sequences of
  operations, with the VM and captures writing in between. StoreProps shows that the record commit is atomic,
  that recovery tells apart what it finds, and that unsaved work is dropped by no operation but the explicit
  ones. StoreRefine states the contract of the store without files (a record, a catalogue of complete
  generations, three kinds of atomic step, each allowed to some operations only, after
  \<open>src/specs/tla\<close>) and shows that every operation refines it under every failure. SampleStore has the
  concrete stores of the witnesses. Legacy and LegacyProps: the migration of the old layout is atomic.

  \<^bold>\<open>Locks and runs.\<close> Locks has process identities, leases and the acquisition, inspection and release of the
  three locks, one system call per step, by any number of threads, with processes dying, forking and moving
  instances away in between; LocksProps shows that at most one thread owns an instance and that the lease is its own.
  Session has \<open>RunSession\<close>, the captures, the final snapshot and the end of a run on top of the store;
  SessionProps composes it with the store below and the broker above: no message of a command reaches the
  agent before the record on disk says the run holds work, and however a run ends that work is not lost.

  \<^bold>\<open>Broker and protocol.\<close> Protocol has the messages, the framing, waiting for a message and the client;
  ProtocolProps the round trip of frames, faithful relaying, and that only commands that never started are run
  again. Broker has the shared state of the owner's threads, every operation on it, the handlers and the
  owner's loop; BrokerProps the accounting of activity, the barrier before the final snapshot, shutting down,
  forwards, and the reasons for which the owner stops.

  \<^bold>\<open>Paths, ingress, launch, snapshots, images, shares.\<close> Paths and PathsProps: names, the transaction
  directory, socket paths that fit their address, the nearest instance. Ingress and IngressProps: routing
  of hosts and DNS questions, redirects, header rewriting, the administration socket. Launch, LaunchProps,
  Deterministic, DeterministicProps: what the owner is started with and what a snapshot records of it, and
  that both are read back as written. Snapshots and SnapshotsProps: a memory is resumed exactly when it
  fits. Rootfs and RootfsProps: the image contract, growing, and punching holes without changing a byte.
  HostShare and HostShareProps: the state of a shared path, and that unsharing it touches nothing else;
  the command is a sequence of store operations, so that all theorems about the store apply to it.

  \<^bold>\<open>Guest.\<close> Guest, GuestExec, GuestProps: mounts, entropy, network configuration, and the environment and
  search path of a command. NetlinkProps: the kernel reads the messages back. GuestChannel and GuestChannelProps:
  routing and the thread of a command with pipes as interleaved steps; input arrives in order, the exit
  status comes last.

  \<^bold>\<open>Bounds.\<close> Recursion over a tree follows the node found at its root, which only the operation itself
  changes. The search for a transaction directory takes the number of tries as an argument, and
  \<open>transaction_dir_found\<close> shows that one more than there are entries is enough. The retries of \<open>run\<close> have
  the bound of the source. Counters are natural numbers where the source's 64 bits are not reached, with
  the wrap-around or saturation written out where the source has it; fields of images, netlink and
  DNS messages are read as bytes at their width.

  \<^bold>\<open>Not modelled.\<close> The vendored libkrun and the gvproxy bridge are other projects' code. The API server
  (\<open>server.rs\<close>), downloads and registries (\<open>oci.rs\<close>, parts of \<open>init.rs\<close>), TLS and certificates, clap's parsing,
  terminals, log files, launchd and the start of processes are calls of third-party crates and of the
  operating system with little of the repository's own logic in between; the operations of store and locks that they call
  are modelled. \<open>checkpoints.rs\<close> and \<open>runner/stop.rs\<close> are listings and polling around modelled operations.
  Of the guest agent, booting, terminals and TCP connections are left out, and of the host-share state its
  printing. File attributes (modes, times, owners) and hard links to directories are not part of the tree, and
  intermediate symbolic links in the path of an instance are taken to be resolved. The web page, the SDKs,
  the site and the scripts hold no state of an instance.
\<close>

end
